(* ===== verification/Prelude.thy ===== *)
theory Prelude
  imports Complex_Main "HOL-Library.Word" "HOL-Library.State_Monad"
    "HOL-Library.List_Lexorder" "HOL-Library.Char_ord" "HOL-Library.Product_Lexorder"
begin

text \<open>
  Shared vocabulary of the development: the fixed-width integers of the C++ sources, byte
  strings, the correspondence between the bytes of a payload and the characters of a
  \<open>std::string\<close>, the named theorem collections that carry the component proofs, and the
  generic facts on lists that several components use.
\<close>

unbundle bit_operations_syntax

section \<open>Types\<close>

type_synonym u8 = "8 word"
type_synonym u16 = "16 word"
type_synonym u32 = "32 word"
type_synonym u64 = "64 word"

text \<open>\<open>std::int16_t\<close> and \<open>std::int32_t\<close> are kept as words and read with \<^const>\<open>sint\<close>.\<close>

type_synonym i16 = "16 word"
type_synonym i32 = "32 word"

text \<open>\<open>std::size_t\<close> of the supported (64 bit) targets.\<close>

type_synonym size_t = "64 word"

type_synonym bytes = "u8 list"

section \<open>Theorem collections\<close>

named_theorems wire_defs \<open>definitions of the primitive writers\<close>
named_theorems decodes_intros \<open>rules of the decoding calculus\<close>
named_theorems checked_intros \<open>rules for readers that report a latched failure\<close>
named_theorems stable_intros \<open>rules of the calculus of extensible readers\<close>

section \<open>Bytes and characters\<close>

text \<open>
  A \<open>std::string\<close> is a sequence of bytes; \<^typ>\<open>string\<close> is a list of 8 bit characters, so
  the two views are in bijection.
\<close>

definition byte_of_char :: "char \<Rightarrow> u8" where
  "byte_of_char c = word_of_nat (of_char c)"

definition char_of_byte :: "u8 \<Rightarrow> char" where
  "char_of_byte b = char_of (unat b)"

lemma of_char_less_256: "(of_char c :: nat) < 256"
  by (metis nat_of_char_less_256)

lemma char_of_byte_of_char [simp]: "char_of_byte (byte_of_char c) = c"
  by (simp add: char_of_byte_def byte_of_char_def unat_of_nat of_char_less_256)

lemma byte_of_char_of_byte [simp]: "byte_of_char (char_of_byte b) = b"
proof -
  have "unat b < 256" using unsigned_less [of b] by simp
  then show ?thesis by (simp add: char_of_byte_def byte_of_char_def of_char_of)
qed

definition str_bytes :: "string \<Rightarrow> bytes" where
  "str_bytes s = map byte_of_char s"

definition bytes_str :: "bytes \<Rightarrow> string" where
  "bytes_str bs = map char_of_byte bs"

lemma length_str_bytes [simp]: "length (str_bytes s) = length s"
  by (simp add: str_bytes_def)

lemma bytes_str_str_bytes [simp]: "bytes_str (str_bytes s) = s"
  by (simp add: bytes_str_def str_bytes_def map_idI)

lemma str_bytes_bytes_str [simp]: "str_bytes (bytes_str s) = s"
  by (simp add: bytes_str_def str_bytes_def map_idI)

section \<open>Words\<close>

lemma unat_word_of_nat: "n < 2 ^ LENGTH('a::len) \<Longrightarrow> unat (word_of_nat n :: 'a word) = n"
  by (simp add: unat_of_nat)

lemma unat_ucast_up: "LENGTH('a::len) \<le> LENGTH('b::len) \<Longrightarrow> unat (ucast (w :: 'a word) :: 'b word) = unat w"
  by (simp add: unsigned_ucast_eq take_bit_nat_eq_self_iff order_less_le_trans [OF unsigned_less] power_increasing)

section \<open>Lists\<close>

lemma take_append_drop_slice: "take n xs @ take m (drop n xs) @ drop (n + m) xs = xs"
  by (metis append_take_drop_id drop_drop add.commute)

lemma nth_drop_take:
  "i < n \<Longrightarrow> k + n \<le> length xs \<Longrightarrow> take n (drop k xs) ! i = xs ! (k + i)"
  by simp

lemma last_upd_map_of:
  "map_of (rev xs) k = fold (\<lambda>(a, b) m. m(a \<mapsto> b)) xs Map.empty k"
proof -
  have "fold (\<lambda>(a, b) m. m(a \<mapsto> b)) xs m = m ++ map_of (rev xs)" for m
    by (induction xs arbitrary: m) (auto simp: map_add_assoc map_add_upd_left)
  then show ?thesis by simp
qed

end
