(* ===== verification/Rounding.thy ===== *)
theory Rounding
  imports Prelude
begin

text \<open>
  Correct rounding of rational numbers to the magnitudes of IEEE-754 binary64, on which the
  arithmetic of \<open>double\<close> (\<open>Binary64\<close>) rests. A magnitude is the integer value of the 63 bits
  below the sign: \<open>mag_val\<close> reads it as a number, \<open>rnd_mag\<close> rounds to the nearest one with
  ties to even, saturating at \<open>inf_mag\<close>, the bit pattern of infinity. The theorems: rounding
  is monotone (\<open>rnd_mag_mono\<close>), the identity on representable values (\<open>rnd_mag_val\<close>,
  \<open>mag_val_rnd_exact\<close>), and within half a unit in the last place (\<open>rnd_mag_error\<close>), that is
  within a relative error of \<open>2 ^ -53\<close> on normal values (\<open>rnd_mag_rel_error\<close>).
\<close>

section \<open>Rounding rationals\<close>

text \<open>Bits of a positive integer, and the binary logarithm of a positive rational.\<close>

function blen :: "int \<Rightarrow> int" where
  "blen n = (if n \<le> 0 then 0 else 1 + blen (n div 2))"
  by pat_completeness auto
termination
  by (relation "measure nat") auto

declare blen.simps [simp del]

definition ilog2 :: "rat \<Rightarrow> int" where
  "ilog2 x = (if 1 \<le> x then blen \<lfloor>x\<rfloor> - 1 else - blen (\<lceil>1 / x\<rceil> - 1))"

definition pow2 :: "int \<Rightarrow> rat" where
  "pow2 e = (if 0 \<le> e then of_int (2 ^ nat e) else 1 / of_int (2 ^ nat (- e)))"

text \<open>Round half to even.\<close>

definition rne :: "rat \<Rightarrow> int" where
  "rne y = (let f = \<lfloor>y\<rfloor>; r = y - of_int f in
     if 1 / 2 < r \<or> (r = 1 / 2 \<and> odd f) then f + 1 else f)"

text \<open>The exponent of the last place of the binary64 numbers around \<open>x\<close>.\<close>

definition rexp :: "rat \<Rightarrow> int" where
  "rexp x = max (- 1074) (ilog2 x - 52)"

definition inf_mag :: int where
  "inf_mag = 2047 * 2 ^ 52"

text \<open>
  The magnitudes are numbered so that \<open>k * 2 ^ e\<close> with \<open>2 ^ 52 \<le> k < 2 ^ 53\<close> is magnitude
  \<open>(e + 1074) * 2 ^ 52 + k\<close>; the carry of \<open>k\<close> into \<open>2 ^ 53\<close> lands on the next exponent.
\<close>

definition rnd_mag :: "rat \<Rightarrow> int" where
  "rnd_mag x = (if x \<le> 0 then 0
     else min inf_mag ((rexp x + 1074) * 2 ^ 52 + rne (x / pow2 (rexp x))))"

definition mag_val :: "int \<Rightarrow> rat" where
  "mag_val n = (let e = n div 2 ^ 52; f = n mod 2 ^ 52 in
     if e = 0 then of_int f * pow2 (- 1074) else of_int (2 ^ 52 + f) * pow2 (e - 1075))"

section \<open>Powers of two and logarithms\<close>

lemma pow2_powi: "pow2 e = 2 powi e"
  by (simp add: pow2_def power_int_def field_simps)

lemma pow2_pos [simp]: "0 < pow2 e"
  by (simp add: pow2_powi)

lemma pow2_nz [simp]: "pow2 e \<noteq> 0"
  by (simp add: pow2_powi)

lemma pow2_not_neg [simp]: "\<not> pow2 e \<le> 0" "\<not> pow2 e < 0" "0 \<le> pow2 e"
  using pow2_pos [of e] by (simp_all del: pow2_pos add: not_le not_less less_imp_le)

lemma pow2_add: "pow2 (a + b) = pow2 a * pow2 b"
  by (simp add: pow2_powi power_int_add)

lemma pow2_mono: "a \<le> b \<Longrightarrow> pow2 a \<le> pow2 b"
  by (simp add: pow2_powi power_int_increasing)

lemma pow2_strict_mono: "a < b \<Longrightarrow> pow2 a < pow2 b"
  by (simp add: pow2_powi power_int_strict_increasing)

lemma pow2_less_iff [simp]: "pow2 a < pow2 b \<longleftrightarrow> a < b"
  by (metis pow2_mono pow2_strict_mono leD not_le)

lemma pow2_le_iff [simp]: "pow2 a \<le> pow2 b \<longleftrightarrow> a \<le> b"
  by (metis pow2_less_iff not_le)

lemma pow2_of_nat: "pow2 (int n) = 2 ^ n"
  by (simp add: pow2_powi)

lemma pow2_52: "pow2 52 = 2 ^ 52" and pow2_53: "pow2 53 = 2 ^ 53"
  using pow2_of_nat [of 52] pow2_of_nat [of 53] by simp_all

lemma blen_nonneg: "0 \<le> blen n"
  by (induction n rule: blen.induct) (subst blen.simps, simp)

lemma blen_bounds: "0 < n \<Longrightarrow> pow2 (blen n - 1) \<le> of_int n \<and> of_int n < pow2 (blen n)"
proof (induction n rule: blen.induct)
  case (1 n)
  show ?case
  proof (cases "n = 1")
    case True
    then show ?thesis by (simp add: blen.simps pow2_def)
  next
    case False
    with "1.prems" have n2: "0 < n div 2" and n0: "\<not> n \<le> 0" by auto
    from "1.IH" [OF n0 n2]
    have lo: "pow2 (blen (n div 2) - 1) \<le> of_int (n div 2)"
      and hi: "of_int (n div 2) < pow2 (blen (n div 2))" by auto
    have b: "blen n = 1 + blen (n div 2)" using n0 by (subst blen.simps) simp
    have d: "pow2 (blen (n div 2)) = 2 * pow2 (blen (n div 2) - 1)"
      using pow2_add [of 1 "blen (n div 2) - 1"] by (simp add: pow2_def)
    have "(of_int (2 * (n div 2)) :: rat) \<le> of_int n" by (subst of_int_le_iff) simp
    with lo have "pow2 (blen n - 1) \<le> of_int n" by (simp add: b d)
    moreover have "of_int n < pow2 (blen n)"
    proof -
      from blen_nonneg obtain k where k: "blen (n div 2) = int k" by (metis nonneg_int_cases)
      from hi have "n div 2 < 2 ^ k"
        by (metis k of_int_less_iff of_int_numeral of_int_power pow2_of_nat)
      then have "n < 2 ^ Suc k" by simp
      then have "(of_int n :: rat) < of_int (2 ^ Suc k)" by (simp only: of_int_less_iff)
      also have "\<dots> = pow2 (blen n)" using pow2_of_nat [of "Suc k"] by (simp add: b k add.commute)
      finally show ?thesis .
    qed
    ultimately show ?thesis by simp
  qed
qed

lemma ilog2_bounds:
  assumes "0 < x"
  shows "pow2 (ilog2 x) \<le> x" and "x < pow2 (ilog2 x + 1)"
proof -
  have "pow2 (ilog2 x) \<le> x \<and> x < pow2 (ilog2 x + 1)"
  proof (cases "1 \<le> x")
    case True
    then have f: "0 < \<lfloor>x\<rfloor>" by linarith
    from blen_nonneg obtain k where k: "blen \<lfloor>x\<rfloor> = int k" by (metis nonneg_int_cases)
    from blen_bounds [OF f] have lo: "pow2 (blen \<lfloor>x\<rfloor> - 1) \<le> of_int \<lfloor>x\<rfloor>"
      and "of_int \<lfloor>x\<rfloor> < pow2 (blen \<lfloor>x\<rfloor>)" by auto
    then have "\<lfloor>x\<rfloor> < 2 ^ k"
      by (metis k of_int_less_iff of_int_numeral of_int_power pow2_of_nat)
    then have "x < of_int (2 ^ k)" by (simp only: floor_less_iff)
    then have "x < pow2 (blen \<lfloor>x\<rfloor>)" by (simp add: k pow2_of_nat)
    with lo True show ?thesis
      by (auto simp: ilog2_def intro: order_trans [OF _ of_int_floor_le])
  next
    case False
    with assms have "1 < 1 / x" by (simp add: field_simps)
    then have n: "0 < \<lceil>1 / x\<rceil> - 1" by linarith
    let ?b = "blen (\<lceil>1 / x\<rceil> - 1)"
    from blen_nonneg obtain k where k: "?b = int k" by (metis nonneg_int_cases)
    from blen_bounds [OF n] have lo: "pow2 (?b - 1) \<le> of_int (\<lceil>1 / x\<rceil> - 1)"
      and hi: "of_int (\<lceil>1 / x\<rceil> - 1) < pow2 ?b" by auto
    have "of_int (\<lceil>1 / x\<rceil> - 1) < 1 / x" by linarith
    with lo have a: "pow2 (?b - 1) < 1 / x" by linarith
    from hi have "\<lceil>1 / x\<rceil> - 1 < 2 ^ k"
      by (metis k of_int_less_iff of_int_numeral of_int_power pow2_of_nat)
    then have "\<lceil>1 / x\<rceil> \<le> 2 ^ k" by simp
    then have "1 / x \<le> of_int (2 ^ k)" by (simp only: ceiling_le_iff)
    then have c: "1 / x \<le> pow2 ?b" by (simp add: k pow2_of_nat)
    have inv: "pow2 (- m) = 1 / pow2 m" for m
      by (simp add: pow2_powi power_int_minus field_simps)
    from a assms have "x < 1 / pow2 (?b - 1)" by (simp add: field_simps)
    also have "\<dots> = pow2 (- (?b - 1))" by (rule inv [symmetric])
    finally have "x < pow2 (- ?b + 1)" by (simp add: add.commute)
    moreover from c assms have "1 / pow2 ?b \<le> x" by (simp add: field_simps)
    then have "pow2 (- ?b) \<le> x" by (simp only: inv)
    ultimately show ?thesis using False by (simp add: ilog2_def)
  qed
  then show "pow2 (ilog2 x) \<le> x" and "x < pow2 (ilog2 x + 1)" by auto
qed

lemma ilog2_unique: "pow2 k \<le> x \<Longrightarrow> x < pow2 (k + 1) \<Longrightarrow> ilog2 x = k"
proof -
  assume k: "pow2 k \<le> x" "x < pow2 (k + 1)"
  then have x: "0 < x" by (meson less_le_trans pow2_pos)
  from ilog2_bounds [OF x] k have "pow2 (ilog2 x) < pow2 (k + 1)" "pow2 k < pow2 (ilog2 x + 1)"
    by linarith+
  then show ?thesis by simp
qed

lemma ilog2_mono: "0 < x \<Longrightarrow> x \<le> y \<Longrightarrow> ilog2 x \<le> ilog2 y"
proof -
  assume "0 < x" "x \<le> y"
  with ilog2_bounds [of x] ilog2_bounds [of y] have "pow2 (ilog2 x) < pow2 (ilog2 y + 1)"
    by linarith
  then show ?thesis by simp
qed

lemma rexp_mono: "0 < x \<Longrightarrow> x \<le> y \<Longrightarrow> rexp x \<le> rexp y"
  using ilog2_mono [of x y] by (simp add: rexp_def)

section \<open>Rounding to integers and to magnitudes\<close>

lemma rne_cases: "rne y = \<lfloor>y\<rfloor> \<or> rne y = \<lfloor>y\<rfloor> + 1"
  by (simp add: rne_def Let_def)

lemma rne_error: "\<bar>of_int (rne y) - y\<bar> \<le> 1 / 2"
  unfolding rne_def Let_def by (auto simp: abs_if) linarith+

lemma rne_of_int [simp]: "rne (of_int k) = k"
  by (simp add: rne_def)

lemma rne_mono: "x \<le> y \<Longrightarrow> rne x \<le> rne y"
proof (cases "\<lfloor>x\<rfloor> = \<lfloor>y\<rfloor>")
  case True
  assume "x \<le> y"
  with True show ?thesis by (auto simp: rne_def Let_def)
next
  case False
  assume "x \<le> y"
  with False have "\<lfloor>x\<rfloor> + 1 \<le> \<lfloor>y\<rfloor>" using floor_mono by fastforce
  then show ?thesis using rne_cases [of x] rne_cases [of y] by linarith
qed

lemma scaled_bounds:
  assumes "0 < x"
  shows "0 < x / pow2 (rexp x)" and "x / pow2 (rexp x) < 2 ^ 53"
    and "rexp x \<noteq> - 1074 \<Longrightarrow> 2 ^ 52 \<le> x / pow2 (rexp x)"
proof -
  show "0 < x / pow2 (rexp x)" using assms by simp
  have "x < pow2 (ilog2 x + 1)" using assms by (rule ilog2_bounds)
  also have "\<dots> \<le> pow2 (rexp x + 53)" by (simp add: rexp_def)
  finally show "x / pow2 (rexp x) < 2 ^ 53"
    by (simp add: pow2_add pow2_53 field_simps)
  assume "rexp x \<noteq> - 1074"
  then have "ilog2 x = rexp x + 52" by (auto simp: rexp_def max_def split: if_splits)
  with ilog2_bounds(1) [OF assms] show "2 ^ 52 \<le> x / pow2 (rexp x)"
    by (simp add: pow2_add pow2_52 field_simps)
qed

lemma rexp_ge: "- 1074 \<le> rexp x"
  by (simp add: rexp_def)

lemma rne_scaled_bounds:
  assumes "0 < x"
  shows "0 \<le> rne (x / pow2 (rexp x))" and "rne (x / pow2 (rexp x)) \<le> 2 ^ 53"
    and "rexp x \<noteq> - 1074 \<Longrightarrow> 2 ^ 52 \<le> rne (x / pow2 (rexp x))"
  using rne_mono [of "of_int 0" "x / pow2 (rexp x)"] rne_mono [of "x / pow2 (rexp x)" "of_int (2 ^ 53)"]
    rne_mono [of "of_int (2 ^ 52)" "x / pow2 (rexp x)"] scaled_bounds [OF assms]
  by (simp_all only: rne_of_int) simp_all

lemma rnd_mag_range: "0 \<le> rnd_mag x" "rnd_mag x \<le> inf_mag"
  using rne_scaled_bounds(1) [of x] rexp_ge [of x] by (auto simp: rnd_mag_def inf_mag_def)

lemma rnd_mag_mono: "x \<le> y \<Longrightarrow> rnd_mag x \<le> rnd_mag y"
proof (cases "0 < x")
  case False
  then show ?thesis using rnd_mag_range(1) [of y] by (simp add: rnd_mag_def)
next
  case True
  assume xy: "x \<le> y"
  with True have y: "0 < y" by simp
  from rexp_mono [OF True xy] consider "rexp x = rexp y" | "rexp x + 1 \<le> rexp y" by linarith
  then have "(rexp x + 1074) * 2 ^ 52 + rne (x / pow2 (rexp x))
    \<le> (rexp y + 1074) * 2 ^ 52 + rne (y / pow2 (rexp y))"
  proof cases
    case 1
    with xy show ?thesis by (simp add: rne_mono divide_right_mono less_imp_le)
  next
    case 2
    then have "rexp y \<noteq> - 1074" using rexp_ge [of x] by simp
    then have "2 ^ 52 \<le> rne (y / pow2 (rexp y))" by (rule rne_scaled_bounds(3) [OF y])
    with 2 rne_scaled_bounds(2) [OF True] show ?thesis by simp
  qed
  with True y show ?thesis by (simp add: rnd_mag_def)
qed

lemma digit_div: "0 \<le> j \<Longrightarrow> j < b \<Longrightarrow> (j + c * b) div b = (c :: int)"
  and digit_mod: "0 \<le> j \<Longrightarrow> j < b \<Longrightarrow> (j + c * b) mod b = j"
  by simp_all

lemma mag_val_compose:
  assumes "- 1074 \<le> e" "0 \<le> k" "k \<le> 2 ^ 53" "e = - 1074 \<or> 2 ^ 52 \<le> k"
  shows "mag_val ((e + 1074) * 2 ^ 52 + k) = of_int k * pow2 e"
proof -
  consider "k < 2 ^ 52" | "2 ^ 52 \<le> k" "k < 2 ^ 53" | "k = 2 ^ 53" using assms(3) by linarith
  then show ?thesis
  proof cases
    case 1
    with assms have "e = - 1074" by simp
    with 1 assms(2) show ?thesis by (simp add: mag_val_def)
  next
    case 2
    define j where "j = k - 2 ^ 52"
    with 2 have j: "0 \<le> j" "j < 2 ^ 52" by simp_all
    have n: "(e + 1074) * 2 ^ 52 + k = j + (e + 1075) * 2 ^ 52" by (simp add: j_def)
    have "((e + 1074) * 2 ^ 52 + k) div 2 ^ 52 = e + 1075"
      and "((e + 1074) * 2 ^ 52 + k) mod 2 ^ 52 = j"
      unfolding n by (rule digit_div [OF j], rule digit_mod [OF j])
    then show ?thesis using assms(1) by (simp add: mag_val_def j_def)
  next
    case 3
    then have "((e + 1074) * 2 ^ 52 + k) div 2 ^ 52 = e + 1076"
      and "((e + 1074) * 2 ^ 52 + k) mod 2 ^ 52 = 0"
      by simp_all
    then show ?thesis using assms(1) 3 pow2_add [of 1 e] by (simp add: mag_val_def pow2_def [of 1])
  qed
qed


text \<open>Every magnitude is \<open>k * 2 ^ e\<close> with a significand \<open>k\<close> of at most 53 bits.\<close>

lemma mag_decompose:
  assumes "0 \<le> (n :: int)"
  obtains e k where "n = (e + 1074) * 2 ^ 52 + k" "- 1074 \<le> e" "0 \<le> k" "k < 2 ^ 53"
    "e = - 1074 \<or> 2 ^ 52 \<le> k"
proof (cases "n div 2 ^ 52 = 0")
  case True
  then have "n < 2 ^ 52" using assms by (auto simp: zdiv_eq_0_iff)
  with assms show thesis using that [of "- 1074" n] by simp
next
  case False
  have "0 \<le> n div 2 ^ 52" using assms by (simp add: pos_imp_zdiv_nonneg_iff)
  with False have "- 1074 \<le> n div 2 ^ 52 - 1075" by simp
  moreover have "n = (n div 2 ^ 52 - 1075 + 1074) * 2 ^ 52 + (2 ^ 52 + n mod 2 ^ 52)"
    using mult_div_mod_eq [of "2 ^ 52" n] by simp
  moreover have "0 \<le> n mod 2 ^ 52" "n mod 2 ^ 52 < 2 ^ 52" by simp_all
  ultimately show thesis
    using that [of "n div 2 ^ 52 - 1075" "2 ^ 52 + n mod 2 ^ 52"] by simp
qed

lemma mag_val_nonneg: "0 \<le> n \<Longrightarrow> 0 \<le> mag_val n"
  by (auto simp: mag_val_def Let_def less_imp_le)

lemma mag_val_0 [simp]: "mag_val 0 = 0"
  by (simp add: mag_val_def)

lemma mag_val_step: "0 \<le> n \<Longrightarrow> mag_val n < mag_val (n + 1)"
proof -
  assume "0 \<le> n"
  then obtain e k where n: "n = (e + 1074) * 2 ^ 52 + k" and e: "- 1074 \<le> e" and k: "0 \<le> k" "k < 2 ^ 53"
    and c: "e = - 1074 \<or> 2 ^ 52 \<le> k" by (rule mag_decompose)
  have "mag_val (n + 1) = of_int (k + 1) * pow2 e"
    using mag_val_compose [of e "k + 1"] e k c by (auto simp: n add.assoc)
  moreover have "mag_val n = of_int k * pow2 e"
    using mag_val_compose [of e k] e k c by (simp add: n)
  ultimately show ?thesis by simp
qed

lemma mag_val_strict_mono: "0 \<le> m \<Longrightarrow> m < n \<Longrightarrow> mag_val m < mag_val n"
proof -
  assume "0 \<le> m" "m < n"
  then obtain i j where mn: "m = int i" "n = int j" and ij: "i < j"
    by (metis nonneg_int_cases of_nat_less_iff order_trans less_imp_le)
  have "mag_val (int l) < mag_val (int (Suc l))" for l
    using mag_val_step [of "int l"] by (simp add: add.commute)
  from lift_Suc_mono_less [of "\<lambda>l. mag_val (int l)", OF this ij] show ?thesis by (simp add: mn)
qed

lemma mag_val_less_iff: "0 \<le> m \<Longrightarrow> 0 \<le> n \<Longrightarrow> mag_val m < mag_val n \<longleftrightarrow> m < n"
  by (metis mag_val_strict_mono not_less_iff_gr_or_eq)

lemma mag_val_inj: "0 \<le> m \<Longrightarrow> 0 \<le> n \<Longrightarrow> mag_val m = mag_val n \<longleftrightarrow> m = n"
  by (metis mag_val_strict_mono not_less_iff_gr_or_eq)

lemma mag_val_pos: "0 < n \<Longrightarrow> 0 < mag_val n"
  using mag_val_strict_mono [of 0 n] by simp

text \<open>Rounding a representable value gives it back.\<close>

lemma rnd_mag_compose:
  assumes "- 1074 \<le> e" "0 \<le> k" "k < 2 ^ 53" "e = - 1074 \<or> 2 ^ 52 \<le> k"
  shows "rnd_mag (of_int k * pow2 e) = min inf_mag ((e + 1074) * 2 ^ 52 + k)"
proof (cases "k = 0")
  case True
  with assms show ?thesis by (simp add: rnd_mag_def inf_mag_def)
next
  case False
  with assms(2) have x: "0 < of_int k * pow2 e" and k: "0 < k" by simp_all
  have "rexp (of_int k * pow2 e) = e"
  proof (cases "2 ^ 52 \<le> k")
    case True
    then have "2 ^ 52 \<le> (of_int k :: rat)" by (metis of_int_le_iff of_int_numeral of_int_power)
    moreover have "(of_int k :: rat) < 2 ^ 53"
      using assms(3) by (metis of_int_less_iff of_int_numeral of_int_power)
    ultimately have "ilog2 (of_int k * pow2 e) = e + 52"
      using pow2_add [of e 52] pow2_add [of e 53] pow2_52 pow2_53
      by (intro ilog2_unique) (simp_all add: add.assoc)
    then show ?thesis using assms(1) by (simp add: rexp_def)
  next
    case False
    then have "(of_int k :: rat) < 2 ^ 52"
      by (metis of_int_less_iff of_int_numeral of_int_power not_le)
    then have "of_int k * pow2 e < pow2 (52 + e)" by (simp add: pow2_add pow2_52)
    with ilog2_bounds(1) [OF x] have "pow2 (ilog2 (of_int k * pow2 e)) < pow2 (52 + e)" by linarith
    moreover have "e = - 1074" using False assms(4) by simp
    ultimately show ?thesis by (simp add: rexp_def)
  qed
  with k show ?thesis by (simp add: rnd_mag_def mult_le_0_iff not_le)
qed

lemma rnd_mag_val:
  assumes "0 \<le> n" "n \<le> inf_mag"
  shows "rnd_mag (mag_val n) = n"
proof -
  obtain e k where n: "n = (e + 1074) * 2 ^ 52 + k" and e: "- 1074 \<le> e" and k: "0 \<le> k" "k < 2 ^ 53"
    and c: "e = - 1074 \<or> 2 ^ 52 \<le> k" using assms(1) by (rule mag_decompose)
  have "mag_val n = of_int k * pow2 e" using mag_val_compose [of e k] e k c by (simp add: n)
  with rnd_mag_compose [OF e k c] assms(2) show ?thesis by (simp add: n)
qed

text \<open>The rounding error is at most half a unit in the last place.\<close>

lemma rnd_mag_error:
  assumes "0 < x" "rnd_mag x < inf_mag"
  shows "\<bar>mag_val (rnd_mag x) - x\<bar> \<le> pow2 (rexp x) / 2"
proof -
  let ?e = "rexp x" let ?q = "x / pow2 ?e"
  from assms have r: "rnd_mag x = (?e + 1074) * 2 ^ 52 + rne ?q" by (simp add: rnd_mag_def)
  have "mag_val (rnd_mag x) = of_int (rne ?q) * pow2 ?e"
    unfolding r using rne_scaled_bounds [OF assms(1)] rexp_ge [of x] by (intro mag_val_compose) auto
  then have "mag_val (rnd_mag x) - x = (of_int (rne ?q) - ?q) * pow2 ?e" by (simp add: field_simps)
  then have "\<bar>mag_val (rnd_mag x) - x\<bar> = \<bar>of_int (rne ?q) - ?q\<bar> * pow2 ?e"
    by (simp add: abs_mult less_imp_le)
  also have "\<dots> \<le> 1 / 2 * pow2 ?e" by (intro mult_right_mono rne_error) (simp add: less_imp_le)
  finally show ?thesis by simp
qed

lemma rnd_mag_rel_error:
  assumes "pow2 (- 1022) \<le> x" "rnd_mag x < inf_mag"
  shows "\<bar>mag_val (rnd_mag x) - x\<bar> \<le> x * pow2 (- 53)"
proof -
  have x: "0 < x" using assms(1) by (meson less_le_trans pow2_pos)
  with assms(1) ilog2_bounds(2) [OF x] have "pow2 (- 1022) < pow2 (ilog2 x + 1)" by linarith
  then have "rexp x = ilog2 x - 52" by (simp add: rexp_def)
  then have "pow2 (rexp x) = pow2 (ilog2 x) * pow2 (- 52)"
    using pow2_add [of "ilog2 x" "- 52"] by simp
  also have "\<dots> \<le> x * pow2 (- 52)"
    using ilog2_bounds(1) [OF x] by (intro mult_right_mono) (simp_all add: less_imp_le)
  finally have "pow2 (rexp x) / 2 \<le> x * pow2 (- 53)"
    using pow2_add [of "- 53" 1] by (simp add: pow2_def [of 1])
  with rnd_mag_error [OF x assms(2)] show ?thesis by linarith
qed

lemma rexp_le:
  assumes "0 < x" "x < pow2 (53 + e)" "- 1074 \<le> e"
  shows "rexp x \<le> e"
proof -
  from ilog2_bounds(1) [OF assms(1)] assms(2) have "pow2 (ilog2 x) < pow2 (53 + e)" by linarith
  then show ?thesis using assms(3) by (simp add: rexp_def)
qed

lemma rnd_mag_finite: "x < pow2 1023 \<Longrightarrow> rnd_mag x < inf_mag"
proof (cases "0 < x")
  case True
  assume "x < pow2 1023"
  with True have "rexp x \<le> 970" by (intro rexp_le) simp_all
  with rne_scaled_bounds(2) [OF True] True show ?thesis by (simp add: rnd_mag_def inf_mag_def)
qed (simp add: rnd_mag_def inf_mag_def)

lemma mag_val_rnd_exact:
  assumes "0 < x" "x = of_int k * pow2 e" "k \<le> 2 ^ 53" "- 1074 \<le> e" "rnd_mag x < inf_mag"
  shows "mag_val (rnd_mag x) = x"
proof (cases "k = 2 ^ 53")
  case True
  with assms have x: "x = of_int (2 ^ 52) * pow2 (e + 1)" by (simp add: pow2_add pow2_def [of 1])
  have "rnd_mag x = min inf_mag ((e + 1 + 1074) * 2 ^ 52 + 2 ^ 52)"
    unfolding x using assms(4) by (intro rnd_mag_compose) simp_all
  with assms(5) have "rnd_mag x = (e + 1 + 1074) * 2 ^ 52 + 2 ^ 52" by simp
  then show ?thesis using mag_val_compose [of "e + 1" "2 ^ 52"] assms(4) by (simp add: x)
next
  case False
  have k: "k < 2 ^ 53" using assms(3) False by simp
  then have "(of_int k :: rat) < 2 ^ 53" by (metis of_int_less_iff of_int_numeral of_int_power)
  then have "x < pow2 (53 + e)" by (simp add: assms(2) pow2_add pow2_53)
  then have le: "rexp x \<le> e" using assms by (intro rexp_le)
  have "of_int k * pow2 e / pow2 r = of_int k * pow2 (e - r)" for r
    using pow2_add [of "e - r" r] by simp
  then have "x / pow2 (rexp x) = of_int k * pow2 (e - rexp x)" by (metis assms(2))
  also have "\<dots> = of_int (k * 2 ^ nat (e - rexp x))" using le by (simp add: pow2_def)
  finally have q: "x / pow2 (rexp x) = of_int (k * 2 ^ nat (e - rexp x))" .
  then have r: "of_int (rne (x / pow2 (rexp x))) = x / pow2 (rexp x)" by (simp only: rne_of_int)
  have "mag_val (rnd_mag x) = of_int (rne (x / pow2 (rexp x))) * pow2 (rexp x)"
    using assms(1,5) rne_scaled_bounds [OF assms(1)] rexp_ge [of x]
    by (subst mag_val_compose [symmetric]) (auto simp: rnd_mag_def)
  then show ?thesis by (simp add: r)
qed

end
