(* ===== verification/Binary64.thy ===== *)
theory Binary64
  imports Rounding
begin

text \<open>
  The \<open>double\<close> of the C++ sources: IEEE-754 binary64, as a 64 bit pattern. The sources
  copy the pattern to and from the wire (\<open>write_f64\<close>, \<open>read_f64\<close>), compare doubles with
  the IEEE predicates, and compute with \<open>+ - * /\<close>, \<open>std::sqrt\<close>, \<open>std::floor\<close>, \<open>std::fmod\<close>,
  \<open>std::fabs\<close>, \<open>std::max\<close> and \<open>std::min\<close>; each is defined here by its exact value followed by
  one correct rounding, with the special cases for infinities, NaN and signed zeros. A NaN
  result is the positive quiet NaN (its payload is not specified by C++ and no source
  inspects it). The trigonometric functions of \<open><cmath>\<close>, whose results the C++ standard does
  not determine, are a parameter (\<open>libm\<close>).
\<close>

section \<open>The type of doubles\<close>

datatype double = F64 (bits_of: "64 word")

definition neg :: "double \<Rightarrow> bool" where
  "neg x \<longleftrightarrow> 2 ^ 63 \<le> uint (bits_of x)"

definition mag :: "double \<Rightarrow> int" where
  "mag x = uint (bits_of x) mod 2 ^ 63"

definition mk :: "bool \<Rightarrow> int \<Rightarrow> double" where
  "mk s m = F64 (word_of_int ((if s then 2 ^ 63 else 0) + m))"

definition isnan :: "double \<Rightarrow> bool" where
  "isnan x \<longleftrightarrow> inf_mag < mag x"

definition isinf :: "double \<Rightarrow> bool" where
  "isinf x \<longleftrightarrow> mag x = inf_mag"

definition isfinite :: "double \<Rightarrow> bool" where
  "isfinite x \<longleftrightarrow> mag x < inf_mag"

definition fval :: "double \<Rightarrow> rat" where
  "fval x = (if neg x then - mag_val (mag x) else mag_val (mag x))"

definition okey :: "double \<Rightarrow> int" where
  "okey x = (if neg x then - mag x else mag x)"

definition fl :: "bool \<Rightarrow> rat \<Rightarrow> double" where
  "fl s x = (if x < 0 then mk True (rnd_mag (- x))
     else if 0 < x then mk False (rnd_mag x) else mk s 0)"

definition qnan :: double where
  "qnan = mk False (2047 * 2 ^ 52 + 2 ^ 51)"

definition finf :: "bool \<Rightarrow> double" where
  "finf s = mk s inf_mag"

definition fneg :: "double \<Rightarrow> double" where
  "fneg x = mk (\<not> neg x) (mag x)"

definition fabs :: "double \<Rightarrow> double" where
  "fabs x = mk False (mag x)"

definition fadd :: "double \<Rightarrow> double \<Rightarrow> double" where
  "fadd a b = (if isnan a \<or> isnan b then qnan
     else if isinf a then (if isinf b \<and> neg a \<noteq> neg b then qnan else a)
     else if isinf b then b
     else fl (neg a \<and> neg b) (fval a + fval b))"

definition fsub :: "double \<Rightarrow> double \<Rightarrow> double" where
  "fsub a b = fadd a (fneg b)"

definition fmul :: "double \<Rightarrow> double \<Rightarrow> double" where
  "fmul a b = (if isnan a \<or> isnan b then qnan
     else if isinf a \<and> mag b = 0 \<or> mag a = 0 \<and> isinf b then qnan
     else if isinf a \<or> isinf b then finf (neg a \<noteq> neg b)
     else fl (neg a \<noteq> neg b) (fval a * fval b))"

definition fdiv :: "double \<Rightarrow> double \<Rightarrow> double" where
  "fdiv a b = (if isnan a \<or> isnan b then qnan
     else if isinf a \<and> isinf b \<or> mag a = 0 \<and> mag b = 0 then qnan
     else if isinf a \<or> mag b = 0 then finf (neg a \<noteq> neg b)
     else if isinf b then mk (neg a \<noteq> neg b) 0
     else fl (neg a \<noteq> neg b) (fval a / fval b))"

definition flt :: "double \<Rightarrow> double \<Rightarrow> bool" where
  "flt a b \<longleftrightarrow> \<not> isnan a \<and> \<not> isnan b \<and> okey a < okey b"

definition fle :: "double \<Rightarrow> double \<Rightarrow> bool" where
  "fle a b \<longleftrightarrow> \<not> isnan a \<and> \<not> isnan b \<and> okey a \<le> okey b"

definition feq :: "double \<Rightarrow> double \<Rightarrow> bool" where
  "feq a b \<longleftrightarrow> \<not> isnan a \<and> \<not> isnan b \<and> okey a = okey b"

definition ffloor :: "double \<Rightarrow> double" where
  "ffloor x = (if isfinite x \<and> mag x \<noteq> 0 then fl (neg x) (of_int \<lfloor>fval x\<rfloor>) else x)"

definition trunc_rat :: "rat \<Rightarrow> int" where
  "trunc_rat x = (if x < 0 then - \<lfloor>- x\<rfloor> else \<lfloor>x\<rfloor>)"

definition fmod :: "double \<Rightarrow> double \<Rightarrow> double" where
  "fmod x y = (if isnan x \<or> isnan y \<or> isinf x \<or> mag y = 0 then qnan
     else if isinf y then x
     else fl (neg x) (fval x - of_int (trunc_rat (fval x / fval y)) * fval y))"

function isqrt :: "int \<Rightarrow> int" where
  "isqrt n = (if n \<le> 0 then 0
     else let r = 2 * isqrt (n div 4) in if (r + 1) * (r + 1) \<le> n then r + 1 else r)"
  by pat_completeness auto
termination
  by (relation "measure nat") auto

declare isqrt.simps [simp del]

definition sqrt_rat :: "rat \<Rightarrow> rat" where
  "sqrt_rat v = (let j = 56 - ilog2 v div 2; w = v * pow2 (2 * j); r = isqrt \<lfloor>w\<rfloor> in
     if of_int (r * r) = w then of_int r / pow2 j else of_int (2 * r + 1) / pow2 (j + 1))"

definition fsqrt :: "double \<Rightarrow> double" where
  "fsqrt x = (if isnan x \<or> mag x = 0 then x
     else if neg x then qnan
     else if isinf x then x
     else fl False (sqrt_rat (fval x)))"

definition double_to_int :: "double \<Rightarrow> int" where
  "double_to_int x = trunc_rat (fval x)"

definition double_of_int :: "int \<Rightarrow> double" where
  "double_of_int i = fl False (of_int i)"

definition dlit :: "rat \<Rightarrow> double" where
  "dlit x = fl False x"

text \<open>\<open>std::max\<close> and \<open>std::min\<close>, which return their first argument unless the comparison holds.\<close>

definition std_max :: "double \<Rightarrow> double \<Rightarrow> double" where
  "std_max a b = (if flt a b then b else a)"

definition std_min :: "double \<Rightarrow> double \<Rightarrow> double" where
  "std_min a b = (if flt b a then b else a)"


record libm =
  lm_sin :: "double \<Rightarrow> double"
  lm_cos :: "double \<Rightarrow> double"
  lm_atan2 :: "double \<Rightarrow> double \<Rightarrow> double"

subsection \<open>Signs, magnitudes and the rounding of values\<close>

lemma mag_range: "0 \<le> mag x" "mag x < 2 ^ 63"
  by (simp_all add: mag_def)

lemma uint_bits: "uint (bits_of x) = (if neg x then 2 ^ 63 else 0) + mag x"
proof -
  define u where "u = uint (bits_of x)"
  have "u < 2 ^ 64" "0 \<le> u" using uint_lt2p [of "bits_of x"] by (simp_all add: u_def)
  then have "u = (if 2 ^ 63 \<le> u then 2 ^ 63 else 0) + u mod 2 ^ 63"
    using digit_mod [of "u - 2 ^ 63" "2 ^ 63" 1] by (auto simp: mod_pos_pos_trivial)
  then show ?thesis by (simp only: neg_def mag_def u_def)
qed

lemma mk_neg_mag [simp]: "mk (neg x) (mag x) = x"
  by (simp only: mk_def uint_bits [symmetric] word_of_int_uint) simp

lemma uint_bits_mk:
  "0 \<le> m \<Longrightarrow> m < 2 ^ 63 \<Longrightarrow> uint (bits_of (mk s m)) = (if s then 2 ^ 63 else 0) + m"
  by (cases s) (simp_all only: mk_def double.sel uint_word_of_int if_True if_False, simp_all)

lemma mag_mk [simp]: "0 \<le> m \<Longrightarrow> m < 2 ^ 63 \<Longrightarrow> mag (mk s m) = m"
  by (simp only: mag_def uint_bits_mk) (simp add: mod_pos_pos_trivial)

lemma neg_mk [simp]: "0 \<le> m \<Longrightarrow> m < 2 ^ 63 \<Longrightarrow> neg (mk s m) = s"
  by (simp only: neg_def uint_bits_mk) simp

lemma double_eqI: "neg x = neg y \<Longrightarrow> mag x = mag y \<Longrightarrow> x = y"
  by (rule box_equals [OF _ mk_neg_mag mk_neg_mag]) simp

lemma rnd_mag_lt63: "rnd_mag x < 2 ^ 63"
  using rnd_mag_range(2) [of x] by (simp add: inf_mag_def)

lemma mag_fl: "mag (fl s x) = rnd_mag \<bar>x\<bar>"
  using rnd_mag_range(1) rnd_mag_lt63 by (auto simp: fl_def rnd_mag_def [of 0])

lemma neg_fl: "neg (fl s x) = (if x = 0 then s else x < 0)"
  using rnd_mag_range(1) rnd_mag_lt63 by (auto simp: fl_def)

lemma fl_not_nan [simp]: "\<not> isnan (fl s x)"
  using rnd_mag_range(2) [of "\<bar>x\<bar>"] by (simp add: isnan_def mag_fl)

lemma isfinite_iff: "isfinite x \<longleftrightarrow> \<not> isnan x \<and> \<not> isinf x"
  by (auto simp: isfinite_def isnan_def isinf_def)

lemma mag_fneg [simp]: "mag (fneg x) = mag x" and neg_fneg [simp]: "neg (fneg x) = (\<not> neg x)"
  using mag_range [of x] by (simp_all add: fneg_def)

lemma mag_fabs [simp]: "mag (fabs x) = mag x" and neg_fabs [simp]: "\<not> neg (fabs x)"
  using mag_range [of x] by (simp_all add: fabs_def)

lemma mag_finf [simp]: "mag (finf s) = inf_mag" and neg_finf [simp]: "neg (finf s) = s"
  by (simp_all add: finf_def inf_mag_def)

lemma fneg_fneg [simp]: "fneg (fneg x) = x"
  by (rule double_eqI) simp_all

lemma isnan_fneg [simp]: "isnan (fneg x) = isnan x"
  and isinf_fneg [simp]: "isinf (fneg x) = isinf x"
  and isfinite_fneg [simp]: "isfinite (fneg x) = isfinite x"
  by (simp_all add: isnan_def isinf_def isfinite_def)

lemma fval_fneg [simp]: "fval (fneg x) = - fval x"
  by (simp add: fval_def)

lemma okey_fneg [simp]: "okey (fneg x) = - okey x"
  by (simp add: okey_def)

subsection \<open>Order\<close>

text \<open>The order of doubles is the order of their keys, and of their values.\<close>

definition sval :: "int \<Rightarrow> rat" where
  "sval k = (if k < 0 then - mag_val (- k) else mag_val k)"

lemma fval_okey: "fval x = sval (okey x)"
  using mag_range(1) [of x] by (auto simp: fval_def sval_def okey_def)

lemma sval_strict_mono: "a < b \<Longrightarrow> sval a < sval b"
proof -
  assume ab: "a < b"
  consider "b < 0" | "a < 0" "0 \<le> b" | "0 \<le> a" using ab by linarith
  then show ?thesis
  proof cases
    case 1
    with ab show ?thesis by (simp add: sval_def mag_val_strict_mono)
  next
    case 2
    then have "- mag_val (- a) < 0" "0 \<le> mag_val b" by (simp_all add: mag_val_pos mag_val_nonneg)
    with 2 show ?thesis by (simp add: sval_def)
  next
    case 3
    with ab show ?thesis by (simp add: sval_def mag_val_strict_mono)
  qed
qed

lemma sval_less_iff [simp]: "sval a < sval b \<longleftrightarrow> a < b"
  by (metis sval_strict_mono not_less_iff_gr_or_eq)

lemma sval_le_iff [simp]: "sval a \<le> sval b \<longleftrightarrow> a \<le> b"
  by (metis sval_less_iff not_le)

lemma flt_fval: "isfinite a \<Longrightarrow> isfinite b \<Longrightarrow> flt a b \<longleftrightarrow> fval a < fval b"
  by (simp add: flt_def isfinite_iff fval_okey)

lemma fle_fval: "isfinite a \<Longrightarrow> isfinite b \<Longrightarrow> fle a b \<longleftrightarrow> fval a \<le> fval b"
  by (simp add: fle_def isfinite_iff fval_okey)

definition rkey :: "rat \<Rightarrow> int" where
  "rkey x = (if x < 0 then - rnd_mag (- x) else rnd_mag x)"

lemma okey_fl [simp]: "okey (fl s x) = rkey x"
  by (auto simp: okey_def rkey_def mag_fl neg_fl rnd_mag_def [of 0])

lemma rkey_mono: "x \<le> y \<Longrightarrow> rkey x \<le> rkey y"
  using rnd_mag_mono [of x y] rnd_mag_mono [of "- y" "- x"] rnd_mag_range(1) [of "- x"] rnd_mag_range(1) [of y]
  by (auto simp: rkey_def)

lemma rkey_minus: "rkey (- x) = - rkey x"
  by (auto simp: rkey_def rnd_mag_def [of 0])

lemma okey_bounds: "\<not> isnan x \<Longrightarrow> \<bar>okey x\<bar> \<le> inf_mag"
  using mag_range(1) [of x] by (auto simp: okey_def isnan_def)

lemma rkey_bounds: "\<bar>rkey x\<bar> \<le> inf_mag"
  using rnd_mag_range [of x] rnd_mag_range [of "- x"] by (auto simp: rkey_def)

lemma rkey_fval: "\<not> isnan d \<Longrightarrow> rkey (fval d) = okey d"
proof -
  assume "\<not> isnan d"
  then have m: "0 \<le> mag d" "mag d \<le> inf_mag" using mag_range(1) [of d] by (simp_all add: isnan_def)
  have "0 < mag_val (mag d)" if "mag d \<noteq> 0" using m that by (intro mag_val_pos) simp
  then show ?thesis using m rnd_mag_val [OF m]
    by (cases "mag d = 0") (auto simp: rkey_def fval_def okey_def rnd_mag_def [of 0])
qed

lemma fl_fval [simp]: "isfinite d \<Longrightarrow> fl (neg d) (fval d) = d"
proof (rule double_eqI)
  assume d: "isfinite d"
  then have m: "0 \<le> mag d" "mag d \<le> inf_mag" using mag_range(1) [of d] by (simp_all add: isfinite_def)
  show "mag (fl (neg d) (fval d)) = mag d"
    using rnd_mag_val [OF m] mag_val_nonneg [OF m(1)] by (simp add: mag_fl fval_def)
  show "neg (fl (neg d) (fval d)) = neg d"
    using mag_val_nonneg [OF m(1)] by (auto simp: neg_fl fval_def)
qed

text \<open>Rounding respects every representable bound.\<close>

lemma rkey_ge: "\<not> isnan d \<Longrightarrow> fval d \<le> x \<Longrightarrow> okey d \<le> rkey x"
  using rkey_mono [of "fval d" x] by (simp add: rkey_fval)

lemma rkey_le: "\<not> isnan d \<Longrightarrow> x \<le> fval d \<Longrightarrow> rkey x \<le> okey d"
  using rkey_mono [of x "fval d"] by (simp add: rkey_fval)

subsection \<open>Exactness and error of rounding\<close>

lemma isfinite_fl: "\<bar>x\<bar> < pow2 1023 \<Longrightarrow> isfinite (fl s x)"
  by (simp add: isfinite_def mag_fl rnd_mag_finite)

lemma fval_fl_exact:
  assumes "x = of_int k * pow2 e" "\<bar>k\<bar> \<le> 2 ^ 53" "- 1074 \<le> e" "isfinite (fl s x)"
  shows "fval (fl s x) = x"
proof -
  from assms(4) have f: "rnd_mag \<bar>x\<bar> < inf_mag" by (simp add: isfinite_def mag_fl)
  have x: "\<bar>x\<bar> = of_int \<bar>k\<bar> * pow2 e" by (simp add: assms(1) abs_mult)
  have "mag_val (rnd_mag \<bar>x\<bar>) = \<bar>x\<bar>"
  proof (cases "x = 0")
    case True
    then show ?thesis by (simp add: rnd_mag_def)
  next
    case False
    then show ?thesis using mag_val_rnd_exact [OF _ x assms(2,3) f] by simp
  qed
  then show ?thesis by (auto simp: fval_def mag_fl neg_fl)
qed

lemma fval_fl_int:
  assumes "\<bar>i\<bar> \<le> 2 ^ 53"
  shows "isfinite (fl s (of_int i))" and "fval (fl s (of_int i)) = of_int i"
proof -
  have "(of_int \<bar>i\<bar> :: rat) \<le> of_int (2 ^ 53)" using assms by (simp only: of_int_le_iff)
  then have "\<bar>of_int i :: rat\<bar> \<le> pow2 53" by (simp add: pow2_53)
  also have "\<dots> < pow2 1023" by simp
  finally show f: "isfinite (fl s (of_int i))" by (rule isfinite_fl)
  show "fval (fl s (of_int i)) = of_int i"
    by (rule fval_fl_exact [OF _ assms _ f, of 0]) (simp_all add: pow2_def)
qed

lemma fval_fl_error:
  assumes "pow2 (- 1022) \<le> \<bar>x\<bar>" "isfinite (fl s x)"
  shows "\<bar>fval (fl s x) - x\<bar> \<le> \<bar>x\<bar> * pow2 (- 53)"
proof -
  from assms(2) have f: "rnd_mag \<bar>x\<bar> < inf_mag" by (simp add: isfinite_def mag_fl)
  have "fval (fl s x) - x = (if x < 0 then -1 else 1) * (mag_val (rnd_mag \<bar>x\<bar>) - \<bar>x\<bar>)"
    by (auto simp: fval_def mag_fl neg_fl rnd_mag_def [of 0])
  then have "\<bar>fval (fl s x) - x\<bar> = \<bar>mag_val (rnd_mag \<bar>x\<bar>) - \<bar>x\<bar>\<bar>" by (auto simp: abs_if)
  also have "\<dots> \<le> \<bar>x\<bar> * pow2 (- 53)" by (rule rnd_mag_rel_error [OF assms(1) f])
  finally show ?thesis .
qed

lemma finite_decompose:
  obtains k e where "fval x = of_int k * pow2 e" "\<bar>k\<bar> < 2 ^ 53" "- 1074 \<le> e"
proof -
  obtain e k where n: "mag x = (e + 1074) * 2 ^ 52 + k" and e: "- 1074 \<le> e" and k: "0 \<le> k" "k < 2 ^ 53"
    and c: "e = - 1074 \<or> 2 ^ 52 \<le> k" using mag_range(1) [of x] by (rule mag_decompose)
  have "mag_val (mag x) = of_int k * pow2 e" using mag_val_compose [of e k] e k c by (simp add: n)
  then have "fval x = of_int (if neg x then - k else k) * pow2 e" by (simp add: fval_def)
  then show thesis by (rule that) (use e k in auto)
qed

lemma ffloor_exact:
  assumes "isfinite x"
  shows "isfinite (ffloor x)" and "fval (ffloor x) = of_int \<lfloor>fval x\<rfloor>"
proof -
  obtain k e where x: "fval x = of_int k * pow2 e" and k: "\<bar>k\<bar> < 2 ^ 53" and e: "- 1074 \<le> e"
    by (rule finite_decompose)
  have "isfinite (ffloor x) \<and> fval (ffloor x) = of_int \<lfloor>fval x\<rfloor>"
  proof (cases "0 \<le> e")
    case True
    then have "fval x = of_int (k * 2 ^ nat e)" by (simp add: x pow2_def)
    then have fx: "of_int \<lfloor>fval x\<rfloor> = fval x" by (simp only: floor_of_int)
    have "ffloor x = x" using assms by (simp only: ffloor_def fx) simp
    with assms fx show ?thesis by argo
  next
    case False
    then have "pow2 e \<le> 1" using pow2_mono [of e 0] by (simp add: pow2_def [of 0])
    then have "\<bar>fval x\<bar> \<le> of_int \<bar>k\<bar>"
      by (simp add: x abs_mult mult_left_le)
    also have "\<dots> \<le> of_int (2 ^ 53)" using k by (simp only: of_int_le_iff)
    finally have "fval x \<le> of_int (2 ^ 53)" "of_int (- (2 ^ 53)) \<le> fval x" by (simp_all add: abs_le_iff)
    then have "\<lfloor>fval x\<rfloor> \<le> 2 ^ 53" "- (2 ^ 53) \<le> \<lfloor>fval x\<rfloor>"
      using floor_mono [of "fval x" "of_int (2 ^ 53)"] by (simp_all only: floor_of_int le_floor_iff)
    then have "\<bar>\<lfloor>fval x\<rfloor>\<bar> \<le> 2 ^ 53" by linarith
    then show ?thesis using assms fval_fl_int [of "\<lfloor>fval x\<rfloor>"]
      by (auto simp: ffloor_def fval_def [of x])
  qed
  then show "isfinite (ffloor x)" and "fval (ffloor x) = of_int \<lfloor>fval x\<rfloor>" by auto
qed

subsection \<open>Literals, sums and remainders\<close>

lemma dlit_int:
  assumes "\<bar>i\<bar> \<le> 2 ^ 53"
  shows "isfinite (dlit (of_int i))" "fval (dlit (of_int i)) = of_int i"
  using fval_fl_int [OF assms] by (simp_all add: dlit_def)

lemma dlit_small [simp]:
  "isfinite (dlit 0)" "fval (dlit 0) = 0" "isfinite (dlit 1)" "fval (dlit 1) = 1"
  "isfinite (dlit 2)" "fval (dlit 2) = 2"
  using dlit_int [of 0] dlit_int [of 1] dlit_int [of 2] by simp_all

lemma dlit_half [simp]: "isfinite (dlit (1 / 2))" "fval (dlit (1 / 2)) = 1 / 2"
proof -
  show f: "isfinite (dlit (1 / 2))"
    unfolding dlit_def by (rule isfinite_fl) (use pow2_mono [of 0 1023] in \<open>simp add: pow2_def [of 0]\<close>)
  show "fval (dlit (1 / 2)) = 1 / 2"
    using fval_fl_exact [of "1 / 2" 1 "- 1" False] f by (simp add: dlit_def pow2_def)
qed

lemma fadd_finite:
  "isfinite a \<Longrightarrow> isfinite b \<Longrightarrow> fadd a b = fl (neg a \<and> neg b) (fval a + fval b)"
  by (simp add: fadd_def isfinite_iff)

lemma fsub_finite:
  "isfinite a \<Longrightarrow> isfinite b \<Longrightarrow> fsub a b = fl (neg a \<and> \<not> neg b) (fval a - fval b)"
  by (simp add: fsub_def fadd_finite)

lemma fl_int_add:
  assumes "isfinite a" "isfinite b" "fval a + fval b = of_int i" "\<bar>i\<bar> \<le> 2 ^ 53"
  shows "isfinite (fadd a b)" "fval (fadd a b) = of_int i"
  using fval_fl_int [OF assms(4)] assms(1-3) by (simp_all add: fadd_finite)

lemma feq_fval: "isfinite a \<Longrightarrow> isfinite b \<Longrightarrow> feq a b \<longleftrightarrow> fval a = fval b"
  unfolding feq_def isfinite_iff fval_okey by (metis sval_less_iff less_irrefl not_less_iff_gr_or_eq)

lemma fval_mag0: "mag x = 0 \<Longrightarrow> fval x = 0"
  by (simp add: fval_def)

lemma fmod_two:
  assumes "isfinite x" "fval x = of_int i" "\<bar>i\<bar> \<le> 2 ^ 53"
  shows "feq (fmod x (dlit 2)) (dlit 0) \<longleftrightarrow> even i"
proof -
  have m2: "mag (dlit 2) \<noteq> 0" using fval_mag0 [of "dlit 2"] by auto
  define j where "j = i - trunc_rat (of_int i / 2) * 2"
  have "- 2 < j \<and> j < 2 \<and> (even j \<longleftrightarrow> even i)"
    unfolding j_def trunc_rat_def by (auto simp: floor_divide_of_int_eq [of _ 2, simplified]) linarith+
  then have j: "\<bar>j\<bar> \<le> 2 ^ 53" and j0: "j = 0 \<longleftrightarrow> even i"
    by (simp_all, linarith, presburger)
  have "fval x - of_int (trunc_rat (fval x / fval (dlit 2))) * fval (dlit 2) = of_int j"
    by (simp add: assms(2) j_def)
  then have "fmod x (dlit 2) = fl (neg x) (of_int j)"
    using assms(1) m2 dlit_small(5) by (simp add: fmod_def isfinite_iff)
  then show ?thesis using fval_fl_int [OF j] j0 by (simp add: feq_fval)
qed


lemma div_mod_rat:
  "0 < d \<Longrightarrow> of_int k * (1 / of_int d) - of_int (k div d) = (of_int (k mod d) * (1 / of_int d) :: rat)"
proof -
  assume d: "0 < d"
  have "of_int k = (of_int (k div d * d + k mod d) :: rat)" by (simp only: div_mult_mod_eq)
  also have "\<dots> = of_int (k div d) * of_int d + of_int (k mod d)" by (simp only: of_int_add of_int_mult)
  finally show ?thesis using d by (simp add: field_simps)
qed

lemma floor_abs_le: "\<bar>y :: rat\<bar> \<le> of_int n \<Longrightarrow> \<bar>\<lfloor>y\<rfloor>\<bar> \<le> n"
proof -
  assume "\<bar>y\<bar> \<le> of_int n"
  then have "y \<le> of_int n" "of_int (- n) \<le> y" by (simp_all add: abs_le_iff)
  then have "\<lfloor>y\<rfloor> \<le> n" "- n \<le> \<lfloor>y\<rfloor>"
    using floor_mono [of y "of_int n"] by (simp_all only: floor_of_int le_floor_iff)
  then show ?thesis by linarith
qed

lemma fraction_exact:
  assumes x: "isfinite x" "fval x = of_int k * pow2 e" "\<bar>k\<bar> < 2 ^ 53" "- 1074 \<le> e" "e < 0"
    and small: "k mod 2 ^ nat (- e) < 2 ^ 53"
  shows "isfinite (fsub x (ffloor x))" "fval (fsub x (ffloor x)) = fval x - of_int \<lfloor>fval x\<rfloor>"
proof -
  let ?d = "2 ^ nat (- e) :: int"
  have p: "pow2 e = 1 / of_int ?d" using x(5) by (simp add: pow2_def)
  have fl: "\<lfloor>fval x\<rfloor> = k div ?d" unfolding x(2) p
    using floor_divide_of_int_eq [of k ?d, where 'a = rat] by simp
  have f: "fval x - of_int \<lfloor>fval x\<rfloor> = of_int (k mod ?d) * pow2 e"
    unfolding fl unfolding x(2) p by (rule div_mod_rat) simp
  note l = ffloor_exact [OF x(1)]
  have "\<bar>fval x - of_int \<lfloor>fval x\<rfloor>\<bar> < pow2 1023"
  proof -
    have "\<bar>fval x - of_int \<lfloor>fval x\<rfloor>\<bar> < 1" by (simp add: abs_if) linarith
    also have "1 \<le> pow2 1023" using pow2_mono [of 0 1023] by (simp add: pow2_def [of 0])
    finally show ?thesis .
  qed
  then have g: "isfinite (fl s (fval x - of_int \<lfloor>fval x\<rfloor>))" for s by (rule isfinite_fl)
  have k: "\<bar>k mod ?d\<bar> \<le> 2 ^ 53" using small by simp
  show "isfinite (fsub x (ffloor x))" using g by (simp add: fsub_finite x(1) l)
  show "fval (fsub x (ffloor x)) = fval x - of_int \<lfloor>fval x\<rfloor>"
    using fval_fl_exact [OF f k x(4) g] by (simp add: fsub_finite x(1) l)
qed

lemma double_of_int_32:
  "isfinite (double_of_int (sint (v :: i32)))" "fval (double_of_int (sint v)) = of_int (sint v)"
proof -
  have "\<bar>sint v\<bar> \<le> 2 ^ 53"
    using sint_lt [of v] sint_ge [of v] by simp
  from fval_fl_int [OF this] show "isfinite (double_of_int (sint v))"
    "fval (double_of_int (sint v)) = of_int (sint v)" by (simp_all add: double_of_int_def)
qed

lemma trunc_rat_of_int [simp]: "trunc_rat (of_int i) = i"
  by (simp add: trunc_rat_def flip: of_int_minus)

lemma okey_finite_bounds: "isfinite x \<Longrightarrow> - inf_mag < okey x \<and> okey x < inf_mag"
  using mag_range(1) [of x] by (auto simp: okey_def isfinite_def)

lemma rne_near: "\<bar>y - of_int n\<bar> < 1 / 2 \<Longrightarrow> rne y = n"
  using rne_error [of y] by linarith

lemma fl_rel:
  assumes "pow2 (- 1022) \<le> \<bar>x\<bar>" "\<bar>x\<bar> < pow2 1023"
  shows "isfinite (fl s x)" "\<bar>fval (fl s x) - x\<bar> \<le> \<bar>x\<bar> * pow2 (- 53)"
  using isfinite_fl [OF assms(2)] fval_fl_error [OF assms(1)] by simp_all

lemma fl_abs_error:
  assumes "\<bar>x\<bar> < pow2 (53 + e)" "- 1074 \<le> e" "e \<le> 900"
  shows "isfinite (fl s x)" "\<bar>fval (fl s x) - x\<bar> \<le> pow2 e / 2"
proof -
  have "pow2 (53 + e) < pow2 1023" using assms(3) by simp
  with assms(1) have "\<bar>x\<bar> < pow2 1023" by (rule less_trans)
  then have f: "isfinite (fl s x)" by (rule isfinite_fl)
  then show "isfinite (fl s x)" .
  show "\<bar>fval (fl s x) - x\<bar> \<le> pow2 e / 2"
  proof (cases "x = 0")
    case True
    then show ?thesis using fval_fl_int(2) [of 0] by (simp add: less_imp_le)
  next
    case False
    then have x: "0 < \<bar>x\<bar>" by simp
    have "\<bar>mag_val (rnd_mag \<bar>x\<bar>) - \<bar>x\<bar>\<bar> \<le> pow2 (rexp \<bar>x\<bar>) / 2"
      using f by (intro rnd_mag_error [OF x]) (simp add: isfinite_def mag_fl)
    also have "\<dots> \<le> pow2 e / 2" using rexp_le [OF x assms(1,2)] by simp
    finally have "\<bar>mag_val (rnd_mag \<bar>x\<bar>) - \<bar>x\<bar>\<bar> \<le> pow2 e / 2" .
    moreover have "fval (fl s x) - x = (if x < 0 then -1 else 1) * (mag_val (rnd_mag \<bar>x\<bar>) - \<bar>x\<bar>)"
      using False by (auto simp: fval_def mag_fl neg_fl)
    ultimately show ?thesis by (simp only: abs_mult) (simp split: if_splits)
  qed
qed

end
