(* ===== verification/Binary_IO.thy ===== *)
theory Binary_IO
  imports Binary64
begin

text \<open>
  \<open>src/protocol/binary_writer.*\<close> and \<open>src/protocol/binary_reader.*\<close>. The writer is a byte
  buffer that only grows; the reader is a cursor over a borrowed range whose failure flag
  latches. Both are programs of the state monad, so that the serialisers read like the
  sources. The last section says what each primitive writer appends to the buffer
  (\<open>wire_defs\<close>).
\<close>

section \<open>BinaryWriter\<close>

definition push_back :: "u8 \<Rightarrow> (bytes, unit) state" where
  "push_back b = State (\<lambda>buffer. ((), buffer @ [b]))"

definition write_bytes :: "bytes \<Rightarrow> (bytes, unit) state" where
  "write_bytes data = State (\<lambda>buffer. ((), buffer @ data))"

definition write_u8 :: "u8 \<Rightarrow> (bytes, unit) state" where
  "write_u8 value = push_back value"

definition write_i8 :: "8 word \<Rightarrow> (bytes, unit) state" where
  "write_i8 value = push_back value"

definition write_u16 :: "u16 \<Rightarrow> (bytes, unit) state" where
  "write_u16 value = do {
     push_back (ucast (value AND 0xFF));
     push_back (ucast (drop_bit 8 value AND 0xFF)) }"

definition write_i16 :: "i16 \<Rightarrow> (bytes, unit) state" where
  "write_i16 value = write_u16 value"

definition write_u32 :: "u32 \<Rightarrow> (bytes, unit) state" where
  "write_u32 value = do {
     push_back (ucast (value AND 0xFF));
     push_back (ucast (drop_bit 8 value AND 0xFF));
     push_back (ucast (drop_bit 16 value AND 0xFF));
     push_back (ucast (drop_bit 24 value AND 0xFF)) }"

definition write_i32 :: "i32 \<Rightarrow> (bytes, unit) state" where
  "write_i32 value = write_u32 value"

definition kInt24Min :: i32 where
  "kInt24Min = - (push_bit 23 1)"

definition kInt24Max :: i32 where
  "kInt24Max = push_bit 23 1 - 1"

definition write_i24 :: "i32 \<Rightarrow> (bytes, unit) state" where
  "write_i24 value =
     (let clamped = value;
          clamped = (if sint clamped < sint kInt24Min then kInt24Min else clamped);
          clamped = (if sint kInt24Max < sint clamped then kInt24Max else clamped);
          unsigned_value = clamped AND 0xFFFFFF
      in do {
        push_back (ucast (unsigned_value AND 0xFF));
        push_back (ucast (drop_bit 8 unsigned_value AND 0xFF));
        push_back (ucast (drop_bit 16 unsigned_value AND 0xFF)) })"

text \<open>A counted loop over a list of values, the \<open>for\<close> of the sources.\<close>

primrec foreach :: "'a list \<Rightarrow> ('a \<Rightarrow> ('s, unit) state) \<Rightarrow> ('s, unit) state" where
  "foreach [] f = State_Monad.return ()"
| "foreach (x # xs) f = do { f x; foreach xs f }"

definition write_f64 :: "double \<Rightarrow> (bytes, unit) state" where
  "write_f64 value = foreach [0..<8] (\<lambda>i. push_back (ucast (drop_bit (8 * i) (bits_of value) AND 0xFF)))"

subsection \<open>UTF-8 truncation\<close>

definition is_continuation :: "char \<Rightarrow> bool" where
  "is_continuation c \<longleftrightarrow> byte_of_char c AND 0xC0 = 0x80"

text \<open>The loop of \<open>truncate_utf8_bytes\<close> that walks the cut back to a character boundary.\<close>

primrec walk_back :: "string \<Rightarrow> nat \<Rightarrow> nat" where
  "walk_back value 0 = 0"
| "walk_back value (Suc n) =
     (if is_continuation (value ! Suc n) then walk_back value n else Suc n)"

definition truncate_utf8_bytes :: "string \<Rightarrow> nat \<Rightarrow> string" where
  "truncate_utf8_bytes value max_bytes =
     (if length value \<le> max_bytes then value
      else take (walk_back value max_bytes) value)"

function truncate_loop :: "string \<Rightarrow> nat \<Rightarrow> nat \<Rightarrow> nat \<Rightarrow> string" where
  "truncate_loop value max_code_points code_points index =
     (if index < length value then
        if \<not> is_continuation (value ! index) then
          if code_points = max_code_points then take index value
          else truncate_loop value max_code_points (code_points + 1) (index + 1)
        else truncate_loop value max_code_points code_points (index + 1)
      else value)"
  by pat_completeness auto
termination
  by (relation "measure (\<lambda>(value, m, c, index). length value - index)") auto

definition truncate_utf8_code_points :: "string \<Rightarrow> nat \<Rightarrow> string" where
  "truncate_utf8_code_points value max_code_points = truncate_loop value max_code_points 0 0"

subsection \<open>Length-prefixed strings\<close>

definition write_string8 :: "string \<Rightarrow> (bytes, unit) state" where
  "write_string8 value =
     (let truncated = truncate_utf8_bytes value 255
      in do {
        push_back (word_of_nat (length truncated));
        write_bytes (str_bytes truncated) })"

definition write_string16 :: "string \<Rightarrow> (bytes, unit) state" where
  "write_string16 value =
     (let len = (if 65535 < length value then length (truncate_utf8_bytes value 65535)
                 else length value)
      in do {
        write_u16 (word_of_nat len);
        write_bytes (str_bytes (take len value)) })"

text \<open>Run a writer program on a fresh buffer and take the buffer.\<close>

definition take_buffer :: "(bytes, unit) state \<Rightarrow> bytes" where
  "take_buffer w = snd (run_state w [])"

definition clear_buffer :: "(bytes, unit) state" where
  "clear_buffer = State_Monad.set []"

section \<open>BinaryReader\<close>

record reader =
  r_data :: bytes
  r_size :: size_t
  r_offset :: size_t
  r_ok :: bool

definition mk_reader :: "bytes \<Rightarrow> reader" where
  "mk_reader data = \<lparr>r_data = data, r_size = word_of_nat (length data), r_offset = 0, r_ok = True\<rparr>"

definition require :: "size_t \<Rightarrow> (reader, bool) state" where
  "require count = do {
     r \<leftarrow> State_Monad.get;
     if \<not> r_ok r then State_Monad.return False
     else if r_size r < r_offset r + count \<or> r_offset r + count < r_offset r then do {
       State_Monad.set (r\<lparr>r_ok := False\<rparr>);
       State_Monad.return False }
     else State_Monad.return True }"

definition data_at :: "size_t \<Rightarrow> (reader, u8) state" where
  "data_at k = do { r \<leftarrow> State_Monad.get; State_Monad.return (r_data r ! unat (r_offset r + k)) }"

definition advance :: "size_t \<Rightarrow> (reader, unit) state" where
  "advance k = State_Monad.update (\<lambda>r. r\<lparr>r_offset := r_offset r + k\<rparr>)"

definition reader_ok :: "(reader, bool) state" where
  "reader_ok = do { r \<leftarrow> State_Monad.get; State_Monad.return (r_ok r) }"

definition read_u8 :: "(reader, u8) state" where
  "read_u8 = do {
     ok \<leftarrow> require 1;
     if \<not> ok then State_Monad.return 0
     else do { value \<leftarrow> data_at 0; advance 1; State_Monad.return value } }"

definition read_i8 :: "(reader, 8 word) state" where
  "read_i8 = read_u8"

definition read_u16 :: "(reader, u16) state" where
  "read_u16 = do {
     ok \<leftarrow> require 2;
     if \<not> ok then State_Monad.return 0
     else do {
       b0 \<leftarrow> data_at 0; b1 \<leftarrow> data_at 1;
       advance 2;
       State_Monad.return (ucast b0 OR push_bit 8 (ucast b1)) } }"

definition read_i16 :: "(reader, i16) state" where
  "read_i16 = read_u16"

definition read_u32 :: "(reader, u32) state" where
  "read_u32 = do {
     ok \<leftarrow> require 4;
     if \<not> ok then State_Monad.return 0
     else do {
       b0 \<leftarrow> data_at 0; b1 \<leftarrow> data_at 1; b2 \<leftarrow> data_at 2; b3 \<leftarrow> data_at 3;
       advance 4;
       State_Monad.return (ucast b0 OR push_bit 8 (ucast b1) OR push_bit 16 (ucast b2)
                           OR push_bit 24 (ucast b3)) } }"

definition read_i32 :: "(reader, i32) state" where
  "read_i32 = read_u32"

definition read_i24 :: "(reader, i32) state" where
  "read_i24 = do {
     ok \<leftarrow> require 3;
     if \<not> ok then State_Monad.return 0
     else do {
       b0 \<leftarrow> data_at 0; b1 \<leftarrow> data_at 1; b2 \<leftarrow> data_at 2;
       advance 3;
       let value = ucast b0 OR push_bit 8 (ucast b1) OR push_bit 16 (ucast b2);
       State_Monad.return (if value AND 0x800000 \<noteq> 0 then value OR 0xFF000000 else value) } }"

text \<open>The accumulation loop of \<open>read_f64\<close>.\<close>

fun gather_bits :: "nat list \<Rightarrow> u64 \<Rightarrow> (reader, u64) state" where
  "gather_bits [] bits = State_Monad.return bits"
| "gather_bits (i # is) bits = do {
     b \<leftarrow> data_at (word_of_nat i);
     gather_bits is (bits OR push_bit (8 * i) (ucast b)) }"

definition read_f64 :: "(reader, double) state" where
  "read_f64 = do {
     ok \<leftarrow> require 8;
     if \<not> ok then State_Monad.return (F64 0)
     else do {
       bits \<leftarrow> gather_bits [0..<8] 0;
       advance 8;
       State_Monad.return (F64 bits) } }"

text \<open>The bytes from the cursor on, \<open>count\<close> of them.\<close>

definition data_range :: "size_t \<Rightarrow> (reader, bytes) state" where
  "data_range count = do {
     r \<leftarrow> State_Monad.get;
     State_Monad.return (take (unat count) (drop (unat (r_offset r)) (r_data r))) }"

definition read_string8 :: "(reader, string) state" where
  "read_string8 = do {
     len \<leftarrow> read_u8;
     ok \<leftarrow> require (ucast len);
     if \<not> ok then State_Monad.return []
     else do {
       value \<leftarrow> data_range (ucast len);
       advance (ucast len);
       State_Monad.return (bytes_str value) } }"

definition read_string16 :: "(reader, string) state" where
  "read_string16 = do {
     len \<leftarrow> read_u16;
     ok \<leftarrow> require (ucast len);
     if \<not> ok then State_Monad.return []
     else do {
       value \<leftarrow> data_range (ucast len);
       advance (ucast len);
       State_Monad.return (bytes_str value) } }"

definition read_bytes :: "size_t \<Rightarrow> (reader, bytes) state" where
  "read_bytes count = do {
     ok \<leftarrow> require count;
     if \<not> ok then State_Monad.return []
     else do {
       value \<leftarrow> data_range count;
       advance count;
       State_Monad.return value } }"

definition skip :: "size_t \<Rightarrow> (reader, unit) state" where
  "skip count = do {
     ok \<leftarrow> require count;
     if ok then advance count else State_Monad.return () }"

definition remaining :: "reader \<Rightarrow> size_t" where
  "remaining r = (if r_ok r \<and> r_offset r \<le> r_size r then r_size r - r_offset r else 0)"

section \<open>Words and their bytes\<close>

lemma byte_trunc: "8 \<le> LENGTH('a::len) \<Longrightarrow> (ucast ((x :: 'a word) AND 0xFF) :: u8) = ucast x"
proof -
  assume l: "8 \<le> LENGTH('a)"
  have m: "(0xFF :: 'a word) = mask 8" by (simp add: mask_eq_exp_minus_1)
  show "(ucast (x AND 0xFF) :: u8) = ucast x" unfolding m
    using l by (intro bit_word_eqI) (auto simp: bit_simps)
qed

lemma join_u16: "(ucast (ucast v :: u8) OR push_bit 8 (ucast (ucast (drop_bit 8 v) :: u8)) :: u16) = v"
proof (rule bit_word_eqI)
  fix n assume n: "n < LENGTH(16)"
  consider "n < 8" | "8 \<le> n" by linarith
  then show "bit (ucast (ucast v :: u8) OR push_bit 8 (ucast (ucast (drop_bit 8 v) :: u8)) :: u16) n = bit v n"
   using n by cases (auto simp: bit_simps less_diff_conv2)
qed

lemma join_u32: "(ucast (ucast v :: u8) OR push_bit 8 (ucast (ucast (drop_bit 8 v) :: u8))
 OR push_bit 16 (ucast (ucast (drop_bit 16 v) :: u8)) OR push_bit 24 (ucast (ucast (drop_bit 24 v ) :: u8)) :: u32) = v"
 (is "?l = v")
proof (rule bit_word_eqI)
  fix n assume n: "n < LENGTH(32)"
  consider "n < 8" | "8 \<le> n" "n < 16" | "16 \<le> n" "n < 24" | "24 \<le> n" by linarith
  then show "bit ?l n = bit v n"
   using n by cases (auto simp: bit_simps less_diff_conv2)
qed

lemma join_u64: "(ucast (ucast v :: u8) OR push_bit 8 (ucast (ucast (drop_bit 8 v) :: u8))
 OR push_bit 16 (ucast (ucast (drop_bit 16 v) :: u8)) OR push_bit 24 (ucast (ucast (drop_bit 24 v ) :: u8))
 OR push_bit 32 (ucast (ucast (drop_bit 32 v) :: u8)) OR push_bit 40 (ucast (ucast (drop_bit 40 v ) :: u8))
 OR push_bit 48 (ucast (ucast (drop_bit 48 v) :: u8)) OR push_bit 56 (ucast (ucast (drop_bit 56 v ) :: u8)) :: u64) = v"
 (is "?l = v")
proof (rule bit_word_eqI)
  fix n assume n: "n < LENGTH(64)"
  consider "n < 8" | "8 \<le> n" "n < 16" | "16 \<le> n" "n < 24" | "24 \<le> n" "n < 32" | "32 \<le> n" "n < 40" | "40 \<le> n" "n < 48" | "48 \<le> n" "n < 56" | "56 \<le> n" by linarith
  then show "bit ?l n = bit v n"
   using n by cases (auto simp: bit_simps less_diff_conv2)
qed

lemma bit_FF000000: "bit (0xFF000000 :: u32) n \<longleftrightarrow> 24 \<le> n \<and> n < 32"
proof -
  have "(0xFF000000 :: u32) = push_bit 24 (mask 8)" by (simp add: mask_eq_exp_minus_1)
  then show ?thesis by (simp only: bit_simps) auto
qed

lemma bit_FFFFFF: "bit (0xFFFFFF :: u32) n \<longleftrightarrow> n < 24"
proof -
  have "(0xFFFFFF :: u32) = mask 24" by (simp add: mask_eq_exp_minus_1)
  then show ?thesis by (simp only: bit_simps) auto
qed

lemma and_800000: "((w :: u32) AND 0x800000 \<noteq> 0) = bit w 23"
proof -
  have "(0x800000 :: u32) = push_bit 23 1" by simp
  then show ?thesis by (simp only: and_exp_eq_0_iff_not_bit push_bit_of_1) simp
qed

lemma sign_extended: assumes "- (2 ^ 23) \<le> sint (v :: u32)" "sint v < 2 ^ 23" "n < 32" "23 \<le> n" shows "bit v n = bit v 23"
proof -
  have "sint v = signed_take_bit 23 (sint v)" using assms by (simp only: signed_take_bit_int_eq_self)
  then have "bit (sint v) n = bit (signed_take_bit 23 (sint v)) n" by simp
  also have "\<dots> = bit (sint v) 23" using assms(4) by (simp add: bit_signed_take_bit_iff min_absorb1)
  finally have "bit (sint v) n = bit (sint v) 23" .
  then show ?thesis using assms by (simp add: bit_sint_iff)
qed

lemma join_i24: assumes "- (2 ^ 23) \<le> sint (v :: u32)" "sint v < 2 ^ 23" 
  defines "u \<equiv> v AND 0xFFFFFF"
  defines "r \<equiv> (ucast (ucast u :: u8) OR push_bit 8 (ucast (ucast (drop_bit 8 u) :: u8)) OR push_bit 16 (ucast (ucast (drop_bit 16 u) :: u8)) :: u32)"
  shows "(if r AND 0x800000 \<noteq> 0 then r OR 0xFF000000 else r) = v"
proof -
  have r: "bit r n = (n < 24 \<and> bit v n)" if "n < 32" for n
  proof -
    consider "n < 8" | "8 \<le> n" "n < 16" | "16 \<le> n" "n < 24" | "24 \<le> n" by linarith
    then have "bit r n = (n < 24 \<and> bit u n)" using that by cases (auto simp: r_def bit_simps less_diff_conv2)
    then show ?thesis by (auto simp: u_def bit_and_iff bit_FFFFFF simp del: bit_numeral_word_iff)
  qed
  show ?thesis
  proof (rule bit_word_eqI)
    fix n assume "n < LENGTH(32)"
    then have n: "n < 32" by simp
    have s: "bit v n = bit v 23" if "24 \<le> n" using sign_extended [OF assms(1,2) n] that by simp
    show "bit (if r AND 0x800000 \<noteq> 0 then r OR 0xFF000000 else r) n = bit v n"
      unfolding and_800000 using n r [of 23] r [of n] s by (cases "24 \<le> n") (auto simp: bit_or_iff bit_FF000000 simp del: bit_numeral_word_iff)
  qed
qed

section \<open>What the writers append\<close>

definition enc_u16 :: "u16 \<Rightarrow> bytes" where
  "enc_u16 v = [ucast v, ucast (drop_bit 8 v)]"

definition enc_u32 :: "u32 \<Rightarrow> bytes" where
  "enc_u32 v = [ucast v, ucast (drop_bit 8 v), ucast (drop_bit 16 v), ucast (drop_bit 24 v)]"

definition clamp_i24 :: "i32 \<Rightarrow> i32" where
  "clamp_i24 v = (if sint v < - (2 ^ 23) then kInt24Min else if 2 ^ 23 \<le> sint v then kInt24Max else v)"

definition enc_i24 :: "i32 \<Rightarrow> bytes" where
  "enc_i24 v = (let u = clamp_i24 v AND 0xFFFFFF in [ucast u, ucast (drop_bit 8 u), ucast (drop_bit 16 u)])"

definition enc_f64 :: "double \<Rightarrow> bytes" where
  "enc_f64 x = map (\<lambda>i. ucast (drop_bit (8 * i) (bits_of x))) [0..<8]"

definition enc_string8 :: "string \<Rightarrow> bytes" where
  "enc_string8 s = word_of_nat (length s) # str_bytes s"

definition enc_string16 :: "string \<Rightarrow> bytes" where
  "enc_string16 s = enc_u16 (word_of_nat (length s)) @ str_bytes s"

text \<open>The part of a string that \<open>write_string16\<close> sends.\<close>

definition string16_sent :: "string \<Rightarrow> string" where
  "string16_sent s = (if 65535 < length s then truncate_utf8_bytes s 65535 else s)"

lemma run_push_back [simp]: "run_state (push_back b) buf = ((), buf @ [b])"
  by (simp add: push_back_def)

lemma run_write_bytes [simp]: "run_state (write_bytes bs) buf = ((), buf @ bs)"
  by (simp add: write_bytes_def)

lemma write_bytes_seq [simp]:
  "State_Monad.bind (write_bytes a) (\<lambda>_. write_bytes b) = write_bytes (a @ b)"
  "State_Monad.bind (write_bytes a) (\<lambda>_. State_Monad.bind (write_bytes b) f) =
     State_Monad.bind (write_bytes (a @ b)) f"
  "State_Monad.bind (write_bytes a) (\<lambda>_. State_Monad.return ()) = write_bytes a"
  by (auto intro!: state_ext)

lemma take_buffer_write_bytes [simp]: "take_buffer (write_bytes bs) = bs"
  by (simp add: take_buffer_def)

lemma push_back_bytes [wire_defs]: "push_back b = write_bytes [b]"
  by (simp add: push_back_def write_bytes_def)

lemma write_u8_bytes [wire_defs]: "write_u8 b = write_bytes [b]"
  by (simp add: write_u8_def push_back_bytes)

lemma write_u16_bytes [wire_defs]: "write_u16 v = write_bytes (enc_u16 v)"
  by (simp add: write_u16_def push_back_bytes enc_u16_def byte_trunc)

lemma write_i16_bytes [wire_defs]: "write_i16 v = write_bytes (enc_u16 v)"
  by (simp add: write_i16_def write_u16_bytes)

lemma write_u32_bytes [wire_defs]: "write_u32 v = write_bytes (enc_u32 v)"
  by (simp add: write_u32_def push_back_bytes enc_u32_def byte_trunc)

lemma sint_kInt24 [simp]: "sint kInt24Min = - (2 ^ 23)" "sint kInt24Max = 2 ^ 23 - 1"
  by (simp_all add: kInt24Min_def kInt24Max_def push_bit_eq_mult)

lemma write_i24_bytes [wire_defs]: "write_i24 v = write_bytes (enc_i24 v)"
  by (simp add: write_i24_def push_back_bytes enc_i24_def clamp_i24_def Let_def byte_trunc)

lemma foreach_push_back: "foreach xs (\<lambda>x. push_back (f x)) = write_bytes (map f xs)"
  by (induction xs) (auto simp: push_back_bytes intro!: state_ext)

lemma write_f64_bytes [wire_defs]: "write_f64 x = write_bytes (enc_f64 x)"
  by (simp add: write_f64_def foreach_push_back enc_f64_def byte_trunc)

lemma write_string8_bytes [wire_defs]:
  "write_string8 s = write_bytes (enc_string8 (truncate_utf8_bytes s 255))"
  by (simp add: write_string8_def push_back_bytes enc_string8_def Let_def)

lemma walk_back_le: "walk_back s n \<le> n"
  by (induction n) (auto intro: le_SucI)

lemma truncate_utf8_bytes_take: "truncate_utf8_bytes s n = take (length (truncate_utf8_bytes s n)) s"
  using walk_back_le [of s n] by (simp add: truncate_utf8_bytes_def)

lemma length_truncate_utf8_bytes: "length (truncate_utf8_bytes s n) \<le> n"
  using walk_back_le [of s n] by (simp add: truncate_utf8_bytes_def)

lemma truncate_utf8_bytes_short [simp]: "length s \<le> n \<Longrightarrow> truncate_utf8_bytes s n = s"
  by (simp add: truncate_utf8_bytes_def)

lemma write_string16_bytes [wire_defs]: "write_string16 s = write_bytes (enc_string16 (string16_sent s))"
  using truncate_utf8_bytes_take [of s 65535]
  by (simp add: write_string16_def write_u16_bytes enc_string16_def string16_sent_def Let_def)

lemma length_string16_sent: "length (string16_sent s) \<le> 65535"
  using length_truncate_utf8_bytes [of s 65535] by (simp add: string16_sent_def)

lemma string16_sent_short [simp]: "length s \<le> 65535 \<Longrightarrow> string16_sent s = s"
  by (simp add: string16_sent_def)

lemma length_enc [simp]:
  "length (enc_u16 v) = 2" "length (enc_u32 w) = 4" "length (enc_i24 w) = 3" "length (enc_f64 x) = 8"
  "length (enc_string8 s) = 1 + length s" "length (enc_string16 s) = 2 + length s"
  by (simp_all add: enc_u16_def enc_u32_def enc_i24_def enc_f64_def enc_string8_def enc_string16_def Let_def)

end
