(* ===== verification/Wire_Calculus.thy ===== *)
theory Wire_Calculus
  imports Binary_IO
begin

text \<open>
  The proof library of the message codecs, over the reader programs of \<open>Binary_IO\<close>.

  \<^item> \<open>rwf\<close> is the invariant of a reader: the cursor lies inside the range.
  \<^item> \<open>decodes m bs v\<close>: from any well-formed position where \<open>bs\<close> lies ahead, the program \<open>m\<close>
    returns \<open>v\<close> and advances over exactly \<open>bs\<close>.
  \<^item> \<open>stable m\<close>: \<open>m\<close> keeps the invariant, never clears a latched failure, and what it does
    without failing is not changed by bytes appended to the range. A program that decodes
    \<open>bs\<close> and is stable fails on every proper prefix of \<open>bs\<close> (\<open>stable_prefix_fails\<close>).
  \<^item> \<open>record_codec\<close> is the interface between a count-prefixed sequence and its elements: what
    one element's writer and reader promise each other; the sequence's round trip is proved
    once from it and interpreted for every element type of the protocol.
\<close>

section \<open>Well-formed readers\<close>

definition rwf :: "reader \<Rightarrow> bool" where
  "rwf r \<longleftrightarrow> length (r_data r) < 2 ^ 64 \<and> r_size r = word_of_nat (length (r_data r)) \<and>
     r_offset r \<le> r_size r"

definition rest :: "reader \<Rightarrow> bytes" where
  "rest r = drop (unat (r_offset r)) (r_data r)"

definition adv :: "nat \<Rightarrow> reader \<Rightarrow> reader" where
  "adv n r = r\<lparr>r_offset := r_offset r + word_of_nat n\<rparr>"

definition decodes :: "(reader, 'a) state \<Rightarrow> bytes \<Rightarrow> 'a \<Rightarrow> bool" where
  "decodes m bs v \<longleftrightarrow> (\<forall>r t. rwf r \<longrightarrow> r_ok r \<longrightarrow> rest r = bs @ t \<longrightarrow>
     run_state m r = (v, adv (length bs) r))"

definition extend :: "bytes \<Rightarrow> reader \<Rightarrow> reader" where
  "extend e r = r\<lparr>r_data := r_data r @ e, r_size := word_of_nat (length (r_data r @ e))\<rparr>"

definition stable :: "(reader, 'a) state \<Rightarrow> bool" where
  "stable m \<longleftrightarrow> (\<forall>r. rwf r \<longrightarrow>
     rwf (snd (run_state m r)) \<and> r_data (snd (run_state m r)) = r_data r \<and>
     (r_ok (snd (run_state m r)) \<longrightarrow> r_ok r \<and>
       (\<forall>e. length (r_data r @ e) < 2 ^ 64 \<longrightarrow>
          run_state m (extend e r) =
            (fst (run_state m r), extend e (snd (run_state m r))))))"

lemma unat_size: "rwf r \<Longrightarrow> unat (r_size r) = length (r_data r)"
  by (simp add: rwf_def unat_word_of_nat)

lemma unat_offset_le: "rwf r \<Longrightarrow> unat (r_offset r) \<le> length (r_data r)"
  unfolding rwf_def word_le_nat_alt by (auto simp: unat_word_of_nat)

lemma length_rest: "rwf r \<Longrightarrow> length (rest r) = length (r_data r) - unat (r_offset r)"
  by (simp add: rest_def)

lemma rwf_mk_reader [simp]: "length d < 2 ^ 64 \<Longrightarrow> rwf (mk_reader d)"
  by (simp add: rwf_def mk_reader_def)

lemma mk_reader_sel [simp]:
  "r_ok (mk_reader d)" "r_data (mk_reader d) = d" "rest (mk_reader d) = d"
  by (simp_all add: mk_reader_def rest_def)

text \<open>
  The guard of every read. The 64 bit sum of cursor and count may wrap; the second disjunct
  of the test catches exactly that, so the guard decides the unbounded comparison.
\<close>

lemma require_guard:
  assumes "rwf r"
  shows "(r_size r < r_offset r + n \<or> r_offset r + n < r_offset r) \<longleftrightarrow> length (rest r) < unat n"
proof -
  let ?o = "unat (r_offset r)" and ?l = "length (r_data r)"
  have o: "?o \<le> ?l" "?l < 2 ^ 64" using unat_offset_le [OF assms] assms by (simp_all add: rwf_def)
  have n: "unat n < 2 ^ 64" using unsigned_less [of n] by simp
  have sum: "unat (r_offset r + n) = (?o + unat n) mod 2 ^ 64" by (simp add: unat_word_ariths)
  show ?thesis
  proof (cases "?o + unat n < 2 ^ 64")
    case True
    then have "unat (r_offset r + n) = ?o + unat n" by (simp add: sum)
    then show ?thesis using o by (auto simp: word_less_nat_alt unat_size assms length_rest)
  next
    case False
    then have "unat (r_offset r + n) = ?o + unat n - 2 ^ 64"
      using o n by (simp add: sum mod_if)
    then have "unat (r_offset r + n) < ?o" using n False by linarith
    then show ?thesis using o False by (auto simp: word_less_nat_alt length_rest assms)
  qed
qed

lemma run_require:
  assumes "rwf r"
  shows "run_state (require n) r =
    (if r_ok r \<and> unat n \<le> length (rest r) then (True, r) else (False, r\<lparr>r_ok := False\<rparr>))"
  using require_guard [OF assms, of n]
  by (cases "r_ok r") (auto simp: require_def not_le)

lemma unat_offset_add:
  assumes "rwf r" "unat n \<le> length (rest r)"
  shows "unat (r_offset r + n) = unat (r_offset r) + unat n"
proof -
  have "unat (r_offset r) + unat n < 2 ^ 64"
    using assms unat_offset_le [OF assms(1)] length_rest [OF assms(1)] by (auto simp: rwf_def)
  then show ?thesis by (simp add: unat_word_ariths)
qed

lemma run_data_at:
  assumes "rwf r" "unat k < length (rest r)"
  shows "run_state (data_at k) r = (rest r ! unat k, r)"
  using assms unat_offset_add [of r k] by (simp add: data_at_def rest_def)

lemma run_data_at_le:
  "rwf r \<Longrightarrow> Suc (unat k) \<le> length (rest r) \<Longrightarrow> run_state (data_at k) r = (rest r ! unat k, r)"
  by (simp add: run_data_at)

lemma run_advance [simp]: "run_state (advance k) r = ((), r\<lparr>r_offset := r_offset r + k\<rparr>)"
  by (simp add: advance_def State_Monad.update_def)

lemma run_reader_ok [simp]: "run_state reader_ok r = (r_ok r, r)"
  by (simp add: reader_ok_def)

section \<open>The decoding calculus\<close>

lemma adv_sel [simp]:
  "r_ok (adv n r) = r_ok r" "r_data (adv n r) = r_data r" "r_size (adv n r) = r_size r"
  by (simp_all add: adv_def)

lemma adv_0 [simp]: "adv 0 r = r"
  by (simp add: adv_def)

lemma adv_adv: "adv n (adv m r) = adv (m + n) r"
  by (simp add: adv_def add.assoc)

lemma adv_rest:
  assumes "rwf r" "n \<le> length (rest r)"
  shows "rwf (adv n r)" and "rest (adv n r) = drop n (rest r)"
proof -
  have l: "n \<le> length (r_data r)" using assms(2) by (simp add: rest_def)
  then have n: "unat (word_of_nat n :: size_t) = n"
    using assms(1) by (simp add: rwf_def unat_word_of_nat)
  then have o: "unat (r_offset (adv n r)) = unat (r_offset r) + n"
    using unat_offset_add [OF assms(1), of "word_of_nat n"] assms(2) by (simp add: adv_def)
  show "rest (adv n r) = drop n (rest r)" by (simp add: rest_def o add.commute)
  show "rwf (adv n r)" using assms o unat_offset_le [OF assms(1)] unat_size [OF assms(1)]
    by (auto simp: rwf_def word_le_nat_alt rest_def)
qed

lemma decodesI:
  "(\<And>r t. rwf r \<Longrightarrow> r_ok r \<Longrightarrow> rest r = bs @ t \<Longrightarrow> run_state m r = (v, adv (length bs) r)) \<Longrightarrow>
     decodes m bs v"
  by (simp add: decodes_def)

lemma decodes_return [decodes_intros]: "decodes (State_Monad.return v) [] v"
  by (simp add: decodes_def)

lemma decodes_bind:
  assumes "decodes m bs v" "decodes (f v) cs w"
  shows "decodes (State_Monad.bind m f) (bs @ cs) w"
proof (rule decodesI)
  fix r t assume r: "rwf r" "r_ok r" "rest r = (bs @ cs) @ t"
  then have m: "run_state m r = (v, adv (length bs) r)"
    using assms(1) by (simp add: decodes_def)
  have "rwf (adv (length bs) r)" "rest (adv (length bs) r) = cs @ t"
    using adv_rest [OF r(1), of "length bs"] r(3) by simp_all
  then have "run_state (f v) (adv (length bs) r) = (w, adv (length cs) (adv (length bs) r))"
    using assms(2) r(2) by (simp add: decodes_def)
  then show "run_state (State_Monad.bind m f) r = (w, adv (length (bs @ cs)) r)"
    by (simp add: m adv_adv)
qed

lemma decodes_bind_ok:
  "decodes (f True) cs w \<Longrightarrow> decodes (State_Monad.bind reader_ok f) cs w"
  by (simp add: decodes_def)

lemma run_read_u8:
  assumes "rwf r" "r_ok r" "rest r = b # t"
  shows "run_state read_u8 r = (b, adv 1 r)"
  using assms by (simp add: read_u8_def run_require run_data_at adv_def)

lemma decodes_u8 [decodes_intros]: "decodes read_u8 [b] b"
  by (rule decodesI) (simp add: run_read_u8)

lemma decodes_u16 [decodes_intros]: "decodes read_u16 (enc_u16 v) v"
  by (rule decodesI)
    (simp add: read_u16_def run_require run_data_at enc_u16_def adv_def join_u16)

lemma decodes_i16 [decodes_intros]: "decodes read_i16 (enc_u16 v) v"
  unfolding read_i16_def by (rule decodes_u16)

lemma decodes_u32 [decodes_intros]: "decodes read_u32 (enc_u32 v) v"
  by (rule decodesI)
    (simp add: read_u32_def run_require run_data_at enc_u32_def adv_def join_u32)

lemma clamp_i24_range: "- (2 ^ 23) \<le> sint (clamp_i24 v)" "sint (clamp_i24 v) < 2 ^ 23"
  by (simp_all add: clamp_i24_def)

lemma decodes_i24 [decodes_intros]: "decodes read_i24 (enc_i24 v) (clamp_i24 v)"
proof -
  define u where "u = clamp_i24 v AND 0xFFFFFF"
  have e: "enc_i24 v = [ucast u, ucast (drop_bit 8 u), ucast (drop_bit 16 u)]"
    by (simp only: enc_i24_def u_def Let_def)
  show ?thesis
    unfolding e using join_i24 [OF clamp_i24_range, of v, folded u_def]
    by (intro decodesI) (simp add: read_i24_def run_require run_data_at adv_def Let_def)
qed

lemma decodes_f64 [decodes_intros]: "decodes read_f64 (enc_f64 x) x"
proof (rule decodesI)
  fix r t assume r: "rwf r" "r_ok r" "rest r = enc_f64 x @ t"
  have e: "enc_f64 x = [ucast (bits_of x), ucast (drop_bit 8 (bits_of x)), ucast (drop_bit 16 (bits_of x)),
     ucast (drop_bit 24 (bits_of x)), ucast (drop_bit 32 (bits_of x)), ucast (drop_bit 40 (bits_of x)),
     ucast (drop_bit 48 (bits_of x)), ucast (drop_bit 56 (bits_of x))]"
    by (simp add: enc_f64_def upt_rec)
  have "run_state (gather_bits [0..<8] 0) r = (bits_of x, r)"
    using r join_u64 [of "bits_of x"] by (simp add: upt_rec run_data_at e or.assoc)
  then show "run_state read_f64 r = (x, adv (length (enc_f64 x)) r)"
    using r by (simp add: read_f64_def run_require adv_def)
qed

lemma run_read_prefixed:
  assumes "rwf r" "r_ok r" "rest r = str_bytes s @ t" "unat n = length s"
  shows "run_state (do {
      ok \<leftarrow> require n;
      if \<not> ok then State_Monad.return []
      else do {
        value \<leftarrow> data_range n;
        advance n;
        State_Monad.return (bytes_str value) } }) r = (s, adv (length s) r)"
proof -
  have n: "n = word_of_nat (length s)" by (simp flip: assms(4))
  have "run_state (data_range n) r = (str_bytes s, r)"
    using assms(3,4) by (simp add: data_range_def rest_def)
  then show ?thesis
    using assms by (simp add: run_require adv_def n)
qed

lemma decodes_string8 [decodes_intros]: "length s \<le> 255 \<Longrightarrow> decodes read_string8 (enc_string8 s) s"
proof (rule decodesI)
  fix r t assume l: "length s \<le> 255" and r: "rwf r" "r_ok r" "rest r = enc_string8 s @ t"
  let ?n = "word_of_nat (length s) :: u8"
  have r8: "run_state read_u8 r = (?n, adv 1 r)" using r by (simp add: run_read_u8 enc_string8_def)
  have a: "rwf (adv 1 r)" "rest (adv 1 r) = str_bytes s @ t"
    using adv_rest [OF r(1), of 1] r(3) by (simp_all add: enc_string8_def)
  have "unat (ucast ?n :: size_t) = length s"
    using l by (simp add: unat_word_of_nat unat_ucast_up)
  from run_read_prefixed [OF a(1) _ a(2) this] r(2)
  show "run_state read_string8 r = (s, adv (length (enc_string8 s)) r)"
    by (simp add: read_string8_def r8 adv_adv)
qed

lemma decodes_string16 [decodes_intros]:
  "length s \<le> 65535 \<Longrightarrow> decodes read_string16 (enc_string16 s) s"
proof (rule decodesI)
  fix r t assume l: "length s \<le> 65535" and r: "rwf r" "r_ok r" "rest r = enc_string16 s @ t"
  let ?n = "word_of_nat (length s) :: u16"
  have r16: "run_state read_u16 r = (?n, adv 2 r)"
    using r decodes_u16 [of ?n] by (simp add: enc_string16_def decodes_def)
  have a: "rwf (adv 2 r)" "rest (adv 2 r) = str_bytes s @ t"
    using adv_rest [OF r(1), of 2] r(3) by (simp_all add: enc_string16_def)
  have "unat (ucast ?n :: size_t) = length s"
    using l by (simp add: unat_word_of_nat unat_ucast_up)
  from run_read_prefixed [OF a(1) _ a(2) this] r(2)
  show "run_state read_string16 r = (s, adv (length (enc_string16 s)) r)"
    by (simp add: read_string16_def r16 adv_adv)
qed

section \<open>The calculus of stable readers\<close>

lemma extend_sel [simp]:
  "r_ok (extend e r) = r_ok r" "r_offset (extend e r) = r_offset r" "r_data (extend e r) = r_data r @ e"
  by (simp_all add: extend_def)

lemma rwf_extend:
  assumes "rwf r" "length (r_data r @ e) < 2 ^ 64"
  shows "rwf (extend e r)" and "rest (extend e r) = rest r @ e"
proof -
  have "unat (r_offset r) \<le> length (r_data r)" using assms(1) by (rule unat_offset_le)
  then show "rest (extend e r) = rest r @ e" by (simp add: rest_def)
  have "unat (word_of_nat (length (r_data r @ e)) :: size_t) = length (r_data r @ e)"
    using assms(2) by (intro unat_word_of_nat) simp
  then have "r_offset r \<le> word_of_nat (length (r_data r @ e))"
    using unat_offset_le [OF assms(1)] unfolding word_le_nat_alt by (simp del: of_nat_add)
  then show "rwf (extend e r)"
    using assms(2) unfolding rwf_def extend_def by simp
qed

lemma stableI:
  assumes "\<And>r. rwf r \<Longrightarrow> rwf (snd (run_state m r))"
    and "\<And>r. rwf r \<Longrightarrow> r_data (snd (run_state m r)) = r_data r"
    and "\<And>r. rwf r \<Longrightarrow> r_ok (snd (run_state m r)) \<Longrightarrow> r_ok r"
    and "\<And>r e. rwf r \<Longrightarrow> r_ok r \<Longrightarrow> r_ok (snd (run_state m r)) \<Longrightarrow> length (r_data r @ e) < 2 ^ 64 \<Longrightarrow>
      run_state m (extend e r) = (fst (run_state m r), extend e (snd (run_state m r)))"
  shows "stable m"
  using assms unfolding stable_def by blast

lemma stableD:
  assumes "stable m" "rwf r"
  shows "rwf (snd (run_state m r))" "r_data (snd (run_state m r)) = r_data r"
    and "r_ok (snd (run_state m r)) \<Longrightarrow> r_ok r"
    and "r_ok (snd (run_state m r)) \<Longrightarrow> length (r_data r @ e) < 2 ^ 64 \<Longrightarrow>
      run_state m (extend e r) = (fst (run_state m r), extend e (snd (run_state m r)))"
  using assms unfolding stable_def by blast+

lemma stable_return [stable_intros]: "stable (State_Monad.return v)"
  by (rule stableI) simp_all

lemma stable_reader_ok [stable_intros]: "stable reader_ok"
  by (rule stableI) simp_all

lemma stable_bind [stable_intros]:
  assumes m: "stable m" and f: "\<And>v. stable (f v)"
  shows "stable (State_Monad.bind m f)"
proof -
  have run: "run_state (State_Monad.bind m f) r = run_state (f (fst (run_state m r))) (snd (run_state m r))" for r
    by (simp add: case_prod_unfold)
  note d = stableD [OF m] stableD [OF f]
  show ?thesis
  proof (rule stableI)
    fix r e assume r: "rwf r" "length (r_data r @ e) < 2 ^ 64" "r_ok (snd (run_state (State_Monad.bind m f) r))"
    let ?v = "fst (run_state m r)" and ?s = "snd (run_state m r)"
    have s: "rwf ?s" "r_data ?s = r_data r" using d(1,2) r(1) by simp_all
    have "r_ok ?s" using d(7) [OF s(1)] r(3) by (simp only: run)
    with d(4) [OF r(1) _ r(2)] have 1: "run_state m (extend e r) = (?v, extend e ?s)" by simp
    have 2: "run_state (f ?v) (extend e ?s) =
        (fst (run_state (f ?v) ?s), extend e (snd (run_state (f ?v) ?s)))"
      using d(8) [OF s(1), of ?v e] r(2,3) s(2) by (simp only: run)
    show "run_state (State_Monad.bind m f) (extend e r) =
      (fst (run_state (State_Monad.bind m f) r), extend e (snd (run_state (State_Monad.bind m f) r)))"
      by (simp only: run 1 2 fst_conv snd_conv)
  next
    fix r assume r: "rwf r"
    note s = d(1) [OF r]
    show "rwf (snd (run_state (State_Monad.bind m f) r))"
      unfolding run by (rule d(5) [OF s])
    show "r_data (snd (run_state (State_Monad.bind m f) r)) = r_data r"
      unfolding run d(6) [OF s] by (rule d(2) [OF r])
    show "r_ok (snd (run_state (State_Monad.bind m f) r)) \<Longrightarrow> r_ok r"
      unfolding run using d(7) [OF s] d(3) [OF r] by blast
  qed
qed

lemma stable_if [stable_intros]: "stable a \<Longrightarrow> stable b \<Longrightarrow> stable (if c then a else b)"
  by simp

lemma stable_Let [stable_intros]: "(\<And>x. stable (f x)) \<Longrightarrow> stable (Let v f)"
  by (simp add: Let_def)

lemma stable_case_option [stable_intros]:
  "stable a \<Longrightarrow> (\<And>x. stable (b x)) \<Longrightarrow> stable (case v of None \<Rightarrow> a | Some x \<Rightarrow> b x)"
  by (cases v) simp_all

text \<open>Every primitive read is a guard followed by reads at the cursor and an advance.\<close>

lemma stable_guarded:
  assumes run: "\<And>r. rwf r \<Longrightarrow> r_ok r \<Longrightarrow> unat n \<le> length (rest r) \<Longrightarrow>
      run_state m r = (g (take (unat n) (rest r)), adv (unat n) r)"
  shows "stable (do { ok \<leftarrow> require n; if \<not> ok then State_Monad.return z else m })" (is "stable ?p")
proof -
  have p: "run_state ?p r =
      (if r_ok r \<and> unat n \<le> length (rest r) then (g (take (unat n) (rest r)), adv (unat n) r)
       else (z, r\<lparr>r_ok := False\<rparr>))" if "rwf r" for r
    using that run [OF that] by (auto simp: run_require)
  show ?thesis
  proof (rule stableI)
    fix r assume r: "rwf r"
    show "rwf (snd (run_state ?p r))"
      unfolding p [OF r] using r adv_rest(1) [OF r] by (auto simp: rwf_def)
    show "r_data (snd (run_state ?p r)) = r_data r"
      unfolding p [OF r] by auto
    show "r_ok (snd (run_state ?p r)) \<Longrightarrow> r_ok r"
      unfolding p [OF r] by (auto split: if_splits)
  next
    fix r e assume r: "rwf r" "r_ok r" "r_ok (snd (run_state ?p r))" "length (r_data r @ e) < 2 ^ 64"
    have n: "unat n \<le> length (rest r)"
      using r(3) unfolding p [OF r(1)] by (auto split: if_splits)
    have x: "rwf (extend e r)" "rest (extend e r) = rest r @ e" using rwf_extend [OF r(1,4)] .
    have "extend e (adv (unat n) r) = adv (unat n) (extend e r)" by (simp add: extend_def adv_def)
    then show "run_state ?p (extend e r) = (fst (run_state ?p r), extend e (snd (run_state ?p r)))"
      unfolding p [OF r(1)] p [OF x(1)] using r(2) n x(2) by simp
  qed
qed

lemma stable_read_u8 [stable_intros]: "stable read_u8"
  unfolding read_u8_def
  by (rule stable_guarded [where g = "\<lambda>b. b ! 0"]) (simp add: run_data_at_le adv_def)

lemma stable_read_u16 [stable_intros]: "stable read_u16"
  unfolding read_u16_def
  by (rule stable_guarded [where g = "\<lambda>b. ucast (b ! 0) OR push_bit 8 (ucast (b ! 1))"])
    (simp add: run_data_at_le adv_def)

lemma stable_read_i16 [stable_intros]: "stable read_i16"
  unfolding read_i16_def by (rule stable_read_u16)

lemma stable_read_u32 [stable_intros]: "stable read_u32"
  unfolding read_u32_def
  by (rule stable_guarded [where g = "\<lambda>b. ucast (b ! 0) OR push_bit 8 (ucast (b ! 1)) OR
        push_bit 16 (ucast (b ! 2)) OR push_bit 24 (ucast (b ! 3))"])
    (simp add: run_data_at_le adv_def)

lemma stable_read_i24 [stable_intros]: "stable read_i24"
  unfolding read_i24_def
  by (rule stable_guarded [where g = "\<lambda>b.
        let value = ucast (b ! 0) OR push_bit 8 (ucast (b ! 1)) OR push_bit 16 (ucast (b ! 2))
        in if value AND 0x800000 \<noteq> 0 then value OR 0xFF000000 else value"])
    (simp add: run_data_at_le adv_def Let_def)

lemma stable_read_f64 [stable_intros]: "stable read_f64"
  unfolding read_f64_def
  by (rule stable_guarded [where g = "\<lambda>b. F64 (fold (\<lambda>i bits. bits OR push_bit (8 * i) (ucast (b ! i)))
        [0, 1, 2, 3, 4, 5, 6, 7] 0)"])
    (simp add: run_data_at_le adv_def upt_rec)

lemma run_data_range:
  assumes "unat n \<le> length (rest r)"
  shows "run_state (data_range n) r = (take (unat n) (rest r), r)"
  using assms by (simp add: data_range_def rest_def)

lemma stable_range [stable_intros]:
  "stable (do {
     ok \<leftarrow> require n;
     if \<not> ok then State_Monad.return z
     else do { value \<leftarrow> data_range n; advance n; State_Monad.return (f value) } })"
  by (rule stable_guarded [where g = f]) (simp add: run_data_range adv_def)

lemma stable_read_string8 [stable_intros]: "stable read_string8"
  unfolding read_string8_def by (intro stable_intros)

lemma stable_read_string16 [stable_intros]: "stable read_string16"
  unfolding read_string16_def by (intro stable_intros)

lemma stable_read_bytes [stable_intros]: "stable (read_bytes n)"
  unfolding read_bytes_def by (intro stable_intros)

lemma stable_prefix_fails:
  assumes "stable m" "decodes m (p @ e) v" "e \<noteq> []" "length (p @ e) < 2 ^ 64"
  shows "\<not> r_ok (snd (run_state m (mk_reader p)))"
proof
  let ?s = "snd (run_state m (mk_reader p))"
  assume ok: "r_ok ?s"
  have p: "rwf (mk_reader p)" using assms(4) by simp
  have x: "extend e (mk_reader p) = mk_reader (p @ e)" by (simp add: extend_def mk_reader_def)
  have "run_state m (extend e (mk_reader p)) = (v, adv (length (p @ e)) (mk_reader (p @ e)))"
    unfolding x using assms(2,4) unfolding decodes_def by simp
  with stableD(4) [OF assms(1) p ok] assms(4)
  have "extend e ?s = adv (length (p @ e)) (mk_reader (p @ e))" by simp
  then have "r_offset ?s = r_offset (adv (length (p @ e)) (mk_reader (p @ e)))"
    by (metis extend_sel(2))
  then have "r_offset ?s = word_of_nat (length (p @ e))" by (simp add: adv_def mk_reader_def)
  then have "unat (r_offset ?s) = length (p @ e)"
    using assms(4) unat_word_of_nat [of "length (p @ e)", where 'a = 64] by simp
  moreover have "unat (r_offset ?s) \<le> length p"
    using unat_offset_le [OF stableD(1) [OF assms(1) p]] stableD(2) [OF assms(1) p] by simp
  ultimately show False using assms(3) by simp
qed

section \<open>Checked readers\<close>

text \<open>
  A reader that reports failure as \<^const>\<open>None\<close> (the \<open>false\<close> of the sources) is checked when it
  is stable and never reports success after the failure flag was latched.
\<close>

definition checked :: "(reader, 'a option) state \<Rightarrow> bool" where
  "checked m \<longleftrightarrow> stable m \<and> (\<forall>r. rwf r \<longrightarrow> \<not> r_ok (snd (run_state m r)) \<longrightarrow> fst (run_state m r) = None)"

lemma checked_stable: "checked m \<Longrightarrow> stable m"
  by (simp add: checked_def)

lemma checked_None [checked_intros]: "checked (State_Monad.return None)"
  by (simp add: checked_def stable_intros)

lemma checked_bind [checked_intros]:
  assumes m: "stable m" and f: "\<And>v. checked (f v)"
  shows "checked (State_Monad.bind m f)"
  unfolding checked_def
proof (intro conjI allI impI)
  show "stable (State_Monad.bind m f)" by (intro stable_intros m checked_stable [OF f])
next
  fix r assume r: "rwf r" "\<not> r_ok (snd (run_state (State_Monad.bind m f) r))"
  have "rwf (snd (run_state m r))" using stableD(1) [OF m r(1)] .
  with f [of "fst (run_state m r)"] r(2)
  show "fst (run_state (State_Monad.bind m f) r) = None"
    by (simp add: checked_def case_prod_unfold)
qed

lemma checked_if [checked_intros]: "checked a \<Longrightarrow> checked b \<Longrightarrow> checked (if c then a else b)"
  by simp

lemma checked_Let [checked_intros]: "(\<And>x. checked (f x)) \<Longrightarrow> checked (Let v f)"
  by (simp add: Let_def)

lemma checked_case_option [checked_intros]:
  "checked a \<Longrightarrow> (\<And>x. checked (b x)) \<Longrightarrow> checked (case v of None \<Rightarrow> a | Some x \<Rightarrow> b x)"
  by (cases v) simp_all

text \<open>\<open>return reader.ok();\<close> with the message read so far as the result.\<close>

definition finish :: "'a \<Rightarrow> (reader, 'a option) state" where
  "finish message = do { ok \<leftarrow> reader_ok; State_Monad.return (if ok then Some message else None) }"

lemma checked_finish [checked_intros]: "checked (finish x)"
proof -
  have "stable (finish x)" unfolding finish_def by (intro stable_intros)
  then show ?thesis by (simp add: checked_def finish_def)
qed

lemma decodes_finish [decodes_intros]: "decodes (finish x) [] (Some x)"
  by (simp add: finish_def decodes_def)

text \<open>\<open>if (!reader.ok()) return false;\<close> before the rest of a deserialiser.\<close>

definition unless_ok :: "(reader, 'a option) state \<Rightarrow> (reader, 'a option) state" where
  "unless_ok m = do { ok \<leftarrow> reader_ok; if \<not> ok then State_Monad.return None else m }"

lemma checked_unless_ok [checked_intros]: "checked m \<Longrightarrow> checked (unless_ok m)"
  unfolding unless_ok_def by (intro checked_intros stable_intros)

lemma checked_ok_return [checked_intros]: "checked (unless_ok (State_Monad.return (Some x)))"
proof -
  have "stable (unless_ok (State_Monad.return (Some x)))"
    unfolding unless_ok_def by (intro stable_intros)
  then show ?thesis by (simp add: checked_def unless_ok_def)
qed

lemma decodes_unless_ok: "decodes m bs v \<Longrightarrow> decodes (unless_ok m) bs v"
  unfolding unless_ok_def by (rule decodes_bind_ok) simp

definition run_reader :: "(reader, 'a option) state \<Rightarrow> bytes \<Rightarrow> 'a option" where
  "run_reader m data = fst (run_state m (mk_reader data))"

lemma run_reader_decodes:
  assumes "decodes m bs v" "length (bs @ t) < 2 ^ 64"
  shows "run_reader m (bs @ t) = v"
  using assms unfolding run_reader_def decodes_def by simp

lemma run_reader_prefix:
  assumes "checked m" "decodes m (p @ e) v" "e \<noteq> []" "length (p @ e) < 2 ^ 64"
  shows "run_reader m p = None"
proof -
  have "\<not> r_ok (snd (run_state m (mk_reader p)))"
    using stable_prefix_fails [OF checked_stable [OF assms(1)] assms(2-4)] .
  moreover have "rwf (mk_reader p)" using assms(4) by simp
  ultimately show ?thesis using assms(1) unfolding checked_def run_reader_def by blast
qed

section \<open>Count-prefixed sequences\<close>

text \<open>
  The loop that reads \<open>count\<close> elements and leaves the deserialiser at the first one that
  cannot be read.
\<close>

primrec read_entries :: "nat \<Rightarrow> (reader, 'a option) state \<Rightarrow> (reader, 'a list option) state" where
  "read_entries 0 rd = State_Monad.return (Some [])"
| "read_entries (Suc n) rd = do {
     entry \<leftarrow> rd;
     case entry of
       None \<Rightarrow> State_Monad.return None
     | Some x \<Rightarrow> do {
         tail \<leftarrow> read_entries n rd;
         State_Monad.return (map_option (Cons x) tail) } }"

lemma decodes_cong: "decodes m bs v \<Longrightarrow> bs = bs' \<Longrightarrow> decodes m bs' v"
  by simp

lemma decodes_bind_return:
  "decodes m bs v \<Longrightarrow> decodes (State_Monad.bind m (\<lambda>x. State_Monad.return (f x))) bs (f v)"
proof -
  assume "decodes m bs v"
  then have "decodes (State_Monad.bind m (\<lambda>x. State_Monad.return (f x))) (bs @ []) (f v)"
    by (rule decodes_bind) (rule decodes_return)
  then show "decodes (State_Monad.bind m (\<lambda>x. State_Monad.return (f x))) bs (f v)" by simp
qed

locale record_codec =
  fixes wr :: "'a \<Rightarrow> (bytes, unit) state"
    and rd :: "(reader, 'b option) state"
    and enc :: "'a \<Rightarrow> bytes"
    and received :: "'a \<Rightarrow> 'b"
    and fits :: "'a \<Rightarrow> bool"
  assumes writes: "wr x = write_bytes (enc x)"
    and reads: "fits x \<Longrightarrow> decodes rd (enc x) (Some (received x))"
    and reader_checked: "checked rd"
begin

lemma writes_all: "foreach xs wr = write_bytes (concat (map enc xs))"
  by (induction xs) (auto simp: writes intro!: state_ext)

lemma reads_all:
  "\<forall>x\<in>set xs. fits x \<Longrightarrow>
     decodes (read_entries (length xs) rd) (concat (map enc xs)) (Some (map received xs))"
proof (induction xs)
  case Nil
  show ?case by (simp add: decodes_return)
next
  case (Cons x xs)
  then have tail: "decodes (State_Monad.bind (read_entries (length xs) rd)
      (\<lambda>t. State_Monad.return (map_option (Cons (received x)) t))) (concat (map enc xs))
      (map_option (Cons (received x)) (Some (map received xs)))"
    by (intro decodes_bind_return) simp
  have "decodes (read_entries (length (x # xs)) rd) (enc x @ concat (map enc xs))
      (Some (map received (x # xs)))"
    unfolding read_entries.simps list.size(4) add_Suc_right add_0_right
    using Cons.prems by (intro decodes_bind [OF reads]) (use tail in simp_all)
  then show ?case by simp
qed

text \<open>The count is sent as 16 bits, so it is right for fewer than \<open>2^16\<close> elements.\<close>

lemma reads_counted:
  "\<forall>x\<in>set xs. fits x \<Longrightarrow> length xs < 2 ^ 16 \<Longrightarrow>
     decodes (read_entries (unat (word_of_nat (length xs) :: u16)) rd) (concat (map enc xs))
       (Some (map received xs))"
  using reads_all [of xs] by (simp add: unat_word_of_nat)

end

end
