(* ===== verification/Pose_Codec.thy ===== *)
theory Pose_Codec
  imports Wire_Calculus
begin

text \<open>
  \<open>src/protocol/pose_codec.*\<close>: rounding, quantisation, quaternion helpers and the
  smallest-three quaternion codec, over IEEE doubles. The trigonometric functions are taken
  from the parameter \<^typ>\<open>libm\<close>.

  \<^item> \<open>round_half_to_even\<close> computes the exact round-half-to-even of its argument although its
    intermediate difference is itself rounded.
  \<^item> \<open>clamp_rounded\<close> and the quantisers saturate the exactly rounded quotient.
  \<^item> Quantisation inverts dequantisation on every grid point, for every scale in use.
  \<^item> \<open>compress_quaternion_smallest_three\<close> packs a dominating index and three 10 bit fields.
\<close>

section \<open>Vectors, quaternions and constants\<close>

datatype Vec3 = Vec3 (x_of: double) (y_of: double) (z_of: double)

datatype Quat = Quat (qx: double) (qy: double) (qz: double) (qw: double)

definition kPi :: double where
  "kPi = dlit (314159265358979323846 / 10 ^ 20)"

definition Vec3_default :: Vec3 where
  "Vec3_default = Vec3 (dlit 0) (dlit 0) (dlit 0)"

definition Quat_default :: Quat where
  "Quat_default = Quat (dlit 0) (dlit 0) (dlit 0) (dlit 1)"

definition kAbsPosScale :: double where
  "kAbsPosScale = dlit (1 / 100)"

definition kLocoPosScale :: double where
  "kLocoPosScale = dlit (1 / 100)"

definition kRelPosScale :: double where
  "kRelPosScale = dlit (5 / 1000)"

definition kPhysicalYawScale :: double where
  "kPhysicalYawScale = dlit (1 / 10)"

definition kInt16Min :: i32 where
  "kInt16Min = - 32768"

definition kInt16Max :: i32 where
  "kInt16Max = 32767"

definition kQuatComponentMin :: double where
  "kQuatComponentMin = fneg (dlit (70710677 / 10 ^ 8))"

definition kQuatComponentMax :: double where
  "kQuatComponentMax = dlit (70710677 / 10 ^ 8)"

definition kQuatNormalizeEpsilon :: double where
  "kQuatNormalizeEpsilon = dlit (1 / 10 ^ 12)"

section \<open>Rounding and quantisation\<close>

definition round_half_to_even :: "double \<Rightarrow> double" where
  "round_half_to_even value =
     (if \<not> isfinite value then value
      else
        let lower = ffloor value;
            fraction = fsub value lower
        in if flt (dlit (1 / 2)) fraction then fadd lower (dlit 1)
           else if flt fraction (dlit (1 / 2)) then lower
           else if feq (fmod lower (dlit 2)) (dlit 0) then lower
           else fadd lower (dlit 1))"

definition clamp_rounded :: "double \<Rightarrow> i32 \<Rightarrow> i32 \<Rightarrow> i32" where
  "clamp_rounded scaled min_value max_value =
     (if isnan scaled then 0
      else
        let rounded = round_half_to_even scaled
        in if flt rounded (double_of_int (sint min_value)) then min_value
           else if flt (double_of_int (sint max_value)) rounded then max_value
           else word_of_int (double_to_int rounded))"

definition quantize_signed :: "double \<Rightarrow> double \<Rightarrow> i16" where
  "quantize_signed value scale =
     (if \<not> flt (dlit 0) scale then 0
      else ucast (clamp_rounded (fdiv value scale) kInt16Min kInt16Max))"

definition quantize_signed_int24 :: "double \<Rightarrow> double \<Rightarrow> i32" where
  "quantize_signed_int24 value scale =
     (if \<not> flt (dlit 0) scale then 0
      else clamp_rounded (fdiv value scale) kInt24Min kInt24Max)"

definition dequantize_signed :: "i32 \<Rightarrow> double \<Rightarrow> double" where
  "dequantize_signed value scale = fmul (double_of_int (sint value)) scale"

section \<open>Quaternion helpers\<close>

definition normalize_quaternion :: "Quat \<Rightarrow> Quat" where
  "normalize_quaternion q =
     (let mag_sq = fadd (fadd (fadd (fmul (qx q) (qx q)) (fmul (qy q) (qy q)))
                     (fmul (qz q) (qz q))) (fmul (qw q) (qw q))
      in if \<not> isfinite mag_sq \<or> fle mag_sq kQuatNormalizeEpsilon
         then Quat (dlit 0) (dlit 0) (dlit 0) (dlit 1)
         else
           let inv_mag = fdiv (dlit 1) (fsqrt mag_sq)
           in Quat (fmul (qx q) inv_mag) (fmul (qy q) inv_mag) (fmul (qz q) inv_mag)
                (fmul (qw q) inv_mag))"

definition quaternion_inverse :: "Quat \<Rightarrow> Quat" where
  "quaternion_inverse q =
     (let n = normalize_quaternion q
      in Quat (fneg (qx n)) (fneg (qy n)) (fneg (qz n)) (qw n))"

definition quaternion_multiply :: "Quat \<Rightarrow> Quat \<Rightarrow> Quat" where
  "quaternion_multiply a b =
     Quat
       (fsub (fadd (fadd (fmul (qw a) (qx b)) (fmul (qx a) (qw b))) (fmul (qy a) (qz b)))
         (fmul (qz a) (qy b)))
       (fadd (fadd (fsub (fmul (qw a) (qy b)) (fmul (qx a) (qz b))) (fmul (qy a) (qw b)))
         (fmul (qz a) (qx b)))
       (fadd (fsub (fadd (fmul (qw a) (qz b)) (fmul (qx a) (qy b))) (fmul (qy a) (qx b)))
         (fmul (qz a) (qw b)))
       (fsub (fsub (fsub (fmul (qw a) (qw b)) (fmul (qx a) (qx b))) (fmul (qy a) (qy b)))
         (fmul (qz a) (qz b)))"

definition normalize_yaw_degrees :: "double \<Rightarrow> double" where
  "normalize_yaw_degrees yaw =
     (let shifted = fmod (fadd yaw (dlit 180)) (dlit 360);
          shifted = (if flt shifted (dlit 0) then fadd shifted (dlit 360) else shifted)
      in fsub shifted (dlit 180))"

definition quaternion_to_yaw_degrees :: "libm \<Rightarrow> Quat \<Rightarrow> double" where
  "quaternion_to_yaw_degrees lm q =
     (let n = normalize_quaternion q;
          siny_cosp = fmul (dlit 2) (fadd (fmul (qw n) (qy n)) (fmul (qz n) (qx n)));
          cosy_cosp = fsub (dlit 1)
            (fmul (dlit 2) (fadd (fmul (qy n) (qy n)) (fmul (qz n) (qz n))));
          yaw = fmul (lm_atan2 lm siny_cosp cosy_cosp) (fdiv (dlit 180) kPi)
      in normalize_yaw_degrees yaw)"

definition yaw_degrees_to_quaternion :: "libm \<Rightarrow> double \<Rightarrow> Quat" where
  "yaw_degrees_to_quaternion lm yaw_degrees =
     (let half = fmul (fmul yaw_degrees (fdiv kPi (dlit 180))) (dlit (1 / 2))
      in Quat (dlit 0) (lm_sin lm half) (dlit 0) (lm_cos lm half))"

definition rotate_yaw_vector :: "libm \<Rightarrow> Vec3 \<Rightarrow> double \<Rightarrow> Vec3" where
  "rotate_yaw_vector lm v yaw_degrees =
     (let yaw_rad = fmul yaw_degrees (fdiv kPi (dlit 180));
          cos_y = lm_cos lm yaw_rad;
          sin_y = lm_sin lm yaw_rad
      in Vec3 (fadd (fmul cos_y (x_of v)) (fmul sin_y (z_of v)))
           (y_of v)
           (fadd (fmul (fneg sin_y) (x_of v)) (fmul cos_y (z_of v))))"

section \<open>Smallest-three codec\<close>

definition largest_index_of :: "double list \<Rightarrow> nat" where
  "largest_index_of abs_values =
     fold (\<lambda>i largest_index. if flt (abs_values ! largest_index) (abs_values ! i) then i else largest_index)
       [1..<4] 0"

definition kMax10Bit :: int where
  "kMax10Bit = 1023"

definition scaled_component :: "double \<Rightarrow> u32" where
  "scaled_component value =
     (let clamped = value;
          clamped = (if flt clamped kQuatComponentMin then kQuatComponentMin else clamped);
          clamped = (if flt kQuatComponentMax clamped then kQuatComponentMax else clamped);
          normalized = fdiv (fsub clamped kQuatComponentMin) (fsub kQuatComponentMax kQuatComponentMin);
          scaled_value = round_half_to_even (fmul normalized (double_of_int kMax10Bit));
          scaled_value = (if \<not> fle (dlit 0) scaled_value then dlit 0 else scaled_value);
          scaled_value = (if flt (double_of_int kMax10Bit) scaled_value then double_of_int kMax10Bit
                          else scaled_value)
      in word_of_int (double_to_int scaled_value))"

definition pack_components :: "double list \<Rightarrow> nat \<Rightarrow> u32" where
  "pack_components values largest_index =
     fst (fold
       (\<lambda>i (packed, write_index).
          if i = largest_index then (packed, write_index)
          else (packed OR push_bit (20 - write_index * 10) (scaled_component (values ! i)),
                write_index + 1))
       [0..<4] (push_bit 30 (word_of_nat largest_index), 0 :: nat))"

definition compress_quaternion_smallest_three :: "Quat \<Rightarrow> u32" where
  "compress_quaternion_smallest_three q =
     (let n = normalize_quaternion q;
          values = [qx n, qy n, qz n, qw n];
          abs_values = map fabs values;
          largest_index = largest_index_of abs_values;
          values = (if flt (values ! largest_index) (dlit 0) then map fneg values else values)
      in pack_components values largest_index)"

definition decode_component :: "u32 \<Rightarrow> double" where
  "decode_component v =
     (let inv = fdiv (dlit 1) (dlit 1023)
      in fadd kQuatComponentMin
           (fmul (fsub kQuatComponentMax kQuatComponentMin) (fmul (double_of_int (uint v)) inv)))"

definition decompress_quaternion_smallest_three :: "u32 \<Rightarrow> Quat" where
  "decompress_quaternion_smallest_three packed =
     (let largest_index = unat (drop_bit 30 packed AND 0x3);
          a = drop_bit 20 packed AND 0x3FF;
          b = drop_bit 10 packed AND 0x3FF;
          c = packed AND 0x3FF;
          read_values = [a, b, c];
          values = replicate 4 (dlit 0);
          (values, read_index) =
            fold (\<lambda>i (values, read_index).
                    if i = largest_index then (values, read_index)
                    else (values[i := decode_component (read_values ! read_index)], read_index + 1))
              [0..<4] (values, 0 :: nat);
          sum_sq =
            fold (\<lambda>i sum_sq. if i = largest_index then sum_sq
                            else fadd sum_sq (fmul (values ! i) (values ! i)))
              [0..<4] (dlit 0);
          residual = fsub (dlit 1) sum_sq;
          values = values[largest_index := fsqrt (if flt (dlit 0) residual then residual else dlit 0)]
      in normalize_quaternion (Quat (values ! 0) (values ! 1) (values ! 2) (values ! 3)))"

section \<open>Rounding is exact\<close>

lemma round_half_to_even_fraction:
  assumes x: "isfinite x" and i: "\<bar>\<lfloor>fval x\<rfloor>\<bar> < 2 ^ 53"
    and fr: "isfinite f" "fval f = fval x - of_int \<lfloor>fval x\<rfloor>" "fsub x (ffloor x) = f"
  shows "isfinite (round_half_to_even x) \<and> fval (round_half_to_even x) = of_int (rne (fval x))"
proof -
  let ?i = "\<lfloor>fval x\<rfloor>"
  note l = ffloor_exact [OF x]
  have i1: "\<bar>?i + 1\<bar> \<le> 2 ^ 53" "\<bar>?i\<bar> \<le> 2 ^ 53" using i by linarith+
  have a: "isfinite (fadd (ffloor x) (dlit 1))" "fval (fadd (ffloor x) (dlit 1)) = of_int (?i + 1)"
    using fl_int_add [OF l(1) dlit_small(3) _ i1(1)] l(2) by simp_all
  have c: "flt (dlit (1 / 2)) f \<longleftrightarrow> 1 / 2 < fval x - of_int ?i"
    "flt f (dlit (1 / 2)) \<longleftrightarrow> fval x - of_int ?i < 1 / 2"
    using fr(1,2) by (simp_all add: flt_fval)
  have e: "feq (fmod (ffloor x) (dlit 2)) (dlit 0) \<longleftrightarrow> even ?i" by (rule fmod_two [OF l i1(2)])
  show ?thesis
    using x l a unfolding round_half_to_even_def Let_def fr(3) c e rne_def by auto
qed

lemma round_half_to_even_above_minus_half:
  assumes x: "isfinite x" "- 1 / 2 \<le> fval x" "fval x < 0"
  shows "isfinite (round_half_to_even x) \<and> fval (round_half_to_even x) = of_int (rne (fval x))"
proof -
  have i: "\<lfloor>fval x\<rfloor> = - 1" using x(2,3) by (simp add: floor_eq_iff)
  note l = ffloor_exact [OF x(1)]
  define f where "f = fsub x (ffloor x)"
  have f: "f = fl (neg x \<and> \<not> neg (ffloor x)) (fval x + 1)"
    using l i by (simp add: f_def fsub_finite x(1))
  have "okey (dlit (1 / 2)) \<le> okey f"
    unfolding f okey_fl by (rule rkey_ge) (use x(2) in \<open>simp_all add: dlit_def [of "1/2"]\<close>, simp_all flip: dlit_def)
  then have nf: "\<not> flt f (dlit (1 / 2))" by (simp add: flt_def)
  have e: "\<not> feq (fmod (ffloor x) (dlit 2)) (dlit 0)"
    using fmod_two [OF l(1), of "- 1"] l(2) i by simp
  have a: "isfinite (fadd (ffloor x) (dlit 1))" "fval (fadd (ffloor x) (dlit 1)) = of_int 0"
    using fl_int_add [OF l(1) dlit_small(3), of 0] l(2) i by simp_all
  have r: "round_half_to_even x = fadd (ffloor x) (dlit 1)"
    using x(1) nf e by (simp add: round_half_to_even_def Let_def flip: f_def)
  have "rne (fval x) = 0" using x(2,3) i by (auto simp: rne_def Let_def)
  then show ?thesis using a r by simp
qed

lemma round_half_to_even_exact:
  assumes x: "isfinite x"
  shows "isfinite (round_half_to_even x) \<and> fval (round_half_to_even x) = of_int (rne (fval x))"
proof -
  obtain k e where d: "fval x = of_int k * pow2 e" "\<bar>k\<bar> < 2 ^ 53" "- 1074 \<le> e"
    by (rule finite_decompose)
  note l = ffloor_exact [OF x]
  consider (int) "0 \<le> e" | (small) "e < 0" "k mod 2 ^ nat (- e) < 2 ^ 53"
    | (neg) "e < 0" "2 ^ 53 \<le> k mod 2 ^ nat (- e)" by linarith
  then show ?thesis
  proof cases
    case int
    then have v: "fval x = of_int (k * 2 ^ nat e)" by (simp add: d pow2_def)
    then have fx: "of_int \<lfloor>fval x\<rfloor> = fval x" by (simp only: floor_of_int)
    have lx: "ffloor x = x" using x by (simp only: ffloor_def fx) simp
    have "fsub x (ffloor x) = fl False 0" by (simp add: lx fsub_finite x)
    moreover have "isfinite (fl False 0)" "fval (fl False 0) = 0" using fval_fl_int [of 0] by simp_all
    moreover have "of_int (rne (fval x)) = fval x" unfolding v rne_of_int ..
    ultimately show ?thesis using x by (simp add: round_half_to_even_def flt_fval lx)
  next
    case small
    then have "pow2 e \<le> pow2 (- 1)" by simp
    then have "of_int \<bar>k\<bar> * pow2 e \<le> of_int \<bar>k\<bar> * pow2 (- 1)" by (intro mult_left_mono) simp_all
    then have "\<bar>fval x\<bar> \<le> of_int \<bar>k\<bar> * (1 / 2)" by (simp add: d abs_mult pow2_def [of "-1"])
    moreover have "(of_int \<bar>k\<bar> :: rat) \<le> of_int (2 ^ 53)" using d(2) by (simp only: of_int_le_iff)
    ultimately have "\<bar>fval x\<bar> \<le> of_int (2 ^ 52)" by simp
    then have "\<bar>\<lfloor>fval x\<rfloor>\<bar> \<le> 2 ^ 52" by (rule floor_abs_le)
    then have "\<bar>\<lfloor>fval x\<rfloor>\<bar> < 2 ^ 53" by simp
    from round_half_to_even_fraction [OF x this fraction_exact [OF x d small] refl]
    show ?thesis .
  next
    case neg
    let ?d = "2 ^ nat (- e) :: int"
    have "k mod ?d < ?d" by simp
    then have dk: "\<bar>k\<bar> < ?d" using d(2) neg(2) by linarith
    have k: "k < 0" using neg(2) d(2) dk by (cases "k < 0") simp_all
    have "(k + ?d) mod ?d = k + ?d" using k dk by (intro mod_pos_pos_trivial) linarith+
    then have "k mod ?d = k + ?d" by simp
    then have "- ?d \<le> 2 * k" using neg(2) d(2) by linarith
    then have "of_int (- ?d) \<le> (of_int (2 * k) :: rat)" by (simp only: of_int_le_iff)
    then have "- 1 / 2 \<le> of_int k / (of_int ?d :: rat)" "of_int k / (of_int ?d :: rat) < 0"
      using k by (simp_all add: field_simps)
    moreover have "fval x = of_int k / of_int ?d" using neg(1) by (simp add: d pow2_def)
    ultimately have "- 1 / 2 \<le> fval x \<and> fval x < 0" by simp
    with round_half_to_even_above_minus_half [OF x] show ?thesis by simp
  qed
qed

section \<open>Clamping and quantisation\<close>

lemma sint_word_of_int_between:
  "sint (a :: i32) \<le> i \<Longrightarrow> i \<le> sint (b :: i32) \<Longrightarrow> sint (word_of_int i :: i32) = i"
  using sint_lt [of b] sint_ge [of a]
  by (simp add: sint_sbintrunc' signed_take_bit_int_eq_self)

lemma clamp_rounded_finite:
  assumes x: "isfinite x" and mm: "sint mn \<le> sint mx"
  shows "sint (clamp_rounded x mn mx) = max (sint mn) (min (sint mx) (rne (fval x)))"
proof -
  let ?r = "round_half_to_even x" and ?n = "rne (fval x)"
  have r: "isfinite ?r" "fval ?r = of_int ?n" using round_half_to_even_exact [OF x] by simp_all
  have c: "flt ?r (double_of_int (sint mn)) \<longleftrightarrow> ?n < sint mn"
    "flt (double_of_int (sint mx)) ?r \<longleftrightarrow> sint mx < ?n"
    unfolding flt_fval [OF r(1) double_of_int_32(1)] flt_fval [OF double_of_int_32(1) r(1)]
      r(2) double_of_int_32(2) of_int_less_iff by simp_all
  have t: "double_to_int ?r = ?n" by (simp add: double_to_int_def r(2))
  have "\<not> isnan x" using x by (simp add: isfinite_iff)
  then show ?thesis
    using mm sint_word_of_int_between [of mn ?n mx] by (auto simp: clamp_rounded_def Let_def c t)
qed

lemma clamp_rounded_inf:
  assumes "isinf x"
  shows "clamp_rounded x mn mx = (if neg x then mn else mx)"
proof -
  have x: "\<not> isnan x" "\<not> isfinite x" "okey x = (if neg x then - inf_mag else inf_mag)"
    using assms by (auto simp: isinf_def isnan_def isfinite_def okey_def)
  have m: "flt x (double_of_int (sint v)) = neg x" "flt (double_of_int (sint v)) x = (\<not> neg x)" for v :: i32
    using okey_finite_bounds [OF double_of_int_32(1) [of v]] double_of_int_32(1) [of v] x
    by (auto simp: flt_def isfinite_iff inf_mag_def)
  show ?thesis using x(1,2) m by (simp add: clamp_rounded_def round_half_to_even_def)
qed

lemma clamp_rounded_nan: "isnan x \<Longrightarrow> clamp_rounded x mn mx = 0"
  by (simp add: clamp_rounded_def)


text \<open>The scales for which the grid is faithful; every scale of the protocol is one.\<close>

definition scale_ok :: "double \<Rightarrow> bool" where
  "scale_ok s \<longleftrightarrow> isfinite s \<and> pow2 (- 900) \<le> fval s \<and> fval s \<le> pow2 900"

lemma scale_ok_lit:
  assumes "1 / 1024 \<le> x" "x \<le> 1"
  shows "scale_ok (dlit x)"
proof -
  have p: "pow2 (- 10) = 1 / 1024" "pow2 0 = 1" by (simp_all add: pow2_def)
  have "\<bar>x\<bar> < pow2 1023" using assms pow2_strict_mono [of 0 1023] p(2) by linarith
  then have f: "isfinite (dlit x)" unfolding dlit_def by (rule isfinite_fl)
  have "pow2 (- 1022) \<le> pow2 (- 10)" by simp
  then have "pow2 (- 1022) \<le> \<bar>x\<bar>" using assms(1) p(1) by linarith
  from fval_fl_error [OF this] f have "\<bar>fval (dlit x) - x\<bar> \<le> \<bar>x\<bar> * pow2 (- 53)" by (simp add: dlit_def)
  also have "\<dots> \<le> \<bar>x\<bar> * (1 / 2)"
    using pow2_mono [of "- 53" "- 1"] by (intro mult_left_mono) (simp_all add: pow2_def [of "- 1"])
  finally have "x / 2 \<le> fval (dlit x)" "fval (dlit x) \<le> 2 * x" using assms by (simp_all add: abs_if split: if_splits)
  moreover have "pow2 (- 900) \<le> 1 / 2048" using pow2_mono [of "- 900" "- 11"] by (simp add: pow2_def [of "- 11"])
  moreover have "2 \<le> pow2 900" using pow2_mono [of 1 900] by (simp add: pow2_def [of 1])
  ultimately show ?thesis unfolding scale_ok_def using f assms by linarith
qed

lemma protocol_scales_ok:
  "scale_ok kAbsPosScale" "scale_ok kLocoPosScale" "scale_ok kRelPosScale" "scale_ok kPhysicalYawScale"
  by (simp_all add: kAbsPosScale_def kLocoPosScale_def kRelPosScale_def kPhysicalYawScale_def scale_ok_lit)

lemma scale_ok_pos: "scale_ok s \<Longrightarrow> 0 < fval s \<and> isfinite s \<and> mag s \<noteq> 0 \<and> flt (dlit 0) s"
proof -
  assume s: "scale_ok s"
  then have "0 < fval s" unfolding scale_ok_def using pow2_pos [of "- 900"] by (meson less_le_trans)
  with s show ?thesis using fval_mag0 [of s] by (auto simp: scale_ok_def flt_fval)
qed

lemma dequantize_value:
  assumes s: "scale_ok s" and n: "\<bar>sint v\<bar> \<le> 2 ^ 23"
  shows "isfinite (dequantize_signed v s)"
    and "\<bar>fval (dequantize_signed v s) - of_int (sint v) * fval s\<bar> \<le> of_int \<bar>sint v\<bar> * fval s * pow2 (- 53)"
proof -
  let ?n = "sint v" and ?x = "of_int (sint v) * fval s"
  have sp: "0 < fval s" "isfinite s" using scale_ok_pos [OF s] by simp_all
  have d: "dequantize_signed v s = fl (neg (double_of_int ?n) \<noteq> neg s) ?x"
    using sp double_of_int_32 [of v] by (simp add: dequantize_signed_def fmul_def isfinite_iff)
  have a: "\<bar>?x\<bar> = of_int \<bar>?n\<bar> * fval s" using sp by (simp add: abs_mult)
  have "isfinite (dequantize_signed v s) \<and>
    \<bar>fval (dequantize_signed v s) - ?x\<bar> \<le> of_int \<bar>?n\<bar> * fval s * pow2 (- 53)"
  proof (cases "?n = 0")
    case True
    then show ?thesis using fval_fl_int [of 0] by (simp add: d)
  next
    case False
    have n23: "(of_int \<bar>?n\<bar> :: rat) \<le> of_int (2 ^ 23)" using n by (simp only: of_int_le_iff)
    have "\<bar>?x\<bar> \<le> of_int (2 ^ 23) * pow2 900"
      unfolding a using n23 s sp by (intro mult_mono) (simp_all add: scale_ok_def)
    also have "\<dots> = pow2 923" using pow2_add [of 23 900] by (simp add: pow2_def [of 23])
    also have "\<dots> < pow2 1023" by simp
    finally have u: "\<bar>?x\<bar> < pow2 1023" .
    have "1 \<le> \<bar>?n\<bar>" using False by linarith
    then have "of_int 1 \<le> (of_int \<bar>?n\<bar> :: rat)" by (simp only: of_int_le_iff)
    then have "fval s \<le> \<bar>?x\<bar>" unfolding a using sp by simp
    moreover have "pow2 (- 1022) \<le> pow2 (- 900)" by simp
    ultimately have "pow2 (- 1022) \<le> \<bar>?x\<bar>" using s unfolding scale_ok_def by linarith
    from fl_rel [OF this u] show ?thesis unfolding d a by simp
  qed
  then show "isfinite (dequantize_signed v s)"
    and "\<bar>fval (dequantize_signed v s) - ?x\<bar> \<le> of_int \<bar>?n\<bar> * fval s * pow2 (- 53)" by simp_all
qed


lemma quotient_value:
  assumes "isfinite v" "scale_ok s" "\<bar>fval v / fval s\<bar> \<le> 2 ^ 24"
  shows "isfinite (fdiv v s)" "\<bar>fval (fdiv v s) - fval v / fval s\<bar> \<le> 1 / 2 ^ 29"
proof -
  have s: "0 < fval s" "isfinite s" "mag s \<noteq> 0" using scale_ok_pos [OF assms(2)] by simp_all
  have d: "fdiv v s = fl (neg v \<noteq> neg s) (fval v / fval s)"
    using assms(1) s by (simp add: fdiv_def isfinite_iff)
  have "(2 :: rat) ^ 24 < pow2 25" by (simp add: pow2_def)
  then have b: "\<bar>fval v / fval s\<bar> < pow2 (53 + - 28)" using assms(3) by simp
  show "isfinite (fdiv v s)" unfolding d using fl_abs_error(1) [OF b] by simp
  have "\<bar>fval (fdiv v s) - fval v / fval s\<bar> \<le> pow2 (- 28) / 2"
    unfolding d by (rule fl_abs_error(2) [OF b]) simp_all
  also have "\<dots> = 1 / 2 ^ 29" by (simp add: pow2_def)
  finally show "\<bar>fval (fdiv v s) - fval v / fval s\<bar> \<le> 1 / 2 ^ 29" .
qed

lemma sint_kInt16 [simp]: "sint kInt16Min = - 32768" "sint kInt16Max = 32767"
  by (simp_all add: kInt16Min_def kInt16Max_def)

lemma sint_word_of_int_i16: "- 32768 \<le> i \<Longrightarrow> i \<le> 32767 \<Longrightarrow> sint (word_of_int i :: i16) = i"
  by (simp add: sint_sbintrunc' signed_take_bit_int_eq_self)

lemma quantize_value:
  assumes "isfinite v" "scale_ok s" "\<bar>fval v / fval s\<bar> \<le> 2 ^ 24"
  shows "sint (quantize_signed_int24 v s) = max (- (2 ^ 23)) (min (2 ^ 23 - 1) (rne (fval (fdiv v s))))"
    and "sint (quantize_signed v s) = max (- 32768) (min 32767 (rne (fval (fdiv v s))))"
proof -
  have s: "flt (dlit 0) s" using scale_ok_pos [OF assms(2)] by simp
  note q = quotient_value [OF assms]
  show "sint (quantize_signed_int24 v s) = max (- (2 ^ 23)) (min (2 ^ 23 - 1) (rne (fval (fdiv v s))))"
    using s clamp_rounded_finite [OF q(1), of kInt24Min kInt24Max] by (simp add: quantize_signed_int24_def)
  let ?c = "clamp_rounded (fdiv v s) kInt16Min kInt16Max"
  have c: "sint ?c = max (- 32768) (min 32767 (rne (fval (fdiv v s))))"
    using clamp_rounded_finite [OF q(1), of kInt16Min kInt16Max] by simp
  then have "- 32768 \<le> sint ?c" "sint ?c \<le> 32767" by simp_all
  moreover have "(ucast ?c :: i16) = word_of_int (sint ?c)"
    by (intro bit_word_eqI) (auto simp: bit_simps)
  ultimately have "sint (ucast ?c :: i16) = sint ?c" by (simp only: sint_word_of_int_i16)
  then show "sint (quantize_signed v s) = max (- 32768) (min 32767 (rne (fval (fdiv v s))))"
    using s c by (simp add: quantize_signed_def)
qed

lemma requantize:
  assumes s: "scale_ok s" and n: "\<bar>sint v\<bar> \<le> 2 ^ 23"
  shows "rne (fval (fdiv (dequantize_signed v s) s)) = sint v"
    and "\<bar>fval (dequantize_signed v s) / fval s\<bar> \<le> 2 ^ 24"
proof -
  let ?d = "dequantize_signed v s" and ?n = "of_int (sint v) :: rat"
  note d = dequantize_value [OF s n]
  have sp: "0 < fval s" using scale_ok_pos [OF s] by simp
  have "\<bar>fval ?d / fval s - ?n\<bar> = \<bar>fval ?d - ?n * fval s\<bar> / fval s"
    using sp by (simp add: field_simps abs_if)
  also have "\<dots> \<le> (of_int \<bar>sint v\<bar> * fval s * pow2 (- 53)) / fval s"
    using d(2) sp by (intro divide_right_mono) simp_all
  also have "\<dots> = of_int \<bar>sint v\<bar> * pow2 (- 53)" using sp by simp
  also have "\<dots> \<le> of_int (2 ^ 23) * pow2 (- 53)"
    using n by (intro mult_right_mono) (simp_all only: of_int_le_iff, simp_all)
  also have "\<dots> = 1 / 2 ^ 30" by (simp add: pow2_def)
  finally have e: "\<bar>fval ?d / fval s - ?n\<bar> \<le> 1 / 2 ^ 30" .
  have n23: "\<bar>?n\<bar> \<le> of_int (2 ^ 23)" using n by (simp only: of_int_le_iff flip: of_int_abs)
  then have n23': "\<bar>?n\<bar> \<le> 8388608" by simp
  define q where "q = fval ?d / fval s"
  have "\<bar>q - ?n\<bar> \<le> 1" using e unfolding q_def [symmetric] by (rule order_trans) simp
  then have "\<bar>q\<bar> \<le> 16777216" using n23' by linarith
  then show q: "\<bar>fval ?d / fval s\<bar> \<le> 2 ^ 24" by (simp add: q_def)
  have eps: "(1 / 2 ^ 29 :: rat) \<le> 1 / 8" "(1 / 2 ^ 30 :: rat) \<le> 1 / 8" by simp_all
  have "\<bar>fval (fdiv ?d s) - ?n\<bar> < 1 / 2"
    using quotient_value(2) [OF d(1) s q] e eps unfolding q_def [symmetric] by linarith
  then show "rne (fval (fdiv ?d s)) = sint v" by (rule rne_near)
qed


lemma quantize_dequantize_int24:
  assumes "scale_ok s" "- (2 ^ 23) \<le> sint v" "sint v \<le> 2 ^ 23 - 1"
  shows "quantize_signed_int24 (dequantize_signed v s) s = v"
proof -
  have n: "\<bar>sint v\<bar> \<le> 2 ^ 23" using assms(2,3) by linarith
  have "sint (quantize_signed_int24 (dequantize_signed v s) s) = sint v"
    using quantize_value(1) [OF dequantize_value(1) [OF assms(1) n] assms(1) requantize(2) [OF assms(1) n]]
      requantize(1) [OF assms(1) n] assms(2,3) by simp
  then show ?thesis by (rule signed_word_eqI)
qed

lemma sint_scast_i16: "sint (scast (v :: i16) :: i32) = sint v"
  by (simp add: signed_scast_eq signed_take_bit_int_eq_self_iff) (use sint_lt [of v] sint_ge [of v] in simp)

lemma quantize_dequantize_int16:
  fixes v :: i16
  assumes "scale_ok s"
  shows "quantize_signed (dequantize_signed (scast v) s) s = v"
proof -
  have r: "- 32768 \<le> sint v" "sint v \<le> 32767" using sint_lt [of v] sint_ge [of v] by simp_all
  then have n: "\<bar>sint (scast v :: i32)\<bar> \<le> 2 ^ 23" unfolding sint_scast_i16 by simp
  have "sint (quantize_signed (dequantize_signed (scast v) s) s) = sint v"
    using quantize_value(2) [OF dequantize_value(1) [OF assms n] assms requantize(2) [OF assms n]]
      requantize(1) [OF assms n] r by (simp add: sint_scast_i16)
  then show ?thesis by (rule signed_word_eqI)
qed

lemma quantize_error:
  assumes x: "isfinite x" and s: "scale_ok s" and b: "\<bar>fval x / fval s\<bar> \<le> 2 ^ 23 - 1"
  shows "\<bar>fval (dequantize_signed (quantize_signed_int24 x s) s) - fval x\<bar> \<le> fval s * (1 / 2 + 1 / 2 ^ 28)"
proof -
  define q n where "q = fval x / fval s" and "n = rne (fval (fdiv x s))"
  have sp: "0 < fval s" using scale_ok_pos [OF s] by simp
  have bq: "\<bar>q\<bar> \<le> 8388607" using b by (simp add: q_def)
  then have b': "\<bar>fval x / fval s\<bar> \<le> 2 ^ 24" by (simp add: q_def)
  have y: "\<bar>fval (fdiv x s) - q\<bar> \<le> 1 / 2 ^ 29" using quotient_value(2) [OF x s b'] by (simp add: q_def)
  have nq: "\<bar>of_int n - q\<bar> \<le> 1 / 2 + 1 / 2 ^ 29"
    using y rne_error [of "fval (fdiv x s)"] unfolding n_def by linarith
  have "(1 / 2 ^ 29 :: rat) \<le> 1 / 4" by simp
  then have "\<bar>of_int n :: rat\<bar> < of_int 8388608" using nq bq by linarith
  then have n: "\<bar>n\<bar> < 8388608" by (simp only: of_int_less_iff flip: of_int_abs)
  let ?v = "quantize_signed_int24 x s"
  have v: "sint ?v = n" using quantize_value(1) [OF x s b'] n by (simp add: n_def)
  then have "\<bar>sint ?v\<bar> \<le> 2 ^ 23" using n by simp
  from dequantize_value(2) [OF s this]
  have "\<bar>fval (dequantize_signed ?v s) - of_int n * fval s\<bar> \<le> of_int \<bar>n\<bar> * (fval s * pow2 (- 53))"
    by (simp only: v mult.assoc)
  also have "\<dots> \<le> of_int 8388608 * (fval s * pow2 (- 53))"
    using n sp by (intro mult_right_mono) (simp_all only: of_int_le_iff, simp_all)
  also have "\<dots> = fval s * (1 / 2 ^ 30)" by (simp add: pow2_def)
  finally have d: "\<bar>fval (dequantize_signed ?v s) - of_int n * fval s\<bar> \<le> fval s * (1 / 2 ^ 30)" .
  have "\<bar>of_int n * fval s - fval x\<bar> = fval s * \<bar>of_int n - q\<bar>"
    using sp by (simp add: q_def field_simps abs_if)
  also have "\<dots> \<le> fval s * (1 / 2 + 1 / 2 ^ 29)" using nq sp by (intro mult_left_mono) simp_all
  finally have "\<bar>of_int n * fval s - fval x\<bar> \<le> fval s * (1 / 2 + 1 / 2 ^ 29)" .
  with d have "\<bar>fval (dequantize_signed ?v s) - fval x\<bar> \<le> fval s * (1 / 2 ^ 30) + fval s * (1 / 2 + 1 / 2 ^ 29)"
    by linarith
  also have "\<dots> = fval s * (1 / 2 ^ 30 + (1 / 2 + 1 / 2 ^ 29))" by (simp only: distrib_left)
  also have "\<dots> \<le> fval s * (1 / 2 + 1 / 2 ^ 28)" using sp by (intro mult_left_mono) simp_all
  finally show ?thesis .
qed

lemma quantize_signed_int24_range:
  "- (2 ^ 23) \<le> sint (quantize_signed_int24 v s) \<and> sint (quantize_signed_int24 v s) \<le> 2 ^ 23 - 1"
proof (cases "flt (dlit 0) s")
  case False
  then show ?thesis by (simp add: quantize_signed_int24_def)
next
  case True
  consider "isfinite (fdiv v s)" | "isinf (fdiv v s)" | "isnan (fdiv v s)" using isfinite_iff by blast
  then show ?thesis
    using True clamp_rounded_finite [of "fdiv v s" kInt24Min kInt24Max] clamp_rounded_inf [of "fdiv v s"]
      clamp_rounded_nan [of "fdiv v s"]
    by cases (simp_all add: quantize_signed_int24_def)
qed

section \<open>The packed quaternion\<close>

lemma scaled_component_le: "uint (scaled_component v) \<le> 1023"
proof -
  define y where "y = round_half_to_even (fmul
     (fdiv (fsub (let c = (if flt v kQuatComponentMin then kQuatComponentMin else v) in
        if flt kQuatComponentMax c then kQuatComponentMax else c) kQuatComponentMin)
        (fsub kQuatComponentMax kQuatComponentMin)) (double_of_int kMax10Bit))"
  define a where "a = (if \<not> fle (dlit 0) y then dlit 0 else y)"
  define b where "b = (if flt (double_of_int kMax10Bit) a then double_of_int kMax10Bit else a)"
  have m: "isfinite (double_of_int kMax10Bit)" "fval (double_of_int kMax10Bit) = 1023"
    using fval_fl_int [of 1023] by (simp_all add: double_of_int_def kMax10Bit_def)
  have k: "okey (dlit 0) \<le> okey a" "\<not> isnan a"
    using dlit_small(1) by (auto simp: a_def fle_def isfinite_iff)
  have b: "okey (dlit 0) \<le> okey b" "okey b \<le> okey (double_of_int kMax10Bit)"
    using k m rkey_mono [of 0 1023] by (auto simp: b_def flt_def isfinite_iff double_of_int_def dlit_def kMax10Bit_def)
  then have "sval (okey (dlit 0)) \<le> fval b" "fval b \<le> sval (okey (double_of_int kMax10Bit))"
    unfolding fval_okey [of b] by simp_all
  then have "0 \<le> fval b" "fval b \<le> 1023" using m(2) by (simp_all flip: fval_okey)
  then have "0 \<le> double_to_int b" "double_to_int b \<le> 1023"
    using floor_mono [of "fval b" 1023] by (auto simp: double_to_int_def trunc_rat_def)
  moreover have "scaled_component v = word_of_int (double_to_int b)"
    unfolding scaled_component_def Let_def b_def a_def y_def ..
  ultimately show ?thesis by (simp add: uint_word_of_int)
qed

lemma scaled_component_take: "scaled_component v = take_bit 10 (scaled_component v)"
proof -
  have "uint (take_bit 10 (scaled_component v)) = uint (scaled_component v)"
    using scaled_component_le [of v]
    by (simp add: unsigned_take_bit_eq take_bit_int_eq_self)
  then show ?thesis by (rule unsigned_word_eqI [symmetric])
qed

lemma pack_fields:
  fixes i a b c :: u32
  assumes "i = take_bit 2 i" "a = take_bit 10 a" "b = take_bit 10 b" "c = take_bit 10 c"
  defines "p \<equiv> ((push_bit 30 i OR push_bit 20 a) OR push_bit 10 b) OR c"
  shows "drop_bit 30 p AND 0x3 = i" "drop_bit 20 p AND 0x3FF = a" "drop_bit 10 p AND 0x3FF = b" "p AND 0x3FF = c"
proof -
  have m: "(0x3 :: u32) = mask 2" "(0x3FF :: u32) = mask 10" by (simp_all add: mask_eq_exp_minus_1)
  have h: "2 \<le> n \<Longrightarrow> \<not> bit i n" "10 \<le> n \<Longrightarrow> \<not> bit a n" "10 \<le> n \<Longrightarrow> \<not> bit b n"
    "10 \<le> n \<Longrightarrow> \<not> bit c n" for n
    using assms(1-4) by (metis bit_take_bit_iff not_le)+
  have p: "bit p n \<longleftrightarrow> 30 \<le> n \<and> bit i (n - 30) \<or> 20 \<le> n \<and> bit a (n - 20) \<or>
      10 \<le> n \<and> bit b (n - 10) \<or> bit c n" if "n < 32" for n
    using that unfolding p_def by (auto simp: bit_simps)
  note bits = bit_and_iff bit_drop_bit_eq bit_mask_iff p h not_less
  have eq: "x = y" if "\<And>n. n < k \<Longrightarrow> bit x n = bit y n" "\<And>n. k \<le> n \<Longrightarrow> \<not> bit x n \<and> \<not> bit y n"
    for x y :: u32 and k
    by (rule bit_word_eqI) (use that in \<open>meson not_le\<close>)
  show "drop_bit 30 p AND 0x3 = i" unfolding m by (rule eq [of 2]) (simp_all add: bits)
  show "drop_bit 20 p AND 0x3FF = a" unfolding m by (rule eq [of 10]) (simp_all add: bits)
  show "drop_bit 10 p AND 0x3FF = b" unfolding m by (rule eq [of 10]) (simp_all add: bits)
  show "p AND 0x3FF = c" unfolding m by (rule eq [of 10]) (simp_all add: bits)
qed

text \<open>The three components that are sent: all but the largest.\<close>

definition others :: "'a list \<Rightarrow> nat \<Rightarrow> 'a list" where
  "others values largest_index = map (\<lambda>i. values ! i) (filter (\<lambda>i. i \<noteq> largest_index) [0..<4])"

lemma upt4: "[0..<4] = [0, 1, 2, 3 :: nat]"
  by (simp add: upt_rec)

lemma pack_components_fields:
  assumes "li < 4"
  shows "unat (drop_bit 30 (pack_components vs li) AND 0x3) = li"
    and "map scaled_component (others vs li) =
       [drop_bit 20 (pack_components vs li) AND 0x3FF, drop_bit 10 (pack_components vs li) AND 0x3FF,
        pack_components vs li AND 0x3FF]"
proof -
  from assms consider "li = 0" | "li = 1" | "li = 2" | "li = 3" by linarith
  then obtain a b c where o: "map scaled_component (others vs li) = [a, b, c]"
    and p: "pack_components vs li = ((push_bit 30 (word_of_nat li) OR push_bit 20 a) OR push_bit 10 b) OR c"
    and s: "a \<in> range scaled_component" "b \<in> range scaled_component" "c \<in> range scaled_component"
    by cases (auto simp: others_def pack_components_def upt4)
  have t: "w = take_bit 10 w" if "w \<in> range scaled_component" for w
    using that scaled_component_take by auto
  have "(word_of_nat li :: u32) = take_bit 2 (word_of_nat li)"
    using assms by (simp add: take_bit_of_nat take_bit_nat_eq_self)
  from pack_fields [OF this t [OF s(1)] t [OF s(2)] t [OF s(3)]] assms
  show "unat (drop_bit 30 (pack_components vs li) AND 0x3) = li"
    and "map scaled_component (others vs li) =
       [drop_bit 20 (pack_components vs li) AND 0x3FF, drop_bit 10 (pack_components vs li) AND 0x3FF,
        pack_components vs li AND 0x3FF]"
    unfolding o p by (simp_all add: unat_word_of_nat)
qed

lemma largest_index_of_dominates:
  assumes "\<And>i. i < 4 \<Longrightarrow> \<not> isnan (a ! i)"
  shows "largest_index_of a < 4" and "i < 4 \<Longrightarrow> fle (a ! i) (a ! largest_index_of a)"
proof -
  have n: "\<not> isnan (a ! 0)" "\<not> isnan (a ! 1)" "\<not> isnan (a ! 2)" "\<not> isnan (a ! 3)" using assms by simp_all
  have u: "[Suc 0..<4] = [1, 2, 3]" by (simp add: upt_rec)
  show "largest_index_of a < 4" by (auto simp: largest_index_of_def u)
  assume "i < 4"
  then consider "i = 0" | "i = 1" | "i = 2" | "i = 3" by linarith
  then show "fle (a ! i) (a ! largest_index_of a)"
    using n by cases (auto simp: largest_index_of_def u fle_def flt_def)
qed

section \<open>Properties\<close>

lemma rne_spec: "\<bar>of_int (rne y) - y\<bar> = 1 / 2 \<Longrightarrow> even (rne y)"
  unfolding rne_def Let_def by (auto simp: abs_if split: if_splits) linarith+

text \<open>C16. \<open>round_half_to_even\<close> returns, for every finite double, an integer at distance at most
  one half, and the even one of the two candidates at distance exactly one half, although the
  fraction it compares with 0.5 is itself the result of a rounded subtraction.\<close>

theorem round_half_to_even_correct:
  assumes "isfinite x"
  shows "\<exists>k :: int. isfinite (round_half_to_even x) \<and> fval (round_half_to_even x) = of_int k \<and>
    \<bar>of_int k - fval x\<bar> \<le> 1 / 2 \<and> (\<bar>of_int k - fval x\<bar> = 1 / 2 \<longrightarrow> even k)"
  using round_half_to_even_exact [OF assms] rne_error [of "fval x"] rne_spec [of "fval x"] by blast

theorem round_half_to_even_correct_witness:
  "\<exists>k :: int. isfinite (round_half_to_even (dlit (1 / 2))) \<and>
     fval (round_half_to_even (dlit (1 / 2))) = of_int k \<and>
     \<bar>of_int k - fval (dlit (1 / 2))\<bar> \<le> 1 / 2 \<and>
     (\<bar>of_int k - fval (dlit (1 / 2))\<bar> = 1 / 2 \<longrightarrow> even k)"
  by (rule round_half_to_even_correct [OF dlit_half(1)])

text \<open>C17. Quantisation followed by the receiver's dequantisation is the identity on the grid: every
  24 bit grid value and every 16 bit grid value survives a second encoding unchanged, for every
  scale between \<open>2^-900\<close> and \<open>2^900\<close>, the four scales of the protocol among them.\<close>

theorem quantize_inverts_dequantize:
  fixes v :: i32 and w :: i16
  assumes "scale_ok s" "- (2 ^ 23) \<le> sint v" "sint v \<le> 2 ^ 23 - 1"
  shows "quantize_signed_int24 (dequantize_signed v s) s = v \<and>
    quantize_signed (dequantize_signed (scast w) s) s = w"
  using quantize_dequantize_int24 [OF assms] quantize_dequantize_int16 [OF assms(1)] by simp

theorem quantize_inverts_dequantize_witness:
  "quantize_signed_int24 (dequantize_signed (- 12345) kAbsPosScale) kAbsPosScale = - 12345 \<and>
   quantize_signed (dequantize_signed (scast (- 321 :: i16)) kAbsPosScale) kAbsPosScale = - 321"
  by (rule quantize_inverts_dequantize [OF protocol_scales_ok(1)]) simp_all

text \<open>C18. A coordinate inside the range of the 24 bit encoding is received within half a
  quantisation step (up to \<open>2^-28\<close> of a step for the three floating-point roundings).\<close>

theorem quantization_error_bound:
  assumes "isfinite x" "scale_ok s" "\<bar>fval x / fval s\<bar> \<le> 2 ^ 23 - 1"
  shows "\<bar>fval (dequantize_signed (quantize_signed_int24 x s) s) - fval x\<bar> \<le> fval s * (1 / 2 + 1 / 2 ^ 28)"
  by (rule quantize_error [OF assms])

theorem quantization_error_bound_witness:
  "\<bar>fval (dequantize_signed (quantize_signed_int24 (dlit 1) kAbsPosScale) kAbsPosScale) - fval (dlit 1)\<bar>
     \<le> fval kAbsPosScale * (1 / 2 + 1 / 2 ^ 28)"
  by (rule quantization_error_bound [OF dlit_small(3) protocol_scales_ok(1)]) code_simp

text \<open>The 24 bit quantiser is total: for every pair of doubles its result lies in the 24 bit
  range (so \<open>write_i24\<close> never clamps it); NaN quotients give 0, infinite ones saturate by sign, and
  finite ones give the round-half-to-even of the quotient, saturated.\<close>

lemma quantize_int24_total:
  "let r = quantize_signed_int24 v s; y = fdiv v s in
     - (2 ^ 23) \<le> sint r \<and> sint r \<le> 2 ^ 23 - 1 \<and> clamp_i24 r = r \<and>
     (flt (dlit 0) s \<longrightarrow>
       (isnan y \<longrightarrow> r = 0) \<and>
       (isinf y \<longrightarrow> r = (if neg y then kInt24Min else kInt24Max)) \<and>
       (isfinite y \<longrightarrow> sint r = max (- (2 ^ 23)) (min (2 ^ 23 - 1) (rne (fval y)))))"
proof -
  let ?r = "quantize_signed_int24 v s" and ?y = "fdiv v s"
  have f: "isfinite ?y \<Longrightarrow> flt (dlit 0) s \<Longrightarrow> sint ?r = max (- (2 ^ 23)) (min (2 ^ 23 - 1) (rne (fval ?y)))"
    using clamp_rounded_finite [of ?y kInt24Min kInt24Max] by (simp add: quantize_signed_int24_def)
  have i: "isinf ?y \<Longrightarrow> flt (dlit 0) s \<Longrightarrow> ?r = (if neg ?y then kInt24Min else kInt24Max)"
    using clamp_rounded_inf [of ?y] by (simp add: quantize_signed_int24_def)
  have n: "isnan ?y \<Longrightarrow> ?r = 0" by (simp add: quantize_signed_int24_def clamp_rounded_nan)
  show ?thesis using quantize_signed_int24_range [of v s] f i n by (auto simp: Let_def clamp_i24_def)
qed

lemma quantize_int24_total_example:
  "flt (dlit 0) kAbsPosScale \<and> isfinite (fdiv (dlit (37 / 1000)) kAbsPosScale) \<and>
   sint (quantize_signed_int24 (dlit (37 / 1000)) kAbsPosScale) = 4"
proof -
  have h: "flt (dlit 0) kAbsPosScale" "isfinite (fdiv (dlit (37 / 1000)) kAbsPosScale)" by code_simp+
  have "rne (fval (fdiv (dlit (37 / 1000)) kAbsPosScale)) = 4" by code_simp
  with h quantize_int24_total [of "dlit (37 / 1000)" kAbsPosScale] show ?thesis by (simp add: Let_def)
qed

text \<open>C19. The packed quaternion: bits 30 and 31 name a component whose magnitude is not exceeded by
  any other (the first such), and the other three components, in order and with the sign that
  makes the omitted one non-negative, fill the three 10 bit fields; the fields never overlap.\<close>

theorem compress_quaternion_layout:
  "let n = normalize_quaternion q; values = [qx n, qy n, qz n, qw n];
       li = largest_index_of (map fabs values);
       signed = (if flt (values ! li) (dlit 0) then map fneg values else values);
       packed = compress_quaternion_smallest_three q
   in unat (drop_bit 30 packed AND 0x3) = li \<and>
      [drop_bit 20 packed AND 0x3FF, drop_bit 10 packed AND 0x3FF, packed AND 0x3FF] =
        map scaled_component (others signed li) \<and>
      ((\<forall>i<4. \<not> isnan (values ! i)) \<longrightarrow> (\<forall>i<4. fle (fabs (values ! i)) (fabs (values ! li))))"
proof -
  define n vs li where "n = normalize_quaternion q" and "vs = [qx n, qy n, qz n, qw n]"
    and "li = largest_index_of (map fabs vs)"
  have u: "[Suc 0..<4] = [1, 2, 3]" by (simp add: upt_rec)
  have li: "li < 4" by (auto simp: li_def largest_index_of_def u)
  have v: "map fabs vs ! i = fabs (vs ! i)" if "i < 4" for i
    using that by (intro nth_map) (simp add: vs_def)
  have "fle (fabs (vs ! i)) (fabs (vs ! li))"
    if "\<forall>i<4. \<not> isnan (vs ! i)" "i < 4" for i
    using largest_index_of_dominates(2) [of "map fabs vs" i] that li v by (simp add: isnan_def flip: li_def)
  moreover have c: "compress_quaternion_smallest_three q =
      pack_components (if flt (vs ! li) (dlit 0) then map fneg vs else vs) li"
    by (simp only: compress_quaternion_smallest_three_def Let_def li_def vs_def n_def)
  ultimately show ?thesis
    using pack_components_fields [OF li] by (simp only: Let_def flip: n_def vs_def li_def) simp
qed

theorem compress_quaternion_layout_witness:
  "let packed = compress_quaternion_smallest_three (Quat qnan (dlit 1) (dlit 1) (dlit 1)) in
     unat (drop_bit 30 packed AND 0x3) = 3 \<and>
     [drop_bit 20 packed AND 0x3FF, drop_bit 10 packed AND 0x3FF, packed AND 0x3FF] =
       map scaled_component [dlit 0, dlit 0, dlit 0]"
proof -
  let ?q = "Quat qnan (dlit 1) (dlit 1) (dlit 1)" and ?w = "[dlit 0, dlit 0, dlit 0, dlit 1]"
  have nan: "isnan qnan" by code_simp
  then have "normalize_quaternion ?q = Quat (dlit 0) (dlit 0) (dlit 0) (dlit 1)"
    by (simp add: normalize_quaternion_def fmul_def fadd_def isfinite_iff)
  then have n: "[qx (normalize_quaternion ?q), qy (normalize_quaternion ?q),
      qz (normalize_quaternion ?q), qw (normalize_quaternion ?q)] = ?w" by simp
  have l: "largest_index_of (map fabs ?w) = 3" by code_simp
  have s: "flt (?w ! 3) (dlit 0) = False" by code_simp
  show ?thesis
    using compress_quaternion_layout [of ?q] unfolding Let_def n l s if_False
    by (simp add: others_def upt4)
qed

end
