(* ===== verification/Protocol_V8.thy ===== *)
theory Protocol_V8
  imports Pose_Codec
begin

text \<open>
  \<open>src/protocol/message_types.hpp\<close> and \<open>src/protocol/protocol_v8.*\<close>: the message structures of
  protocol v8, one serialiser and one deserialiser per message, the flag helpers, and the pose
  body shared by the client pose and the room pose. A deserialiser returns \<^const>\<open>None\<close> where the
  source returns \<open>false\<close>; what it leaves in its output parameter on failure is not part of the
  result (no caller reads it).
\<close>

section \<open>Constants (message_types.hpp)\<close>

definition kProtocolVersion :: u8 where "kProtocolVersion = 8"

definition MSG_RPC :: u8 where "MSG_RPC = 3"
definition MSG_DEVICE_ID_MAPPING :: u8 where "MSG_DEVICE_ID_MAPPING = 6"
definition MSG_GLOBAL_VAR_SET :: u8 where "MSG_GLOBAL_VAR_SET = 7"
definition MSG_GLOBAL_VAR_SYNC :: u8 where "MSG_GLOBAL_VAR_SYNC = 8"
definition MSG_CLIENT_VAR_SET :: u8 where "MSG_CLIENT_VAR_SET = 9"
definition MSG_CLIENT_VAR_SYNC :: u8 where "MSG_CLIENT_VAR_SYNC = 10"
definition MSG_CLIENT_POSE :: u8 where "MSG_CLIENT_POSE = 11"
definition MSG_ROOM_POSE :: u8 where "MSG_ROOM_POSE = 12"
definition MSG_OBJECT_POSE :: u8 where "MSG_OBJECT_POSE = 13"
definition MSG_ROOM_OBJECTS :: u8 where "MSG_ROOM_OBJECTS = 14"
definition MSG_OBJECT_OWNERSHIP_REQUEST :: u8 where "MSG_OBJECT_OWNERSHIP_REQUEST = 15"
definition MSG_OBJECT_OWNERSHIP_CHANGED :: u8 where "MSG_OBJECT_OWNERSHIP_CHANGED = 16"
definition MSG_OBJECT_OWNERSHIP_REJECTED :: u8 where "MSG_OBJECT_OWNERSHIP_REJECTED = 17"
definition MSG_CLIENT_VAR_CLEAR :: u8 where "MSG_CLIENT_VAR_CLEAR = 18"
definition MSG_CLIENT_HELLO :: u8 where "MSG_CLIENT_HELLO = 19"

lemmas msg_defs = MSG_RPC_def MSG_DEVICE_ID_MAPPING_def MSG_GLOBAL_VAR_SET_def
  MSG_GLOBAL_VAR_SYNC_def MSG_CLIENT_VAR_SET_def MSG_CLIENT_VAR_SYNC_def MSG_CLIENT_POSE_def
  MSG_ROOM_POSE_def MSG_OBJECT_POSE_def MSG_ROOM_OBJECTS_def MSG_OBJECT_OWNERSHIP_REQUEST_def
  MSG_OBJECT_OWNERSHIP_CHANGED_def MSG_OBJECT_OWNERSHIP_REJECTED_def MSG_CLIENT_VAR_CLEAR_def
  MSG_CLIENT_HELLO_def

definition kClientHelloFlagStealth :: u8 where "kClientHelloFlagStealth = 0x01"

definition POSE_FLAG_STEALTH :: u8 where "POSE_FLAG_STEALTH = push_bit 0 1"
definition POSE_FLAG_PHYSICAL_VALID :: u8 where "POSE_FLAG_PHYSICAL_VALID = push_bit 1 1"
definition POSE_FLAG_HEAD_VALID :: u8 where "POSE_FLAG_HEAD_VALID = push_bit 2 1"
definition POSE_FLAG_RIGHT_VALID :: u8 where "POSE_FLAG_RIGHT_VALID = push_bit 3 1"
definition POSE_FLAG_LEFT_VALID :: u8 where "POSE_FLAG_LEFT_VALID = push_bit 4 1"
definition POSE_FLAG_VIRTUALS_VALID :: u8 where "POSE_FLAG_VIRTUALS_VALID = push_bit 5 1"
definition POSE_FLAG_MOVING_FLOOR_LOCAL :: u8 where "POSE_FLAG_MOVING_FLOOR_LOCAL = push_bit 6 1"

lemmas pose_flag_defs = POSE_FLAG_STEALTH_def POSE_FLAG_PHYSICAL_VALID_def POSE_FLAG_HEAD_VALID_def
  POSE_FLAG_RIGHT_VALID_def POSE_FLAG_LEFT_VALID_def POSE_FLAG_VIRTUALS_VALID_def
  POSE_FLAG_MOVING_FLOOR_LOCAL_def

definition ENCODING_PHYSICAL_YAW_ONLY :: u8 where "ENCODING_PHYSICAL_YAW_ONLY = push_bit 0 1"
definition ENCODING_RIGHT_REL_HEAD :: u8 where "ENCODING_RIGHT_REL_HEAD = push_bit 1 1"
definition ENCODING_LEFT_REL_HEAD :: u8 where "ENCODING_LEFT_REL_HEAD = push_bit 2 1"
definition ENCODING_VIRTUAL_REL_HEAD :: u8 where "ENCODING_VIRTUAL_REL_HEAD = push_bit 3 1"
definition ENCODING_PHYSICAL_IS_XRORIGIN_DELTA :: u8 where
  "ENCODING_PHYSICAL_IS_XRORIGIN_DELTA = push_bit 4 1"
definition ENCODING_FLAGS_DEFAULT :: u8 where
  "ENCODING_FLAGS_DEFAULT = ENCODING_PHYSICAL_YAW_ONLY OR ENCODING_RIGHT_REL_HEAD OR
     ENCODING_LEFT_REL_HEAD OR ENCODING_VIRTUAL_REL_HEAD OR ENCODING_PHYSICAL_IS_XRORIGIN_DELTA"

lemmas encoding_flag_defs = ENCODING_PHYSICAL_YAW_ONLY_def ENCODING_RIGHT_REL_HEAD_def
  ENCODING_LEFT_REL_HEAD_def ENCODING_VIRTUAL_REL_HEAD_def
  ENCODING_PHYSICAL_IS_XRORIGIN_DELTA_def ENCODING_FLAGS_DEFAULT_def

definition OWNERSHIP_OP_RELEASE :: u8 where "OWNERSHIP_OP_RELEASE = 1"
definition OWNERSHIP_OP_REQUEST :: u8 where "OWNERSHIP_OP_REQUEST = 2"

definition kMaxVirtualTransforms :: nat where "kMaxVirtualTransforms = 50"
definition kMaxVariableNameChars :: nat where "kMaxVariableNameChars = 64"
definition kMaxVariableValueChars :: nat where "kMaxVariableValueChars = 1024"

definition kObjectTopicSuffix :: string where
  "kObjectTopicSuffix = [CHR 0x00, CHR ''o'', CHR ''b'', CHR ''j'']"

section \<open>Message structures (protocol_v8.hpp)\<close>

record PoseTransform =
  pt_position :: Vec3
  pt_rotation :: Quat

definition PoseTransform_default :: PoseTransform where
  "PoseTransform_default = \<lparr>pt_position = Vec3_default, pt_rotation = Quat_default\<rparr>"

record ClientPoseBody =
  pb_pose_seq :: u16
  pb_flags :: u8
  pb_encoding_flags :: u8
  pb_xr_origin_delta_position :: Vec3
  pb_xr_origin_delta_yaw :: double
  pb_physical :: PoseTransform
  pb_head :: PoseTransform
  pb_right_hand :: PoseTransform
  pb_left_hand :: PoseTransform
  pb_virtuals :: "PoseTransform list"

record ClientHelloMessage =
  ch_device_id :: string
  ch_flags :: u8

definition hello_is_stealth :: "ClientHelloMessage \<Rightarrow> bool" where
  "hello_is_stealth message \<longleftrightarrow> ch_flags message AND kClientHelloFlagStealth \<noteq> 0"

record ClientPoseMessage =
  cp_device_id :: string
  cp_body :: ClientPoseBody

record RoomPoseClient =
  rpc_client_no :: u16
  rpc_pose_time :: double
  rpc_body :: ClientPoseBody

record RoomPoseMessage =
  rp_room_id :: string
  rp_broadcast_time :: double
  rp_clients :: "RoomPoseClient list"

record RpcMessage =
  rm_sender_client_no :: u16
  rm_device_id :: string
  rm_target_client_nos :: "u16 list"
  rm_function_name :: string
  rm_arguments_json :: string

record DeviceIdMappingEntry =
  me_client_no :: u16
  me_device_id :: string
  me_is_stealth :: bool

record DeviceIdMappingMessage =
  dm_server_version_major :: u8
  dm_server_version_minor :: u8
  dm_server_version_patch :: u8
  dm_mappings :: "DeviceIdMappingEntry list"

record GlobalVarSetMessage =
  gs_sender_client_no :: u16
  gs_device_id :: string
  gs_variable_name :: string
  gs_variable_value :: string

record ClientVarSetMessage =
  cs_sender_client_no :: u16
  cs_device_id :: string
  cs_target_client_no :: u16
  cs_variable_name :: string
  cs_variable_value :: string

record ClientVarClearMessage =
  cc_sender_client_no :: u16
  cc_device_id :: string

record NetworkVariableEntry =
  nv_name :: string
  nv_value :: string
  nv_last_writer_client_no :: u16

type_synonym GlobalVarSyncMessage = "NetworkVariableEntry list"
type_synonym ClientVarSyncMessage = "(u16 \<times> NetworkVariableEntry list) list"

record ObjectPoseMessage =
  op_device_id :: string
  op_object_id :: u32
  op_pose_seq :: u16
  op_position :: Vec3
  op_rotation :: Quat

record RoomObjectState =
  ro_object_id :: u32
  ro_owner_client_no :: u16
  ro_pose_seq :: u16
  ro_pose_time :: double
  ro_position :: Vec3
  ro_rotation :: Quat

record RoomObjectsMessage =
  rom_broadcast_time :: double
  rom_objects :: "RoomObjectState list"

record ObjectOwnershipRequestMessage =
  or_device_id :: string
  or_operation_type :: u8
  or_object_id :: u32

record ObjectOwnershipChangedMessage =
  oc_object_id :: u32
  oc_new_owner_client_no :: u16
  oc_previous_owner_client_no :: u16

record ObjectOwnershipRejectedMessage =
  oj_object_id :: u32
  oj_current_owner_client_no :: u16
  oj_reason_code :: u8

section \<open>Flag helpers\<close>

definition sanitize_pose_flags :: "u8 \<Rightarrow> u8" where
  "sanitize_pose_flags flags =
     (if flags AND POSE_FLAG_STEALTH \<noteq> 0 then POSE_FLAG_STEALTH
      else if flags AND POSE_FLAG_HEAD_VALID = 0 then
        flags AND NOT (POSE_FLAG_RIGHT_VALID OR POSE_FLAG_LEFT_VALID OR POSE_FLAG_VIRTUALS_VALID)
      else flags)"

definition compute_encoding_flags :: "u8 \<Rightarrow> u8" where
  "compute_encoding_flags flags =
     (if flags AND POSE_FLAG_MOVING_FLOOR_LOCAL \<noteq> 0
      then ENCODING_FLAGS_DEFAULT AND NOT ENCODING_PHYSICAL_IS_XRORIGIN_DELTA
      else ENCODING_FLAGS_DEFAULT)"

definition clamp_variable_name :: "string \<Rightarrow> string" where
  "clamp_variable_name name = truncate_utf8_code_points name kMaxVariableNameChars"

definition clamp_variable_value :: "string \<Rightarrow> string" where
  "clamp_variable_value value = truncate_utf8_code_points value kMaxVariableValueChars"

section \<open>The pose body\<close>

text \<open>\<open>write_if c w\<close> is the \<open>if\<close> statement with no \<open>else\<close>.\<close>

definition write_if :: "bool \<Rightarrow> ('s, unit) state \<Rightarrow> ('s, unit) state" where
  "write_if c w = (if c then w else State_Monad.return ())"

definition write_relative :: "Vec3 \<Rightarrow> Quat \<Rightarrow> PoseTransform \<Rightarrow> (bytes, unit) state" where
  "write_relative head_position inv_head_rot transform =
     (let rot = normalize_quaternion (pt_rotation transform);
          rel_pos = Vec3 (fsub (x_of (pt_position transform)) (x_of head_position))
                      (fsub (y_of (pt_position transform)) (y_of head_position))
                      (fsub (z_of (pt_position transform)) (z_of head_position));
          rel_rot = quaternion_multiply inv_head_rot rot
      in do {
        write_i16 (quantize_signed (x_of rel_pos) kRelPosScale);
        write_i16 (quantize_signed (y_of rel_pos) kRelPosScale);
        write_i16 (quantize_signed (z_of rel_pos) kRelPosScale);
        write_u32 (compress_quaternion_smallest_three rel_rot) })"

definition write_pose_body :: "libm \<Rightarrow> ClientPoseBody \<Rightarrow> (bytes, unit) state" where
  "write_pose_body lm body =
     (let flags = sanitize_pose_flags (pb_flags body);
          encoding_flags = compute_encoding_flags flags;
          physical_valid = (flags AND POSE_FLAG_PHYSICAL_VALID \<noteq> 0);
          head_valid = (flags AND POSE_FLAG_HEAD_VALID \<noteq> 0);
          right_valid = (head_valid \<and> flags AND POSE_FLAG_RIGHT_VALID \<noteq> 0);
          left_valid = (head_valid \<and> flags AND POSE_FLAG_LEFT_VALID \<noteq> 0);
          virtual_valid = (head_valid \<and> flags AND POSE_FLAG_VIRTUALS_VALID \<noteq> 0);
          moving_floor_local = (flags AND POSE_FLAG_MOVING_FLOOR_LOCAL \<noteq> 0);
          head_rot_normalized = normalize_quaternion (pt_rotation (pb_head body));
          inv_head_rot = quaternion_inverse head_rot_normalized;
          head_position = pt_position (pb_head body);
          virtual_count = (if virtual_valid then min (length (pb_virtuals body)) kMaxVirtualTransforms else 0)
      in do {
        write_u16 (pb_pose_seq body);
        write_u8 flags;
        write_u8 encoding_flags;
        write_if physical_valid
          (if moving_floor_local then do {
             let physical_yaw = quaternion_to_yaw_degrees lm (pt_rotation (pb_physical body));
             write_i16 (quantize_signed (x_of (pt_position (pb_physical body))) kLocoPosScale);
             write_i16 (quantize_signed (y_of (pt_position (pb_physical body))) kLocoPosScale);
             write_i16 (quantize_signed (z_of (pt_position (pb_physical body))) kLocoPosScale);
             write_i16 (quantize_signed physical_yaw kPhysicalYawScale) }
           else do {
             write_i16 (quantize_signed (x_of (pb_xr_origin_delta_position body)) kLocoPosScale);
             write_i16 (quantize_signed (y_of (pb_xr_origin_delta_position body)) kLocoPosScale);
             write_i16 (quantize_signed (z_of (pb_xr_origin_delta_position body)) kLocoPosScale);
             write_i16 (quantize_signed (pb_xr_origin_delta_yaw body) kPhysicalYawScale) });
        write_if head_valid (do {
          write_i24 (quantize_signed_int24 (x_of head_position) kAbsPosScale);
          write_i24 (quantize_signed_int24 (y_of head_position) kAbsPosScale);
          write_i24 (quantize_signed_int24 (z_of head_position) kAbsPosScale);
          write_u32 (compress_quaternion_smallest_three head_rot_normalized) });
        write_if right_valid (write_relative head_position inv_head_rot (pb_right_hand body));
        write_if left_valid (write_relative head_position inv_head_rot (pb_left_hand body));
        write_u8 (word_of_nat virtual_count);
        foreach (take virtual_count (pb_virtuals body)) (write_relative head_position inv_head_rot) })"

definition relative_transform :: "Vec3 \<Rightarrow> Quat \<Rightarrow> i16 \<Rightarrow> i16 \<Rightarrow> i16 \<Rightarrow> u32 \<Rightarrow> PoseTransform" where
  "relative_transform head_pos head_rot rx ry rz packed =
     (let rel_pos = Vec3 (dequantize_signed (scast rx) kRelPosScale)
                      (dequantize_signed (scast ry) kRelPosScale)
                      (dequantize_signed (scast rz) kRelPosScale);
          rel_rot = decompress_quaternion_smallest_three packed
      in \<lparr>pt_position = Vec3 (fadd (x_of head_pos) (x_of rel_pos)) (fadd (y_of head_pos) (y_of rel_pos))
                          (fadd (z_of head_pos) (z_of rel_pos)),
          pt_rotation = normalize_quaternion (quaternion_multiply head_rot rel_rot)\<rparr>)"

text \<open>The transform a failed read leaves is the default one: every caller passes a fresh one.\<close>

definition read_relative :: "Vec3 \<Rightarrow> Quat \<Rightarrow> (reader, PoseTransform) state" where
  "read_relative head_pos head_rot = do {
     rx \<leftarrow> read_i16;
     ry \<leftarrow> read_i16;
     rz \<leftarrow> read_i16;
     packed \<leftarrow> read_u32;
     ok \<leftarrow> reader_ok;
     State_Monad.return
       (if \<not> ok then PoseTransform_default else relative_transform head_pos head_rot rx ry rz packed) }"

primrec read_virtuals ::
  "nat \<Rightarrow> bool \<Rightarrow> Vec3 \<Rightarrow> Quat \<Rightarrow> PoseTransform list \<Rightarrow> (reader, PoseTransform list option) state" where
  "read_virtuals 0 virtual_valid head_pos head_rot virtuals = State_Monad.return (Some virtuals)"
| "read_virtuals (Suc n) virtual_valid head_pos head_rot virtuals = do {
     entry \<leftarrow> read_relative head_pos head_rot;
     unless_ok
       (read_virtuals n virtual_valid head_pos head_rot
         (if virtual_valid then virtuals @ [entry] else virtuals)) }"

text \<open>The physical transform the decoder reconstructs.\<close>

definition reconstruct_physical ::
  "libm \<Rightarrow> bool \<Rightarrow> bool \<Rightarrow> bool \<Rightarrow> i16 \<Rightarrow> i16 \<Rightarrow> i16 \<Rightarrow> i16 \<Rightarrow> Vec3 \<Rightarrow> double \<Rightarrow> Vec3 \<Rightarrow> Quat \<Rightarrow> PoseTransform" where
  "reconstruct_physical lm physical_valid moving_floor_local head_valid dx_q dy_q dz_q dyaw_q
     delta_position delta_yaw head_pos head_rot =
     (if physical_valid \<and> moving_floor_local then
        \<lparr>pt_position = Vec3 (dequantize_signed (scast dx_q) kLocoPosScale)
            (dequantize_signed (scast dy_q) kLocoPosScale) (dequantize_signed (scast dz_q) kLocoPosScale),
         pt_rotation = yaw_degrees_to_quaternion lm (dequantize_signed (scast dyaw_q) kPhysicalYawScale)\<rparr>
      else if physical_valid \<and> head_valid then
        let translated = Vec3 (fsub (x_of head_pos) (x_of delta_position))
                           (fsub (y_of head_pos) (y_of delta_position))
                           (fsub (z_of head_pos) (z_of delta_position));
            head_yaw = quaternion_to_yaw_degrees lm head_rot;
            physical_yaw = normalize_yaw_degrees (fsub head_yaw delta_yaw)
        in \<lparr>pt_position = rotate_yaw_vector lm translated (fneg delta_yaw),
            pt_rotation = yaw_degrees_to_quaternion lm physical_yaw\<rparr>
      else PoseTransform_default)"

text \<open>
  \<open>read_quad c\<close> and \<open>read_head c\<close> are the two conditional groups of reads of \<open>read_pose_body\<close>,
  with the values the variables keep when the group is skipped.
\<close>

definition read_quad :: "bool \<Rightarrow> (reader, i16 \<times> i16 \<times> i16 \<times> i16) state" where
  "read_quad physical_valid =
     (if physical_valid then do {
        dx_q \<leftarrow> read_i16;
        dy_q \<leftarrow> read_i16;
        dz_q \<leftarrow> read_i16;
        dyaw_q \<leftarrow> read_i16;
        State_Monad.return (dx_q, dy_q, dz_q, dyaw_q) }
      else State_Monad.return (0, 0, 0, 0))"

definition read_head :: "bool \<Rightarrow> (reader, (i32 \<times> i32 \<times> i32 \<times> u32) option) state" where
  "read_head head_valid =
     (if head_valid then do {
        hx \<leftarrow> read_i24;
        hy \<leftarrow> read_i24;
        hz \<leftarrow> read_i24;
        packed_head \<leftarrow> read_u32;
        State_Monad.return (Some (hx, hy, hz, packed_head)) }
      else State_Monad.return None)"

definition read_optional :: "bool \<Rightarrow> Vec3 \<Rightarrow> Quat \<Rightarrow> (reader, PoseTransform) state" where
  "read_optional valid head_pos head_rot =
     (if valid then read_relative head_pos head_rot else State_Monad.return PoseTransform_default)"

definition read_pose_body :: "libm \<Rightarrow> (reader, ClientPoseBody option) state" where
  "read_pose_body lm = do {
     pose_seq \<leftarrow> read_u16;
     flags \<leftarrow> read_u8;
     encoding_flags \<leftarrow> read_u8;
     unless_ok (
       let physical_valid = (flags AND POSE_FLAG_PHYSICAL_VALID \<noteq> 0);
           head_valid = (flags AND POSE_FLAG_HEAD_VALID \<noteq> 0);
           right_valid = (head_valid \<and> flags AND POSE_FLAG_RIGHT_VALID \<noteq> 0);
           left_valid = (head_valid \<and> flags AND POSE_FLAG_LEFT_VALID \<noteq> 0);
           virtual_valid = (head_valid \<and> flags AND POSE_FLAG_VIRTUALS_VALID \<noteq> 0);
           moving_floor_local = (flags AND POSE_FLAG_MOVING_FLOOR_LOCAL \<noteq> 0)
       in if physical_valid \<and> \<not> moving_floor_local \<and>
             encoding_flags AND ENCODING_PHYSICAL_IS_XRORIGIN_DELTA = 0
          then State_Monad.return None
          else do {
            quad \<leftarrow> read_quad physical_valid;
            let (dx_q, dy_q, dz_q, dyaw_q) = quad;
            let delta_position =
              (if physical_valid \<and> \<not> moving_floor_local
               then Vec3 (dequantize_signed (scast dx_q) kLocoPosScale)
                      (dequantize_signed (scast dy_q) kLocoPosScale)
                      (dequantize_signed (scast dz_q) kLocoPosScale)
               else Vec3_default);
            let delta_yaw =
              (if physical_valid \<and> \<not> moving_floor_local
               then dequantize_signed (scast dyaw_q) kPhysicalYawScale else dlit 0);
            head \<leftarrow> read_head head_valid;
            ok \<leftarrow> reader_ok;
            if head_valid \<and> \<not> ok then State_Monad.return None
            else do {
              let head_pos = (case head of None \<Rightarrow> Vec3_default
                | Some (hx, hy, hz, packed_head) \<Rightarrow>
                    Vec3 (dequantize_signed hx kAbsPosScale) (dequantize_signed hy kAbsPosScale)
                      (dequantize_signed hz kAbsPosScale));
              let head_rot = (case head of None \<Rightarrow> Quat_default
                | Some (hx, hy, hz, packed_head) \<Rightarrow> decompress_quaternion_smallest_three packed_head);
              let physical = reconstruct_physical lm physical_valid moving_floor_local head_valid
                dx_q dy_q dz_q dyaw_q delta_position delta_yaw head_pos head_rot;
              right_hand \<leftarrow> read_optional right_valid head_pos head_rot;
              left_hand \<leftarrow> read_optional left_valid head_pos head_rot;
              virtual_count \<leftarrow> read_u8;
              unless_ok (do {
                let virtual_count = (if word_of_nat kMaxVirtualTransforms < virtual_count
                  then word_of_nat kMaxVirtualTransforms else virtual_count);
                virtuals \<leftarrow> read_virtuals (unat virtual_count) virtual_valid head_pos head_rot [];
                case virtuals of
                  None \<Rightarrow> State_Monad.return None
                | Some virtuals \<Rightarrow> finish \<lparr>
                    pb_pose_seq = pose_seq, pb_flags = flags, pb_encoding_flags = encoding_flags,
                    pb_xr_origin_delta_position = delta_position, pb_xr_origin_delta_yaw = delta_yaw,
                    pb_physical = physical,
                    pb_head = \<lparr>pt_position = head_pos, pt_rotation = head_rot\<rparr>,
                    pb_right_hand = right_hand, pb_left_hand = left_hand, pb_virtuals = virtuals\<rparr> }) } }) }"

section \<open>Serialisers, client to server\<close>

definition serialize_client_hello :: "string \<Rightarrow> bool \<Rightarrow> bytes" where
  "serialize_client_hello device_id is_stealth = take_buffer (do {
     write_u8 MSG_CLIENT_HELLO;
     write_u8 kProtocolVersion;
     write_u8 (if is_stealth then kClientHelloFlagStealth else 0);
     write_string8 device_id })"

definition serialize_client_pose :: "libm \<Rightarrow> ClientPoseMessage \<Rightarrow> bytes" where
  "serialize_client_pose lm message = take_buffer (do {
     write_u8 MSG_CLIENT_POSE;
     write_u8 kProtocolVersion;
     write_string8 (cp_device_id message);
     write_pose_body lm (cp_body message) })"

definition serialize_stealth_handshake_pose :: "string \<Rightarrow> bytes" where
  "serialize_stealth_handshake_pose device_id = take_buffer (do {
     write_u8 MSG_CLIENT_POSE;
     write_u8 kProtocolVersion;
     write_string8 device_id;
     write_u16 0;
     write_u8 POSE_FLAG_STEALTH;
     write_u8 ENCODING_FLAGS_DEFAULT;
     write_u8 0 })"

definition serialize_rpc :: "RpcMessage \<Rightarrow> bytes" where
  "serialize_rpc message = take_buffer (do {
     write_u8 MSG_RPC;
     write_u16 (rm_sender_client_no message);
     write_string8 (rm_device_id message);
     let target_count = min (length (rm_target_client_nos message)) 255;
     write_u8 (word_of_nat target_count);
     foreach (take target_count (rm_target_client_nos message)) write_u16;
     write_string8 (rm_function_name message);
     write_string16 (rm_arguments_json message) })"

definition serialize_global_var_set :: "GlobalVarSetMessage \<Rightarrow> bytes" where
  "serialize_global_var_set message = take_buffer (do {
     write_u8 MSG_GLOBAL_VAR_SET;
     write_u16 (gs_sender_client_no message);
     write_string8 (gs_device_id message);
     write_string8 (clamp_variable_name (gs_variable_name message));
     write_string16 (clamp_variable_value (gs_variable_value message)) })"

definition serialize_client_var_set :: "ClientVarSetMessage \<Rightarrow> bytes" where
  "serialize_client_var_set message = take_buffer (do {
     write_u8 MSG_CLIENT_VAR_SET;
     write_u16 (cs_sender_client_no message);
     write_string8 (cs_device_id message);
     write_u16 (cs_target_client_no message);
     write_string8 (clamp_variable_name (cs_variable_name message));
     write_string16 (clamp_variable_value (cs_variable_value message)) })"

definition serialize_client_var_clear :: "ClientVarClearMessage \<Rightarrow> bytes" where
  "serialize_client_var_clear message = take_buffer (do {
     write_u8 MSG_CLIENT_VAR_CLEAR;
     write_u16 (cc_sender_client_no message);
     write_string8 (cc_device_id message) })"

definition serialize_object_pose :: "ObjectPoseMessage \<Rightarrow> bytes" where
  "serialize_object_pose message = take_buffer (do {
     write_u8 MSG_OBJECT_POSE;
     write_u8 kProtocolVersion;
     write_string8 (op_device_id message);
     write_u32 (op_object_id message);
     write_u16 (op_pose_seq message);
     write_i24 (quantize_signed_int24 (x_of (op_position message)) kAbsPosScale);
     write_i24 (quantize_signed_int24 (y_of (op_position message)) kAbsPosScale);
     write_i24 (quantize_signed_int24 (z_of (op_position message)) kAbsPosScale);
     write_u32 (compress_quaternion_smallest_three (op_rotation message)) })"

definition serialize_object_ownership_request :: "ObjectOwnershipRequestMessage \<Rightarrow> bytes" where
  "serialize_object_ownership_request message = take_buffer (do {
     write_u8 MSG_OBJECT_OWNERSHIP_REQUEST;
     write_u8 kProtocolVersion;
     write_string8 (or_device_id message);
     write_u8 (or_operation_type message);
     write_u32 (or_object_id message) })"

section \<open>Serialisers, server-originated\<close>

text \<open>
  The element counts are \<open>static_cast<std::uint16_t>(size)\<close>, a truncation; the loops write every
  element.
\<close>

definition write_room_pose_client :: "libm \<Rightarrow> RoomPoseClient \<Rightarrow> (bytes, unit) state" where
  "write_room_pose_client lm client = do {
     write_u16 (rpc_client_no client);
     write_f64 (rpc_pose_time client);
     write_pose_body lm (rpc_body client) }"

definition serialize_room_pose :: "libm \<Rightarrow> RoomPoseMessage \<Rightarrow> bytes" where
  "serialize_room_pose lm message = take_buffer (do {
     write_u8 MSG_ROOM_POSE;
     write_u8 kProtocolVersion;
     write_string8 (rp_room_id message);
     write_f64 (rp_broadcast_time message);
     write_u16 (word_of_nat (length (rp_clients message)));
     foreach (rp_clients message) (write_room_pose_client lm) })"

definition write_mapping_entry :: "DeviceIdMappingEntry \<Rightarrow> (bytes, unit) state" where
  "write_mapping_entry entry = do {
     write_u16 (me_client_no entry);
     write_u8 (if me_is_stealth entry then 0x01 else 0x00);
     write_string8 (me_device_id entry) }"

definition serialize_device_id_mapping :: "DeviceIdMappingMessage \<Rightarrow> bytes" where
  "serialize_device_id_mapping message = take_buffer (do {
     write_u8 MSG_DEVICE_ID_MAPPING;
     write_u8 (dm_server_version_major message);
     write_u8 (dm_server_version_minor message);
     write_u8 (dm_server_version_patch message);
     write_u16 (word_of_nat (length (dm_mappings message)));
     foreach (dm_mappings message) write_mapping_entry })"

definition write_variable_entry :: "NetworkVariableEntry \<Rightarrow> (bytes, unit) state" where
  "write_variable_entry entry = do {
     write_string8 (clamp_variable_name (nv_name entry));
     write_string16 (clamp_variable_value (nv_value entry));
     write_u16 (nv_last_writer_client_no entry) }"

definition serialize_global_var_sync :: "GlobalVarSyncMessage \<Rightarrow> bytes" where
  "serialize_global_var_sync message = take_buffer (do {
     write_u8 MSG_GLOBAL_VAR_SYNC;
     write_u16 (word_of_nat (length message));
     foreach message write_variable_entry })"

definition write_client_variables :: "u16 \<times> NetworkVariableEntry list \<Rightarrow> (bytes, unit) state" where
  "write_client_variables client = do {
     write_u16 (fst client);
     write_u16 (word_of_nat (length (snd client)));
     foreach (snd client) write_variable_entry }"

definition serialize_client_var_sync :: "ClientVarSyncMessage \<Rightarrow> bytes" where
  "serialize_client_var_sync message = take_buffer (do {
     write_u8 MSG_CLIENT_VAR_SYNC;
     write_u16 (word_of_nat (length message));
     foreach message write_client_variables })"

definition write_object_state :: "RoomObjectState \<Rightarrow> (bytes, unit) state" where
  "write_object_state object = do {
     write_u32 (ro_object_id object);
     write_u16 (ro_owner_client_no object);
     write_u16 (ro_pose_seq object);
     write_f64 (ro_pose_time object);
     write_i24 (quantize_signed_int24 (x_of (ro_position object)) kAbsPosScale);
     write_i24 (quantize_signed_int24 (y_of (ro_position object)) kAbsPosScale);
     write_i24 (quantize_signed_int24 (z_of (ro_position object)) kAbsPosScale);
     write_u32 (compress_quaternion_smallest_three (ro_rotation object)) }"

definition serialize_room_objects :: "RoomObjectsMessage \<Rightarrow> bytes" where
  "serialize_room_objects message = take_buffer (do {
     write_u8 MSG_ROOM_OBJECTS;
     write_u8 kProtocolVersion;
     write_f64 (rom_broadcast_time message);
     write_u16 (word_of_nat (length (rom_objects message)));
     foreach (rom_objects message) write_object_state })"

definition serialize_object_ownership_changed :: "ObjectOwnershipChangedMessage \<Rightarrow> bytes" where
  "serialize_object_ownership_changed message = take_buffer (do {
     write_u8 MSG_OBJECT_OWNERSHIP_CHANGED;
     write_u32 (oc_object_id message);
     write_u16 (oc_new_owner_client_no message);
     write_u16 (oc_previous_owner_client_no message) })"

definition serialize_object_ownership_rejected :: "ObjectOwnershipRejectedMessage \<Rightarrow> bytes" where
  "serialize_object_ownership_rejected message = take_buffer (do {
     write_u8 MSG_OBJECT_OWNERSHIP_REJECTED;
     write_u32 (oj_object_id message);
     write_u16 (oj_current_owner_client_no message);
     write_u8 (oj_reason_code message) })"

section \<open>Deserialisers\<close>

definition peek_message_type :: "bytes \<Rightarrow> u8" where
  "peek_message_type data = (if data = [] then 0 else data ! 0)"

definition begin_message :: "u8 \<Rightarrow> bool \<Rightarrow> (reader, bool) state" where
  "begin_message expected_type has_version = do {
     message_type \<leftarrow> read_u8;
     if message_type \<noteq> expected_type then State_Monad.return False
     else if has_version then do {
       version \<leftarrow> read_u8;
       if version \<noteq> kProtocolVersion then State_Monad.return False else reader_ok }
     else reader_ok }"

definition message_program :: "u8 \<Rightarrow> bool \<Rightarrow> (reader, 'm option) state \<Rightarrow> (reader, 'm option) state" where
  "message_program expected_type has_version body = do {
     begun \<leftarrow> begin_message expected_type has_version;
     if \<not> begun then State_Monad.return None else body }"

definition message_body :: "u8 \<Rightarrow> bool \<Rightarrow> (reader, 'm option) state \<Rightarrow> bytes \<Rightarrow> 'm option" where
  "message_body expected_type has_version body = run_reader (message_program expected_type has_version body)"

definition client_hello_body :: "(reader, ClientHelloMessage option) state" where
  "client_hello_body = do {
     flags \<leftarrow> read_u8;
     device_id \<leftarrow> read_string8;
     finish \<lparr>ch_device_id = device_id, ch_flags = flags\<rparr> }"

definition deserialize_client_hello :: "bytes \<Rightarrow> ClientHelloMessage option" where
  "deserialize_client_hello = message_body MSG_CLIENT_HELLO True client_hello_body"

definition client_pose_body :: "libm \<Rightarrow> (reader, ClientPoseMessage option) state" where
  "client_pose_body lm = do {
     device_id \<leftarrow> read_string8;
     unless_ok (do {
       body \<leftarrow> read_pose_body lm;
       State_Monad.return (map_option (\<lambda>b. \<lparr>cp_device_id = device_id, cp_body = b\<rparr>) body) }) }"

definition deserialize_client_pose :: "libm \<Rightarrow> bytes \<Rightarrow> ClientPoseMessage option" where
  "deserialize_client_pose lm = message_body MSG_CLIENT_POSE True (client_pose_body lm)"

definition read_room_pose_client :: "libm \<Rightarrow> (reader, RoomPoseClient option) state" where
  "read_room_pose_client lm = do {
     client_no \<leftarrow> read_u16;
     pose_time \<leftarrow> read_f64;
     unless_ok (do {
       body \<leftarrow> read_pose_body lm;
       State_Monad.return (map_option
         (\<lambda>b. \<lparr>rpc_client_no = client_no, rpc_pose_time = pose_time, rpc_body = b\<rparr>) body) }) }"

definition room_pose_body :: "libm \<Rightarrow> (reader, RoomPoseMessage option) state" where
  "room_pose_body lm = do {
     room_id \<leftarrow> read_string8;
     broadcast_time \<leftarrow> read_f64;
     client_count \<leftarrow> read_u16;
     unless_ok (do {
       clients \<leftarrow> read_entries (unat client_count) (read_room_pose_client lm);
       case clients of
         None \<Rightarrow> State_Monad.return None
       | Some cs \<Rightarrow> finish \<lparr>rp_room_id = room_id, rp_broadcast_time = broadcast_time, rp_clients = cs\<rparr> }) }"

definition deserialize_room_pose :: "libm \<Rightarrow> bytes \<Rightarrow> RoomPoseMessage option" where
  "deserialize_room_pose lm = message_body MSG_ROOM_POSE True (room_pose_body lm)"

text \<open>The target loop of \<open>deserialize_rpc\<close>, which does not test the reader between elements.\<close>

primrec read_targets :: "nat \<Rightarrow> (reader, u16 list) state" where
  "read_targets 0 = State_Monad.return []"
| "read_targets (Suc n) = do {
     target \<leftarrow> read_u16;
     targets \<leftarrow> read_targets n;
     State_Monad.return (target # targets) }"

definition rpc_body_reader :: "(reader, RpcMessage option) state" where
  "rpc_body_reader = do {
     sender_client_no \<leftarrow> read_u16;
     device_id \<leftarrow> read_string8;
     target_count \<leftarrow> read_u8;
     unless_ok (do {
       targets \<leftarrow> read_targets (unat target_count);
       function_name \<leftarrow> read_string8;
       arguments_json \<leftarrow> read_string16;
       finish \<lparr>rm_sender_client_no = sender_client_no, rm_device_id = device_id,
         rm_target_client_nos = targets, rm_function_name = function_name,
         rm_arguments_json = arguments_json\<rparr> }) }"

definition deserialize_rpc :: "bytes \<Rightarrow> RpcMessage option" where
  "deserialize_rpc = message_body MSG_RPC False rpc_body_reader"

definition read_mapping_entry :: "(reader, DeviceIdMappingEntry option) state" where
  "read_mapping_entry = do {
     client_no \<leftarrow> read_u16;
     stealth \<leftarrow> read_u8;
     device_id \<leftarrow> read_string8;
     finish \<lparr>me_client_no = client_no, me_device_id = device_id, me_is_stealth = (stealth = 0x01)\<rparr> }"

definition device_id_mapping_body :: "(reader, DeviceIdMappingMessage option) state" where
  "device_id_mapping_body = do {
     major \<leftarrow> read_u8;
     minor \<leftarrow> read_u8;
     patch \<leftarrow> read_u8;
     count \<leftarrow> read_u16;
     unless_ok (do {
       mappings \<leftarrow> read_entries (unat count) read_mapping_entry;
       case mappings of
         None \<Rightarrow> State_Monad.return None
       | Some ms \<Rightarrow> finish \<lparr>dm_server_version_major = major, dm_server_version_minor = minor,
           dm_server_version_patch = patch, dm_mappings = ms\<rparr> }) }"

definition deserialize_device_id_mapping :: "bytes \<Rightarrow> DeviceIdMappingMessage option" where
  "deserialize_device_id_mapping = message_body MSG_DEVICE_ID_MAPPING False device_id_mapping_body"

definition global_var_set_body :: "(reader, GlobalVarSetMessage option) state" where
  "global_var_set_body = do {
     sender_client_no \<leftarrow> read_u16;
     device_id \<leftarrow> read_string8;
     variable_name \<leftarrow> read_string8;
     variable_value \<leftarrow> read_string16;
     finish \<lparr>gs_sender_client_no = sender_client_no, gs_device_id = device_id,
       gs_variable_name = variable_name, gs_variable_value = variable_value\<rparr> }"

definition deserialize_global_var_set :: "bytes \<Rightarrow> GlobalVarSetMessage option" where
  "deserialize_global_var_set = message_body MSG_GLOBAL_VAR_SET False global_var_set_body"

definition read_variable_entry :: "(reader, NetworkVariableEntry option) state" where
  "read_variable_entry = do {
     name \<leftarrow> read_string8;
     value \<leftarrow> read_string16;
     last_writer_client_no \<leftarrow> read_u16;
     finish \<lparr>nv_name = name, nv_value = value, nv_last_writer_client_no = last_writer_client_no\<rparr> }"

definition global_var_sync_body :: "(reader, GlobalVarSyncMessage option) state" where
  "global_var_sync_body = do {
     count \<leftarrow> read_u16;
     unless_ok (do {
       variables \<leftarrow> read_entries (unat count) read_variable_entry;
       case variables of None \<Rightarrow> State_Monad.return None | Some vs \<Rightarrow> finish vs }) }"

definition deserialize_global_var_sync :: "bytes \<Rightarrow> GlobalVarSyncMessage option" where
  "deserialize_global_var_sync = message_body MSG_GLOBAL_VAR_SYNC False global_var_sync_body"

definition client_var_set_body :: "(reader, ClientVarSetMessage option) state" where
  "client_var_set_body = do {
     sender_client_no \<leftarrow> read_u16;
     device_id \<leftarrow> read_string8;
     target_client_no \<leftarrow> read_u16;
     variable_name \<leftarrow> read_string8;
     variable_value \<leftarrow> read_string16;
     finish \<lparr>cs_sender_client_no = sender_client_no, cs_device_id = device_id,
       cs_target_client_no = target_client_no, cs_variable_name = variable_name,
       cs_variable_value = variable_value\<rparr> }"

definition deserialize_client_var_set :: "bytes \<Rightarrow> ClientVarSetMessage option" where
  "deserialize_client_var_set = message_body MSG_CLIENT_VAR_SET False client_var_set_body"

definition read_client_variables :: "(reader, (u16 \<times> NetworkVariableEntry list) option) state" where
  "read_client_variables = do {
     client_no \<leftarrow> read_u16;
     var_count \<leftarrow> read_u16;
     unless_ok (do {
       entries \<leftarrow> read_entries (unat var_count) read_variable_entry;
       State_Monad.return (map_option (\<lambda>vs. (client_no, vs)) entries) }) }"

definition client_var_sync_body :: "(reader, ClientVarSyncMessage option) state" where
  "client_var_sync_body = do {
     client_count \<leftarrow> read_u16;
     unless_ok (do {
       clients \<leftarrow> read_entries (unat client_count) read_client_variables;
       case clients of None \<Rightarrow> State_Monad.return None | Some cs \<Rightarrow> finish cs }) }"

definition deserialize_client_var_sync :: "bytes \<Rightarrow> ClientVarSyncMessage option" where
  "deserialize_client_var_sync = message_body MSG_CLIENT_VAR_SYNC False client_var_sync_body"

definition client_var_clear_body :: "(reader, ClientVarClearMessage option) state" where
  "client_var_clear_body = do {
     sender_client_no \<leftarrow> read_u16;
     device_id \<leftarrow> read_string8;
     finish \<lparr>cc_sender_client_no = sender_client_no, cc_device_id = device_id\<rparr> }"

definition deserialize_client_var_clear :: "bytes \<Rightarrow> ClientVarClearMessage option" where
  "deserialize_client_var_clear = message_body MSG_CLIENT_VAR_CLEAR False client_var_clear_body"

definition dequantize_position :: "i32 \<Rightarrow> i32 \<Rightarrow> i32 \<Rightarrow> Vec3" where
  "dequantize_position px py pz = Vec3 (dequantize_signed px kAbsPosScale)
     (dequantize_signed py kAbsPosScale) (dequantize_signed pz kAbsPosScale)"

definition object_pose_body :: "(reader, ObjectPoseMessage option) state" where
  "object_pose_body = do {
     device_id \<leftarrow> read_string8;
     object_id \<leftarrow> read_u32;
     pose_seq \<leftarrow> read_u16;
     px \<leftarrow> read_i24;
     py \<leftarrow> read_i24;
     pz \<leftarrow> read_i24;
     packed \<leftarrow> read_u32;
     unless_ok (State_Monad.return (Some
       \<lparr>op_device_id = device_id, op_object_id = object_id, op_pose_seq = pose_seq,
        op_position = dequantize_position px py pz,
        op_rotation = decompress_quaternion_smallest_three packed\<rparr>)) }"

definition deserialize_object_pose :: "bytes \<Rightarrow> ObjectPoseMessage option" where
  "deserialize_object_pose = message_body MSG_OBJECT_POSE True object_pose_body"

definition read_object_state :: "(reader, RoomObjectState option) state" where
  "read_object_state = do {
     object_id \<leftarrow> read_u32;
     owner_client_no \<leftarrow> read_u16;
     pose_seq \<leftarrow> read_u16;
     pose_time \<leftarrow> read_f64;
     px \<leftarrow> read_i24;
     py \<leftarrow> read_i24;
     pz \<leftarrow> read_i24;
     packed \<leftarrow> read_u32;
     unless_ok (State_Monad.return (Some
       \<lparr>ro_object_id = object_id, ro_owner_client_no = owner_client_no, ro_pose_seq = pose_seq,
        ro_pose_time = pose_time, ro_position = dequantize_position px py pz,
        ro_rotation = decompress_quaternion_smallest_three packed\<rparr>)) }"

definition room_objects_body :: "(reader, RoomObjectsMessage option) state" where
  "room_objects_body = do {
     broadcast_time \<leftarrow> read_f64;
     object_count \<leftarrow> read_u16;
     unless_ok (do {
       objects \<leftarrow> read_entries (unat object_count) read_object_state;
       case objects of
         None \<Rightarrow> State_Monad.return None
       | Some os \<Rightarrow> finish \<lparr>rom_broadcast_time = broadcast_time, rom_objects = os\<rparr> }) }"

definition deserialize_room_objects :: "bytes \<Rightarrow> RoomObjectsMessage option" where
  "deserialize_room_objects = message_body MSG_ROOM_OBJECTS True room_objects_body"

definition object_ownership_request_body :: "(reader, ObjectOwnershipRequestMessage option) state" where
  "object_ownership_request_body = do {
     device_id \<leftarrow> read_string8;
     operation_type \<leftarrow> read_u8;
     object_id \<leftarrow> read_u32;
     finish \<lparr>or_device_id = device_id, or_operation_type = operation_type, or_object_id = object_id\<rparr> }"

definition deserialize_object_ownership_request :: "bytes \<Rightarrow> ObjectOwnershipRequestMessage option" where
  "deserialize_object_ownership_request =
     message_body MSG_OBJECT_OWNERSHIP_REQUEST True object_ownership_request_body"

definition object_ownership_changed_body :: "(reader, ObjectOwnershipChangedMessage option) state" where
  "object_ownership_changed_body = do {
     object_id \<leftarrow> read_u32;
     new_owner_client_no \<leftarrow> read_u16;
     previous_owner_client_no \<leftarrow> read_u16;
     finish \<lparr>oc_object_id = object_id, oc_new_owner_client_no = new_owner_client_no,
       oc_previous_owner_client_no = previous_owner_client_no\<rparr> }"

definition deserialize_object_ownership_changed :: "bytes \<Rightarrow> ObjectOwnershipChangedMessage option" where
  "deserialize_object_ownership_changed =
     message_body MSG_OBJECT_OWNERSHIP_CHANGED False object_ownership_changed_body"

definition object_ownership_rejected_body :: "(reader, ObjectOwnershipRejectedMessage option) state" where
  "object_ownership_rejected_body = do {
     object_id \<leftarrow> read_u32;
     current_owner_client_no \<leftarrow> read_u16;
     reason_code \<leftarrow> read_u8;
     finish \<lparr>oj_object_id = object_id, oj_current_owner_client_no = current_owner_client_no,
       oj_reason_code = reason_code\<rparr> }"

definition deserialize_object_ownership_rejected :: "bytes \<Rightarrow> ObjectOwnershipRejectedMessage option" where
  "deserialize_object_ownership_rejected =
     message_body MSG_OBJECT_OWNERSHIP_REJECTED False object_ownership_rejected_body"

end
