(* ===== verification/Ordered_Map.thy ===== *)
theory Ordered_Map
  imports Prelude
begin

text \<open>
  \<open>std::map\<close>: a finite map whose iteration order is the order of the keys. The sources
  iterate over such maps when they send, flush and report, so the order is observable. A map
  is a list of entries with strictly ascending keys; equality is extensional
  (\<open>om_eqI\<close>), and every operation computes.
\<close>

fun alist_insert :: "'k::linorder \<Rightarrow> 'v \<Rightarrow> ('k \<times> 'v) list \<Rightarrow> ('k \<times> 'v) list" where
  "alist_insert k v [] = [(k, v)]"
| "alist_insert k v ((k', v') # xs) =
     (if k < k' then (k, v) # (k', v') # xs
      else if k = k' then (k, v) # xs
      else (k', v') # alist_insert k v xs)"

definition ascending :: "('k::linorder \<times> 'v) list \<Rightarrow> bool" where
  "ascending xs \<longleftrightarrow> sorted_wrt (<) (map fst xs)"

lemma set_alist_insert: "fst ` set (alist_insert k v xs) = insert k (fst ` set xs)"
  by (induction k v xs rule: alist_insert.induct) auto

lemma ascending_Nil [simp]: "ascending []"
  by (simp add: ascending_def)

lemma ascending_Cons:
  "ascending ((k, v) # xs) \<longleftrightarrow> (\<forall>k' \<in> fst ` set xs. k < k') \<and> ascending xs"
  by (simp add: ascending_def)

lemma ascending_insert: "ascending xs \<Longrightarrow> ascending (alist_insert k v xs)"
  by (induction k v xs rule: alist_insert.induct) (auto simp: ascending_Cons set_alist_insert)

lemma ascending_filter: "ascending xs \<Longrightarrow> ascending (filter P xs)"
proof (induction xs)
  case (Cons x xs)
  then show ?case by (cases x) (auto simp: ascending_Cons)
qed simp

lemma ascending_map_snd: "ascending (map (\<lambda>(k, v). (k, f k v)) xs) = ascending xs"
  by (simp add: ascending_def comp_def case_prod_unfold)

lemma ascending_distinct: "ascending xs \<Longrightarrow> distinct (map fst xs)"
  by (simp add: ascending_def strict_sorted_iff)

lemma map_of_alist_insert:
  "ascending xs \<Longrightarrow> map_of (alist_insert k v xs) = (map_of xs)(k \<mapsto> v)"
  by (induction k v xs rule: alist_insert.induct) (auto simp: ascending_Cons fun_eq_iff)

lemma entries_from_keys:
  "distinct (map fst xs) \<Longrightarrow> xs = map (\<lambda>k. (k, the (map_of xs k))) (map fst xs)"
proof (intro nth_equalityI)
  fix i assume d: "distinct (map fst xs)" and "i < length xs"
  then have "map_of xs (fst (xs ! i)) = Some (snd (xs ! i))"
    by (simp add: map_of_eq_Some_iff)
  then show "xs ! i = map (\<lambda>k. (k, the (map_of xs k))) (map fst xs) ! i"
    using \<open>i < length xs\<close> by (simp add: prod_eq_iff)
qed simp

lemma ascending_unique:
  assumes "ascending xs" "ascending ys" "map_of xs = map_of ys"
  shows "xs = ys"
proof -
  have "set (map fst xs) = set (map fst ys)"
    using assms(3) by (metis dom_map_of_conv_image_fst list.set_map)
  then have "map fst xs = map fst ys"
    using assms(1,2) by (intro strict_sorted_equal) (simp_all add: ascending_def)
  then show ?thesis
    using entries_from_keys [OF ascending_distinct] assms by metis
qed

typedef (overloaded) ('k::linorder, 'v) omap = "{xs :: ('k \<times> 'v) list. ascending xs}"
  morphisms om_entries Abs_omap
  by (rule exI [of _ "[]"]) simp

setup_lifting type_definition_omap

lift_definition om_empty :: "('k::linorder, 'v) omap" is "[]" by simp

lift_definition om_insert :: "'k::linorder \<Rightarrow> 'v \<Rightarrow> ('k, 'v) omap \<Rightarrow> ('k, 'v) omap"
  is alist_insert by (rule ascending_insert)

lift_definition om_filter :: "('k::linorder \<Rightarrow> 'v \<Rightarrow> bool) \<Rightarrow> ('k, 'v) omap \<Rightarrow> ('k, 'v) omap"
  is "\<lambda>P. filter (\<lambda>(k, v). P k v)" by (rule ascending_filter)

lift_definition om_map :: "('k::linorder \<Rightarrow> 'v \<Rightarrow> 'w) \<Rightarrow> ('k, 'v) omap \<Rightarrow> ('k, 'w) omap"
  is "\<lambda>f. map (\<lambda>(k, v). (k, f k v))" by (simp add: ascending_map_snd)

definition om_find :: "('k::linorder, 'v) omap \<Rightarrow> 'k \<Rightarrow> 'v option" where
  "om_find m k = map_of (om_entries m) k"

definition om_erase :: "'k::linorder \<Rightarrow> ('k, 'v) omap \<Rightarrow> ('k, 'v) omap" where
  "om_erase k m = om_filter (\<lambda>k' _. k' \<noteq> k) m"

definition om_keys :: "('k::linorder, 'v) omap \<Rightarrow> 'k list" where
  "om_keys m = map fst (om_entries m)"

definition om_size :: "('k::linorder, 'v) omap \<Rightarrow> nat" where
  "om_size m = length (om_entries m)"

instantiation omap :: (linorder, equal) equal
begin

definition equal_omap :: "('a, 'b) omap \<Rightarrow> ('a, 'b) omap \<Rightarrow> bool" where
  "equal_omap a b \<longleftrightarrow> om_entries a = om_entries b"

instance
  by standard (simp add: equal_omap_def om_entries_inject)

end

section \<open>The laws of the map operations\<close>

lemma ascending_entries [simp]: "ascending (om_entries m)"
  using om_entries by blast

lemma om_eqI: "(\<And>k. om_find a k = om_find b k) \<Longrightarrow> a = b"
  by (metis ascending_entries ascending_unique om_entries_inject om_find_def ext)

lemma om_find_empty [simp]: "om_find om_empty k = None"
  by (simp add: om_find_def om_empty.rep_eq)

lemma om_find_insert [simp]: "om_find (om_insert k v m) k' = (if k' = k then Some v else om_find m k')"
  by (simp add: om_find_def om_insert.rep_eq map_of_alist_insert)

lemma map_of_filter_ascending:
  "ascending xs \<Longrightarrow> map_of (filter (\<lambda>(k, v). P k v) xs) k =
     (case map_of xs k of None \<Rightarrow> None | Some v \<Rightarrow> if P k v then Some v else None)"
proof (induction xs)
  case (Cons x xs)
  obtain a b where x: "x = (a, b)" by (cases x)
  from Cons.prems have "a \<notin> fst ` set xs" and s: "ascending xs" by (auto simp: x ascending_Cons)
  then have "map_of xs a = None" by (simp add: map_of_eq_None_iff)
  with Cons.IH [OF s] show ?case by (auto simp: x)
qed simp

lemma om_find_filter:
  "om_find (om_filter P m) k =
     (case om_find m k of None \<Rightarrow> None | Some v \<Rightarrow> if P k v then Some v else None)"
  by (simp add: om_find_def om_filter.rep_eq map_of_filter_ascending)

lemma om_find_erase [simp]: "om_find (om_erase k m) k' = (if k' = k then None else om_find m k')"
  by (simp add: om_erase_def om_find_filter split: option.split)

lemma om_find_map: "om_find (om_map f m) k = map_option (f k) (om_find m k)"
proof -
  have "map_of (map (\<lambda>(k, v). (k, f k v)) xs) k = map_option (f k) (map_of xs k)" for xs
    by (induction xs) auto
  then show ?thesis by (simp add: om_find_def om_map.rep_eq)
qed

lemma om_entries_iff: "(k, v) \<in> set (om_entries m) \<longleftrightarrow> om_find m k = Some v"
  by (simp add: om_find_def ascending_distinct)

lemma om_keys_iff: "k \<in> set (om_keys m) \<longleftrightarrow> om_find m k \<noteq> None"
  by (auto simp: om_keys_def om_find_def map_of_eq_None_iff)

lemma distinct_om_keys [simp]: "distinct (om_keys m)"
  by (simp add: om_keys_def ascending_distinct)

lemma sorted_om_keys [simp]: "sorted_wrt (<) (om_keys m)"
  using ascending_entries [of m] by (simp add: om_keys_def ascending_def)

lemma om_keys_map [simp]: "om_keys (om_map f m) = om_keys m"
  by (simp add: om_keys_def om_map.rep_eq comp_def case_prod_unfold)

lemma om_size_eq_card: "om_size m = card {k. om_find m k \<noteq> None}"
proof -
  have "{k. om_find m k \<noteq> None} = set (om_keys m)" by (auto simp: om_keys_iff)
  then have "card {k. om_find m k \<noteq> None} = length (om_keys m)" by (simp add: distinct_card)
  then show ?thesis by (simp add: om_size_def om_keys_def)
qed

lemma om_size_insert:
  "om_size (om_insert k v m) = (if om_find m k = None then Suc (om_size m) else om_size m)"
proof -
  have "finite {k. om_find m k \<noteq> None}"
    by (rule finite_subset [of _ "set (om_keys m)"]) (auto simp: om_keys_iff)
  moreover have "{k'. om_find (om_insert k v m) k' \<noteq> None} = insert k {k'. om_find m k' \<noteq> None}"
    by auto
  ultimately show ?thesis by (simp add: om_size_eq_card insert_absorb card_insert_if)
qed

lemma om_size_filter: "om_size (om_filter P m) \<le> om_size m"
  by (simp add: om_size_def om_filter.rep_eq)

lemma om_size_erase: "om_size (om_erase k m) \<le> om_size m"
  by (simp add: om_erase_def om_size_filter)

lemma om_size_map [simp]: "om_size (om_map f m) = om_size m"
  by (simp add: om_size_def om_map.rep_eq)

lemma om_size_empty [simp]: "om_size om_empty = 0"
  by (simp add: om_size_def om_empty.rep_eq)

lemma om_entries_empty [simp]: "om_entries om_empty = []"
  by (simp add: om_empty.rep_eq)

lemma om_empty_iff: "m = om_empty \<longleftrightarrow> (\<forall>k. om_find m k = None)"
  by (auto intro: om_eqI)

end
