(* ===== verification/Text.thy ===== *)
theory Text
  imports Binary64
begin

text \<open>
  The conversions of the standard library that the sources use to build text: decimal integers
  (\<open>std::to_string\<close>, \<open>%lld\<close>), \<open>std::to_string(double)\<close> (\<open>%f\<close>), \<open>%.17g\<close>, and \<open>std::strtod\<close>, each by
  its exact value and one correct rounding, in the "C" locale.
\<close>

definition digit :: "nat \<Rightarrow> char" where
  "digit d = char_of (48 + d)"

function dec_pos :: "int \<Rightarrow> string" where
  "dec_pos n = (if n < 10 then [digit (nat n)] else dec_pos (n div 10) @ [digit (nat (n mod 10))])"
  by pat_completeness auto
termination
  by (relation "measure nat") auto

declare dec_pos.simps [simp del]

definition dec_nat :: "nat \<Rightarrow> string" where
  "dec_nat n = dec_pos (int n)"

definition dec_int :: "int \<Rightarrow> string" where
  "dec_int i = (if i < 0 then CHR ''-'' # dec_pos (- i) else dec_pos i)"

definition is_digit :: "char \<Rightarrow> bool" where
  "is_digit c \<longleftrightarrow> 48 \<le> (of_char c :: nat) \<and> (of_char c :: nat) \<le> 57"

definition digit_value :: "char \<Rightarrow> nat" where
  "digit_value c = of_char c - 48"

definition int_of_digits :: "string \<Rightarrow> int" where
  "int_of_digits ds = foldl (\<lambda>n c. 10 * n + int (digit_value c)) 0 ds"

lemma digit_value_digit [simp]: "d < 10 \<Longrightarrow> digit_value (digit d) = d"
  by (simp add: digit_value_def digit_def of_char_of)

lemma is_digit_digit [simp]: "d < 10 \<Longrightarrow> is_digit (digit d)"
  by (simp add: is_digit_def digit_def of_char_of)

lemma dec_pos_digits: "0 \<le> n \<Longrightarrow> list_all is_digit (dec_pos n)"
proof (induction n rule: dec_pos.induct)
  case (1 n)
  then show ?case by (subst dec_pos.simps) (auto simp: nat_less_iff)
qed

lemma dec_pos_Nil [simp]: "dec_pos n \<noteq> []"
  by (subst dec_pos.simps) simp

lemma int_of_dec_pos: "0 \<le> n \<Longrightarrow> int_of_digits (dec_pos n) = n"
proof (induction n rule: dec_pos.induct)
  case (1 n)
  have "nat (n mod 10) < 10" by (simp add: nat_less_iff)
  then show ?case using 1 by (subst dec_pos.simps) (auto simp: int_of_digits_def nat_less_iff)
qed

lemma dec_nat_digits: "list_all is_digit (dec_nat n)"
  by (simp add: dec_nat_def dec_pos_digits)

lemma int_of_dec_nat [simp]: "int_of_digits (dec_nat n) = int n"
  by (simp add: dec_nat_def int_of_dec_pos)

text \<open>\<open>%f\<close>: six decimals, round half to even on the exact value.\<close>

definition pad_left :: "nat \<Rightarrow> string \<Rightarrow> string" where
  "pad_left w s = replicate (w - length s) (CHR ''0'') @ s"

definition sign_text :: "double \<Rightarrow> string" where
  "sign_text x = (if neg x then ''-'' else '''')"

definition to_string_double :: "double \<Rightarrow> string" where
  "to_string_double x =
     (if isnan x then sign_text x @ ''nan''
      else if isinf x then sign_text x @ ''inf''
      else
        let n = rne (\<bar>fval x\<bar> * 10 ^ 6)
        in sign_text x @ dec_pos (n div 10 ^ 6) @ ''.'' @ pad_left 6 (dec_pos (n mod 10 ^ 6)))"

text \<open>\<open>%.17g\<close>: seventeen significant digits, without trailing zeros.\<close>

definition pow10 :: "int \<Rightarrow> rat" where
  "pow10 e = (if 0 \<le> e then of_int (10 ^ nat e) else 1 / of_int (10 ^ nat (- e)))"

definition ilog10 :: "rat \<Rightarrow> int" where
  "ilog10 v = (if 1 \<le> v then int (length (dec_pos \<lfloor>v\<rfloor>)) - 1
     else (let e = - int (length (dec_pos (\<lceil>1 / v\<rceil> - 1)))
           in if \<lceil>1 / v\<rceil> = 1 then 0 else e))"

definition strip_zeros :: "string \<Rightarrow> string" where
  "strip_zeros s = rev (dropWhile (\<lambda>c. c = CHR ''0'') (rev s))"

definition exponent_text :: "int \<Rightarrow> string" where
  "exponent_text e = (if e < 0 then ''e-'' else ''e+'') @ pad_left 2 (dec_pos \<bar>e\<bar>)"

definition with_fraction :: "string \<Rightarrow> string \<Rightarrow> string" where
  "with_fraction whole fraction = (if fraction = [] then whole else whole @ ''.'' @ fraction)"

definition format_g17 :: "double \<Rightarrow> string" where
  "format_g17 x =
     (if isnan x then sign_text x @ ''nan''
      else if isinf x then sign_text x @ ''inf''
      else if mag x = 0 then sign_text x @ ''0''
      else
        let v = \<bar>fval x\<bar>;
            e = ilog10 v;
            d = rne (v / pow10 (e - 16));
            (d, e) = (if d = 10 ^ 17 then (10 ^ 16, e + 1) else (d, e));
            ds = dec_pos d
        in sign_text x @
           (if - 4 \<le> e \<and> e < 17 then
              if 0 \<le> e then with_fraction (take (nat e + 1) ds) (strip_zeros (drop (nat e + 1) ds))
              else with_fraction ''0'' (replicate (nat (- e) - 1) (CHR ''0'') @ strip_zeros ds)
            else with_fraction (take 1 ds) (strip_zeros (drop 1 ds)) @ exponent_text e))"

text \<open>
  \<open>std::strtod\<close> on text of the shape sign, digits, fraction, exponent: an exponent without digits
  is not part of the number.
\<close>

definition strtod :: "string \<Rightarrow> double" where
  "strtod s =
     (let negative = (s \<noteq> [] \<and> hd s = CHR ''-'');
          s = (if s \<noteq> [] \<and> (hd s = CHR ''-'' \<or> hd s = CHR ''+'') then tl s else s);
          whole = takeWhile is_digit s;
          s = dropWhile is_digit s;
          fraction = (if s \<noteq> [] \<and> hd s = CHR ''.'' then takeWhile is_digit (tl s) else []);
          s = (if s \<noteq> [] \<and> hd s = CHR ''.'' then dropWhile is_digit (tl s) else s);
          e = (if s \<noteq> [] \<and> (hd s = CHR ''e'' \<or> hd s = CHR ''E'') then tl s else []);
          eneg = (e \<noteq> [] \<and> hd e = CHR ''-'');
          e = (if e \<noteq> [] \<and> (hd e = CHR ''-'' \<or> hd e = CHR ''+'') then tl e else e);
          exponent = int_of_digits (takeWhile is_digit e);
          m = of_int (int_of_digits (whole @ fraction)) *
              pow10 ((if eneg then - exponent else exponent) - int (length fraction))
      in fl negative (if negative then - m else m))"

end
