(* ===== verification/Ttl_Queue.thy ===== *)
theory Ttl_Queue
  imports Prelude
begin

text \<open>
  The discipline that the RPC manager and the transport share: a first-in first-out queue whose
  head is dropped when it has expired, sent when the sender takes it, and otherwise kept for the
  next round; one round sends at most a budget of entries. The loops of both components are shown
  equal to \<open>drain\<close>, and the facts below are proved once for every sender.
\<close>

fun drain :: "('e \<Rightarrow> bool) \<Rightarrow> ('e \<Rightarrow> 's \<Rightarrow> 's) \<Rightarrow> ('e \<Rightarrow> 's \<Rightarrow> bool \<times> 's) \<Rightarrow> nat \<Rightarrow> 'e list \<Rightarrow> 's \<Rightarrow> 'e list \<times> 's" where
  "drain expired discard transmit 0 queue s = (queue, s)"
| "drain expired discard transmit (Suc budget) [] s = ([], s)"
| "drain expired discard transmit (Suc budget) (e # queue) s =
     (if expired e then drain expired discard transmit (Suc budget) queue (discard e s)
      else case transmit e s of
        (True, s) \<Rightarrow> drain expired discard transmit budget queue s
      | (False, s) \<Rightarrow> (e # queue, s))"

lemma drain_Nil [simp]: "drain expired discard transmit budget [] s = ([], s)"
  by (cases budget) simp_all

text \<open>The entries that have not expired.\<close>

definition live :: "('e \<Rightarrow> bool) \<Rightarrow> 'e list \<Rightarrow> 'e list" where
  "live expired es = filter (\<lambda>e. \<not> expired e) es"

locale ttl_queue =
  fixes expired :: "'e \<Rightarrow> bool"
    and discard :: "'e \<Rightarrow> 's \<Rightarrow> 's"
    and transmit :: "'e \<Rightarrow> 's \<Rightarrow> bool \<times> 's"
    and message :: "'e \<Rightarrow> 'm"
    and out :: "'s \<Rightarrow> 'm list"
  assumes out_discard: "out (discard e s) = out s"
    and out_transmit: "transmit e s = (ok, s') \<Longrightarrow> out s' = (if ok then out s @ [message e] else out s)"
begin

text \<open>A round takes a prefix of the queue, sends the entries of it that have not expired, in their
  order, and stops when the queue is empty, the budget is used up, or the head is refused.\<close>

lemma drain_fifo:
  assumes "drain expired discard transmit budget queue s = (queue', s')"
  shows "\<exists>taken. queue = taken @ queue' \<and> out s' = out s @ map message (live expired taken) \<and>
    length (live expired taken) \<le> budget \<and>
    (queue' = [] \<or> length (live expired taken) = budget \<or> \<not> expired (hd queue'))"
  using assms
proof (induction queue arbitrary: budget s)
  case Nil
  then show ?case by (intro exI [of _ "[]"]) (simp add: live_def)
next
  case (Cons e q)
  obtain ok s1 where t: "transmit e s = (ok, s1)" by fastforce
  consider "budget = 0" | b where "budget = Suc b" "expired e" | b where "budget = Suc b" "\<not> expired e" ok
    | b where "budget = Suc b" "\<not> expired e" "\<not> ok"
    by (cases budget) auto
  then show ?case
  proof cases
    case 1
    then show ?thesis using Cons.prems by (intro exI [of _ "[]"]) (simp add: live_def)
  next
    case (2 b)
    then obtain taken where "q = taken @ queue'" "out s' = out (discard e s) @ map message (live expired taken)"
      "length (live expired taken) \<le> budget" "queue' = [] \<or> length (live expired taken) = budget \<or> \<not> expired (hd queue')"
      using Cons by fastforce
    then show ?thesis using 2 by (intro exI [of _ "e # taken"]) (simp add: live_def out_discard)
  next
    case (3 b)
    then obtain taken where "q = taken @ queue'" "out s' = out s1 @ map message (live expired taken)"
      "length (live expired taken) \<le> b" "queue' = [] \<or> length (live expired taken) = b \<or> \<not> expired (hd queue')"
      using Cons t by fastforce
    then show ?thesis using 3 out_transmit [OF t] by (intro exI [of _ "e # taken"]) (simp add: live_def)
  next
    case (4 b)
    then have "queue' = e # q" "s' = s1" using Cons.prems t by auto
    then show ?thesis using 4 out_transmit [OF t] by (intro exI [of _ "[]"]) (simp add: live_def)
  qed
qed

end

end
