(* ===== verification/Transport.thy ===== *)
theory Transport
  imports Protocol_V8 Ordered_Map Text Ttl_Queue
begin

text \<open>
  \<open>src/transport/zmq_transport.*\<close>: the endpoint builder, the topic classification, the outbound
  queues with their capacity, lifetime and latest-wins rules, the two-frame sends, the receive loops
  and the set-up of the network thread. libzmq is not part of the sources: the record \<open>Zmq\<close> holds
  the functions the transport calls, over a state \<open>'n\<close> of the library. The callbacks that the
  owner installs are functions on its own state \<open>'h\<close>. The steady clock is the sequence of the
  readings it gives, one for each call of \<open>monotonic_seconds\<close>.
\<close>

section \<open>Data\<close>

datatype TransportLane = LaneControl | LaneRoomPose | LaneRoomObjects

record TransportConfig =
  tc_server_address :: string
  tc_control_port :: int
  tc_transform_port :: int
  tc_sub_port :: int
  tc_room_id :: string

record OutboundPacket =
  payload :: bytes
  enqueued_at :: double

definition OutboundPacket_default :: OutboundPacket where
  "OutboundPacket_default = \<lparr>payload = [], enqueued_at = dlit 0\<rparr>"

record TransportStats =
  ts_dropped_transform_frames :: u64
  ts_would_block_count :: u64
  ts_control_dropped_full :: u64
  ts_control_dropped_expired :: u64
  ts_messages_sent :: u64
  ts_messages_received :: u64
  ts_control_queue_length :: int

text \<open>\<open>context\<close> and \<open>joinable\<close> say whether \<open>context_\<close> is set and whether \<open>thread_\<close> is joinable;
  \<open>readings\<close> are the readings of the steady clock still to come.\<close>

record ZmqTransport =
  zmq_context :: bool
  joinable :: bool
  should_stop :: bool
  running :: bool
  connection_error :: bool
  sockets_ready :: bool
  transport_room_id :: string
  control_outbox :: "OutboundPacket list"
  has_latest_transform :: bool
  latest_transform :: OutboundPacket
  latest_object_transforms :: "(u32, OutboundPacket) omap"
  has_pending_control :: bool
  pending_control :: OutboundPacket
  dropped_transform_frames :: u64
  would_block_count :: u64
  control_dropped_full :: u64
  control_dropped_expired :: u64
  messages_sent :: u64
  messages_received :: u64
  readings :: "nat \<Rightarrow> double"

definition ZmqTransport_init :: "(nat \<Rightarrow> double) \<Rightarrow> ZmqTransport" where
  "ZmqTransport_init clock = \<lparr>zmq_context = False, joinable = False, should_stop = False, running = False,
     connection_error = False, sockets_ready = False, transport_room_id = [], control_outbox = [],
     has_latest_transform = False, latest_transform = OutboundPacket_default,
     latest_object_transforms = om_empty, has_pending_control = False,
     pending_control = OutboundPacket_default, dropped_transform_frames = 0, would_block_count = 0,
     control_dropped_full = 0, control_dropped_expired = 0, messages_sent = 0, messages_received = 0,
     readings = clock\<rparr>"

definition kControlSendHwm :: int where "kControlSendHwm = 1024"
definition kControlReceiveHwm :: int where "kControlReceiveHwm = 1024"
definition kTransformSendHwm :: int where "kTransformSendHwm = 2"
definition kTransformReceiveHwm :: int where "kTransformReceiveHwm = 2"
definition kControlOutboxMax :: nat where "kControlOutboxMax = 256"
definition kControlTtlSeconds :: double where "kControlTtlSeconds = dlit 5"
definition kControlDrainBatch :: nat where "kControlDrainBatch = 64"

section \<open>libzmq and the callbacks\<close>

datatype Socket = ControlDealer | TransformDealer | Subscriber
datatype SocketOption = ZMQ_LINGER int | ZMQ_SNDHWM int | ZMQ_RCVHWM int | ZMQ_SUBSCRIBE string

text \<open>A function that fails gives \<^const>\<open>False\<close> (or \<^const>\<open>None\<close>). \<open>zmq_send\<close> is given the frame and
  whether more frames follow, \<open>zmq_msg_recv\<close> gives a frame and whether more follow.\<close>

record 'n Zmq =
  zmq_ctx_new :: "'n \<Rightarrow> bool \<times> 'n"
  zmq_socket :: "Socket \<Rightarrow> 'n \<Rightarrow> bool \<times> 'n"
  zmq_setsockopt :: "Socket \<Rightarrow> SocketOption \<Rightarrow> 'n \<Rightarrow> bool \<times> 'n"
  zmq_connect :: "Socket \<Rightarrow> string \<Rightarrow> 'n \<Rightarrow> bool \<times> 'n"
  zmq_poll_out :: "Socket \<Rightarrow> 'n \<Rightarrow> bool \<times> 'n"
  zmq_send :: "Socket \<Rightarrow> bytes \<Rightarrow> bool \<Rightarrow> 'n \<Rightarrow> bool \<times> 'n"
  zmq_msg_recv :: "Socket \<Rightarrow> 'n \<Rightarrow> (bytes \<times> bool) option \<times> 'n"
  zmq_errno :: "'n \<Rightarrow> int"
  zmq_strerror :: "int \<Rightarrow> string"

record 'h TransportCallbacks =
  on_payload :: "(TransportLane \<Rightarrow> bytes \<Rightarrow> 'h \<Rightarrow> 'h) option"
  on_connected :: "('h \<Rightarrow> 'h) option"
  on_error :: "(string \<Rightarrow> 'h \<Rightarrow> 'h) option"
  on_log :: "(string \<Rightarrow> 'h \<Rightarrow> 'h) option"

text \<open>A call through a \<open>std::function\<close> that is skipped when it is empty.\<close>

definition invoke :: "('a \<Rightarrow> 'h \<Rightarrow> 'h) option \<Rightarrow> 'a \<Rightarrow> 'h \<Rightarrow> 'h" where
  "invoke f a h = (case f of None \<Rightarrow> h | Some g \<Rightarrow> g a h)"

definition zmq_error_text :: "'n Zmq \<Rightarrow> 'n \<Rightarrow> string" where
  "zmq_error_text z n = zmq_strerror z (zmq_errno z n) @ '' (errno '' @ dec_int (zmq_errno z n) @ '')''"

definition monotonic_seconds :: "ZmqTransport \<Rightarrow> double \<times> ZmqTransport" where
  "monotonic_seconds t = (readings t 0, t\<lparr>readings := \<lambda>i. readings t (Suc i)\<rparr>)"

section \<open>Endpoints and topics\<close>

text \<open>The last colon splits the address only when it is the only one and there is no bracket (an
  IPv6 literal), and what follows it is a nonempty run of digits.\<close>

definition build_endpoint :: "string \<Rightarrow> int \<Rightarrow> string" where
  "build_endpoint server_address port =
     (let scheme = ''tcp://'';
          host = (if take (length scheme) server_address = scheme
                  then drop (length scheme) server_address else server_address);
          before = takeWhile (\<lambda>c. c \<noteq> CHR '':'') host;
          after = tl (dropWhile (\<lambda>c. c \<noteq> CHR '':'') host);
          host = (if CHR '':'' \<in> set host \<and> CHR '']'' \<notin> set host \<and> CHR '':'' \<notin> set after
                     \<and> after \<noteq> [] \<and> list_all is_digit after
                  then before else host)
      in scheme @ host @ '':'' @ dec_int port)"

text \<open>The data pointer of a frame is only tested for null; a frame with a positive size has one.\<close>

definition is_avatar_topic :: "bytes \<Rightarrow> string \<Rightarrow> bool" where
  "is_avatar_topic topic room_id \<longleftrightarrow>
     length topic = length room_id \<and> (length topic = 0 \<or> topic = str_bytes room_id)"

definition is_object_topic :: "bytes \<Rightarrow> string \<Rightarrow> bool" where
  "is_object_topic topic room_id \<longleftrightarrow>
     length topic = length room_id + length kObjectTopicSuffix \<and>
     (room_id = [] \<or> take (length room_id) topic = str_bytes room_id) \<and>
     drop (length room_id) topic = str_bytes kObjectTopicSuffix"

section \<open>The main thread's side\<close>

definition unusable :: "ZmqTransport \<Rightarrow> bool" where
  "unusable t \<longleftrightarrow> should_stop t \<or> connection_error t \<or> \<not> running t"

definition try_enqueue_control :: "bytes \<Rightarrow> ZmqTransport \<Rightarrow> bool \<times> ZmqTransport" where
  "try_enqueue_control data t =
     (if unusable t then (False, t)
      else if kControlOutboxMax \<le> length (control_outbox t) then
        (False, t\<lparr>control_dropped_full := control_dropped_full t + 1\<rparr>)
      else let (now, t) = monotonic_seconds t
           in (True, t\<lparr>control_outbox := control_outbox t @ [\<lparr>payload = data, enqueued_at = now\<rparr>]\<rparr>))"

definition set_latest_transform :: "bytes \<Rightarrow> ZmqTransport \<Rightarrow> ZmqTransport" where
  "set_latest_transform data t =
     (if unusable t then t
      else let (now, t) = monotonic_seconds t
           in t\<lparr>latest_transform := \<lparr>payload = data, enqueued_at = now\<rparr>, has_latest_transform := True\<rparr>)"

definition set_latest_object_transform :: "u32 \<Rightarrow> bytes \<Rightarrow> ZmqTransport \<Rightarrow> ZmqTransport" where
  "set_latest_object_transform object_id data t =
     (if object_id = 0 then t
      else if unusable t then t
      else let (now, t) = monotonic_seconds t
           in t\<lparr>latest_object_transforms :=
                  om_insert object_id \<lparr>payload = data, enqueued_at = now\<rparr> (latest_object_transforms t)\<rparr>)"

definition clear_outgoing :: "ZmqTransport \<Rightarrow> ZmqTransport" where
  "clear_outgoing t = t\<lparr>control_outbox := [], has_latest_transform := False,
     latest_transform := OutboundPacket_default, latest_object_transforms := om_empty,
     has_pending_control := False, pending_control := OutboundPacket_default\<rparr>"

definition transport_stats :: "ZmqTransport \<Rightarrow> TransportStats" where
  "transport_stats t = \<lparr>ts_dropped_transform_frames = dropped_transform_frames t,
     ts_would_block_count = would_block_count t, ts_control_dropped_full = control_dropped_full t,
     ts_control_dropped_expired = control_dropped_expired t, ts_messages_sent = messages_sent t,
     ts_messages_received = messages_received t,
     ts_control_queue_length = int (length (control_outbox t))\<rparr>"

text \<open>\<open>start\<close> and \<open>stop\<close> over the transport, the owner's state and the library. The join in \<open>stop\<close>
  waits for the network thread to leave its loop, which it does once \<open>should_stop_\<close> is set.\<close>

definition transport_start ::
  "'n Zmq \<Rightarrow> 'h TransportCallbacks \<Rightarrow> TransportConfig \<Rightarrow> ZmqTransport \<times> 'h \<times> 'n \<Rightarrow> bool \<times> ZmqTransport \<times> 'h \<times> 'n" where
  "transport_start z cb config = (\<lambda>(t, h, n).
     if running t \<or> joinable t then (False, t, h, n)
     else
       let t = t\<lparr>should_stop := False, connection_error := False, sockets_ready := False,
                 transport_room_id := tc_room_id config\<rparr>;
           (ok, n) = zmq_ctx_new z n;
           t = t\<lparr>zmq_context := ok\<rparr>
       in if \<not> ok then
            (False, t, invoke (on_error cb) (''failed to create ZeroMQ context: '' @ zmq_error_text z n) h, n)
          else (True, t\<lparr>running := True, joinable := True\<rparr>, h, n))"

definition transport_stop :: "ZmqTransport \<Rightarrow> ZmqTransport" where
  "transport_stop t =
     (if \<not> joinable t then t\<lparr>zmq_context := False, running := False\<rparr>
      else
        let t = clear_outgoing (t\<lparr>should_stop := True\<rparr>);
            t = t\<lparr>joinable := False, sockets_ready := False\<rparr>
        in t\<lparr>zmq_context := False, running := False, sockets_ready := False\<rparr>)"

section \<open>The network thread's side\<close>

text \<open>The room id frame, then the payload frame, begun only when the socket can take a message.\<close>

definition try_send_multipart ::
  "'n Zmq \<Rightarrow> 'h TransportCallbacks \<Rightarrow> Socket \<Rightarrow> bytes \<Rightarrow> ZmqTransport \<times> 'h \<times> 'n \<Rightarrow> bool \<times> ZmqTransport \<times> 'h \<times> 'n" where
  "try_send_multipart z cb socket data = (\<lambda>(t, h, n).
     let (writable, n) = zmq_poll_out z socket n
     in if \<not> writable then (False, t, h, n)
        else
          let (ok, n) = zmq_send z socket (str_bytes (transport_room_id t)) True n
          in if \<not> ok then (False, t, h, n)
             else
               let (ok, n) = zmq_send z socket data False n
               in if \<not> ok then
                    (False, t\<lparr>connection_error := True\<rparr>,
                     invoke (on_error cb)
                       (''failed to complete a multipart send, abandoning the connection: '' @ zmq_error_text z n) h, n)
                  else (True, t\<lparr>messages_sent := messages_sent t + 1\<rparr>, h, n))"

text \<open>The sections of \<open>drain_control_sends\<close>: fetching the head of the outbox under the mutex, and what
  becomes of the held packet.\<close>

definition fetch_pending :: "ZmqTransport \<Rightarrow> ZmqTransport option" where
  "fetch_pending t =
     (if has_pending_control t then Some t
      else case control_outbox t of
          [] \<Rightarrow> None
        | packet # queue \<Rightarrow> Some (t\<lparr>pending_control := packet, control_outbox := queue, has_pending_control := True\<rparr>))"

definition packet_expired :: "double \<Rightarrow> OutboundPacket \<Rightarrow> bool" where
  "packet_expired now packet \<longleftrightarrow> flt kControlTtlSeconds (fsub now (enqueued_at packet))"

definition expire_pending :: "ZmqTransport \<Rightarrow> ZmqTransport" where
  "expire_pending t = t\<lparr>control_dropped_expired := control_dropped_expired t + 1, has_pending_control := False\<rparr>"

definition would_block :: "ZmqTransport \<Rightarrow> ZmqTransport" where
  "would_block t = t\<lparr>would_block_count := would_block_count t + 1\<rparr>"

definition queued :: "ZmqTransport \<Rightarrow> OutboundPacket list" where
  "queued t = (if has_pending_control t then [pending_control t] else []) @ control_outbox t"

lemma try_send_multipart_queued:
  assumes "try_send_multipart z cb socket data (t, h, n) = (ok, t', h', n')"
  shows "queued t' = queued t" "control_outbox t' = control_outbox t" "has_pending_control t' = has_pending_control t"
    "pending_control t' = pending_control t" "has_latest_transform t' = has_latest_transform t"
    "latest_transform t' = latest_transform t" "latest_object_transforms t' = latest_object_transforms t"
    "transport_room_id t' = transport_room_id t"
  using assms by (auto simp: try_send_multipart_def queued_def Let_def split: prod.splits if_splits)

definition ttl_log :: string where
  "ttl_log = ''control packet expired (TTL '' @ to_string_double kControlTtlSeconds @ ''s exceeded)''"

function drain_loop ::
  "'n Zmq \<Rightarrow> 'h TransportCallbacks \<Rightarrow> double \<Rightarrow> nat \<Rightarrow> bool \<Rightarrow> ZmqTransport \<times> 'h \<times> 'n \<Rightarrow> bool \<times> ZmqTransport \<times> 'h \<times> 'n" where
  "drain_loop z cb now sent did_work (t, h, n) =
     (if \<not> sent < kControlDrainBatch then (did_work, t, h, n)
      else case fetch_pending t of
          None \<Rightarrow> (did_work, t, h, n)
        | Some t \<Rightarrow>
            if packet_expired now (pending_control t) then
              drain_loop z cb now sent did_work (expire_pending t, invoke (on_log cb) ttl_log h, n)
            else
              (case try_send_multipart z cb ControlDealer (payload (pending_control t)) (t, h, n) of
                 (True, t, h, n) \<Rightarrow> drain_loop z cb now (Suc sent) True (t\<lparr>has_pending_control := False\<rparr>, h, n)
               | (False, t, h, n) \<Rightarrow> (did_work, would_block t, h, n)))"
  by pat_completeness auto

lemma fetch_pending_queued:
  "fetch_pending t = Some t' \<Longrightarrow> queued t = pending_control t' # control_outbox t' \<and> has_pending_control t'"
  by (auto simp: fetch_pending_def queued_def split: if_splits list.splits)

lemma queued_released [simp]:
  "queued (expire_pending t) = control_outbox t"
  "queued (t\<lparr>has_pending_control := False\<rparr>) = control_outbox t"
  by (simp_all add: queued_def expire_pending_def)

termination drain_loop
proof (relation "measure (\<lambda>(z, cb, now, sent, did_work, t, h, n). length (queued t))", goal_cases)
  case (2 z cb now sent did_work t h n x2)
  then show ?case using fetch_pending_queued [of t x2] by simp
next
  case (3 z cb now sent did_work t h n x2 x y xa ya xb yb)
  then show ?case using fetch_pending_queued [of t x2] try_send_multipart_queued(2) [of z cb _ _ x2 h n True xa xb yb]
    by simp
qed simp

definition drain_control_sends ::
  "'n Zmq \<Rightarrow> 'h TransportCallbacks \<Rightarrow> ZmqTransport \<times> 'h \<times> 'n \<Rightarrow> bool \<times> ZmqTransport \<times> 'h \<times> 'n" where
  "drain_control_sends z cb = (\<lambda>(t, h, n).
     let (now, t) = monotonic_seconds t in drain_loop z cb now 0 False (t, h, n))"

text \<open>The slot is emptied only if it still holds what was sent.\<close>

definition clear_sent_transform :: "bytes \<Rightarrow> ZmqTransport \<Rightarrow> ZmqTransport" where
  "clear_sent_transform data t =
     (if has_latest_transform t \<and> payload (latest_transform t) = data
      then t\<lparr>has_latest_transform := False, latest_transform := OutboundPacket_default\<rparr> else t)"

definition try_send_latest_transform ::
  "'n Zmq \<Rightarrow> 'h TransportCallbacks \<Rightarrow> ZmqTransport \<times> 'h \<times> 'n \<Rightarrow> bool \<times> ZmqTransport \<times> 'h \<times> 'n" where
  "try_send_latest_transform z cb = (\<lambda>(t, h, n).
     if \<not> has_latest_transform t then (False, t, h, n)
     else
       let data = payload (latest_transform t);
           (ok, t, h, n) = try_send_multipart z cb TransformDealer data (t, h, n)
       in if \<not> ok then (False, would_block t, h, n) else (True, clear_sent_transform data t, h, n))"

definition clear_sent_object :: "u32 \<Rightarrow> bytes \<Rightarrow> ZmqTransport \<Rightarrow> ZmqTransport" where
  "clear_sent_object object_id data t =
     (case om_find (latest_object_transforms t) object_id of
        None \<Rightarrow> t
      | Some packet \<Rightarrow>
          if payload packet = data
          then t\<lparr>latest_object_transforms := om_erase object_id (latest_object_transforms t)\<rparr> else t)"

fun send_objects ::
  "'n Zmq \<Rightarrow> 'h TransportCallbacks \<Rightarrow> u32 list \<Rightarrow> bool \<Rightarrow> ZmqTransport \<times> 'h \<times> 'n \<Rightarrow> bool \<times> ZmqTransport \<times> 'h \<times> 'n" where
  "send_objects z cb [] did_work (t, h, n) = (did_work, t, h, n)"
| "send_objects z cb (object_id # ids) did_work (t, h, n) =
     (case om_find (latest_object_transforms t) object_id of
        None \<Rightarrow> send_objects z cb ids did_work (t, h, n)
      | Some packet \<Rightarrow>
          (case try_send_multipart z cb TransformDealer (payload packet) (t, h, n) of
             (True, t, h, n) \<Rightarrow> send_objects z cb ids True (clear_sent_object object_id (payload packet) t, h, n)
           | (False, t, h, n) \<Rightarrow> (did_work, would_block t, h, n)))"

definition try_send_latest_object_transforms ::
  "'n Zmq \<Rightarrow> 'h TransportCallbacks \<Rightarrow> ZmqTransport \<times> 'h \<times> 'n \<Rightarrow> bool \<times> ZmqTransport \<times> 'h \<times> 'n" where
  "try_send_latest_object_transforms z cb = (\<lambda>(t, h, n).
     if om_size (latest_object_transforms t) = 0 then (False, t, h, n)
     else send_objects z cb (om_keys (latest_object_transforms t)) False (t, h, n))"

definition flush_outgoing ::
  "'n Zmq \<Rightarrow> 'h TransportCallbacks \<Rightarrow> ZmqTransport \<times> 'h \<times> 'n \<Rightarrow> bool \<times> ZmqTransport \<times> 'h \<times> 'n" where
  "flush_outgoing z cb w =
     (let (a, w) = drain_control_sends z cb w;
          (b, w) = try_send_latest_transform z cb w;
          (c, w) = try_send_latest_object_transforms z cb w
      in (a \<or> b \<or> c, w))"

text \<open>One drain of the subscriber socket keeps the newest frame of each kind.\<close>

record SubDrain =
  last_avatar :: "bytes option"
  last_object :: "bytes option"
  avatar_frames :: nat

definition note_frame :: "string \<Rightarrow> bytes \<Rightarrow> bytes \<Rightarrow> SubDrain \<Rightarrow> SubDrain" where
  "note_frame room_id topic data d =
     (if is_avatar_topic topic room_id then d\<lparr>last_avatar := Some data, avatar_frames := Suc (avatar_frames d)\<rparr>
      else if is_object_topic topic room_id then d\<lparr>last_object := Some data\<rparr>
      else d)"

partial_function (option) receive_sub_loop :: "'n Zmq \<Rightarrow> string \<Rightarrow> SubDrain \<Rightarrow> 'n \<Rightarrow> (SubDrain \<times> 'n) option" where
  "receive_sub_loop z room_id d n =
     (case zmq_msg_recv z Subscriber n of
        (None, n) \<Rightarrow> Some (d, n)
      | (Some (topic, follows), n) \<Rightarrow>
          if \<not> follows then receive_sub_loop z room_id d n
          else
            (case zmq_msg_recv z Subscriber n of
               (None, n) \<Rightarrow> Some (d, n)
             | (Some (data, _), n) \<Rightarrow> receive_sub_loop z room_id (note_frame room_id topic data d) n))"

definition deliver :: "'h TransportCallbacks \<Rightarrow> TransportLane \<Rightarrow> bytes option \<Rightarrow> ZmqTransport \<times> 'h \<Rightarrow> ZmqTransport \<times> 'h" where
  "deliver cb lane data = (\<lambda>(t, h).
     case data of
       None \<Rightarrow> (t, h)
     | Some d \<Rightarrow> (t\<lparr>messages_received := messages_received t + 1\<rparr>,
                  case on_payload cb of None \<Rightarrow> h | Some f \<Rightarrow> f lane d h))"

definition receive_sub ::
  "'n Zmq \<Rightarrow> 'h TransportCallbacks \<Rightarrow> ZmqTransport \<times> 'h \<times> 'n \<Rightarrow> (ZmqTransport \<times> 'h \<times> 'n) option" where
  "receive_sub z cb = (\<lambda>(t, h, n).
     case receive_sub_loop z (transport_room_id t) \<lparr>last_avatar = None, last_object = None, avatar_frames = 0\<rparr> n of
       None \<Rightarrow> None
     | Some (d, n) \<Rightarrow>
         let t = (if 1 < avatar_frames d
                  then t\<lparr>dropped_transform_frames := dropped_transform_frames t + word_of_nat (avatar_frames d - 1)\<rparr>
                  else t);
             (t, h) = deliver cb LaneRoomPose (last_avatar d) (t, h);
             (t, h) = deliver cb LaneRoomObjects (last_object d) (t, h)
         in Some (t, h, n))"

partial_function (option) receive_control ::
  "'n Zmq \<Rightarrow> 'h TransportCallbacks \<Rightarrow> ZmqTransport \<Rightarrow> 'h \<Rightarrow> 'n \<Rightarrow> (ZmqTransport \<times> 'h \<times> 'n) option" where
  "receive_control z cb t h n =
     (case zmq_msg_recv z ControlDealer n of
        (None, n) \<Rightarrow> Some (t, h, n)
      | (Some (room, follows), n) \<Rightarrow>
          if \<not> follows then receive_control z cb t h n
          else
            (case zmq_msg_recv z ControlDealer n of
               (None, n) \<Rightarrow> Some (t, h, n)
             | (Some (data, _), n) \<Rightarrow>
                 receive_control z cb (t\<lparr>messages_received := messages_received t + 1\<rparr>)
                   (if bytes_str room = transport_room_id t
                    then case on_payload cb of None \<Rightarrow> h | Some f \<Rightarrow> f LaneControl data h
                    else h) n))"

section \<open>The network thread\<close>

fun set_options :: "'n Zmq \<Rightarrow> Socket \<Rightarrow> SocketOption list \<Rightarrow> 'n \<Rightarrow> bool \<times> 'n" where
  "set_options z socket [] n = (True, n)"
| "set_options z socket (option # options) n =
     (case zmq_setsockopt z socket option n of
        (False, n) \<Rightarrow> (False, n)
      | (True, n) \<Rightarrow> set_options z socket options n)"

text \<open>Configuring and connecting one socket: the error text, or the next state. The subscriber is also
  given its topic prefix.\<close>

definition open_socket ::
  "'n Zmq \<Rightarrow> 'h TransportCallbacks \<Rightarrow> Socket \<Rightarrow> SocketOption list \<Rightarrow> SocketOption list \<Rightarrow> string \<Rightarrow> string \<Rightarrow> string \<Rightarrow>
     'h \<times> 'n \<Rightarrow> string option \<times> 'h \<times> 'n" where
  "open_socket z cb socket options topics adjective title endpoint = (\<lambda>(h, n).
     let (ok, n) = set_options z socket options n
     in if \<not> ok then (Some (''failed to configure the '' @ adjective @ '' socket: '' @ zmq_error_text z n), h, n)
        else
          let (ok, n) = zmq_connect z socket endpoint n
          in if \<not> ok then
               (Some (''failed to connect '' @ title @ '' to '' @ endpoint @ '': '' @ zmq_error_text z n), h, n)
             else
               let (ok, n) = set_options z socket topics n
               in if \<not> ok then (Some (''failed to subscribe to room topic: '' @ zmq_error_text z n), h, n)
                  else (None, invoke (on_log cb) (title @ '' connected to '' @ endpoint) h, n))"

definition loop_fail :: "'h TransportCallbacks \<Rightarrow> string \<Rightarrow> ZmqTransport \<times> 'h \<times> 'n \<Rightarrow> ZmqTransport \<times> 'h \<times> 'n" where
  "loop_fail cb message = (\<lambda>(t, h, n). (t\<lparr>connection_error := True\<rparr>, invoke (on_error cb) message h, n))"

definition network_setup ::
  "'n Zmq \<Rightarrow> 'h TransportCallbacks \<Rightarrow> TransportConfig \<Rightarrow> ZmqTransport \<times> 'h \<times> 'n \<Rightarrow> bool \<times> ZmqTransport \<times> 'h \<times> 'n" where
  "network_setup z cb config = (\<lambda>(t, h, n).
     let (control, n) = zmq_socket z ControlDealer n;
         (transform, n) = zmq_socket z TransformDealer n;
         (sub, n) = zmq_socket z Subscriber n;
         endpoint = build_endpoint (tc_server_address config)
     in if \<not> control \<or> \<not> transform \<or> \<not> sub then
          (False, loop_fail cb (''failed to create ZeroMQ sockets: '' @ zmq_error_text z n) (t, h, n))
        else case open_socket z cb ControlDealer
            [ZMQ_LINGER 0, ZMQ_SNDHWM kControlSendHwm, ZMQ_RCVHWM kControlReceiveHwm] []
            ''control'' ''control DEALER'' (endpoint (tc_control_port config)) (h, n) of
          (Some message, h, n) \<Rightarrow> (False, loop_fail cb message (t, h, n))
        | (None, h, n) \<Rightarrow>
            (case open_socket z cb TransformDealer [ZMQ_LINGER 0, ZMQ_SNDHWM kTransformSendHwm] []
                ''transform'' ''transform DEALER'' (endpoint (tc_transform_port config)) (h, n) of
               (Some message, h, n) \<Rightarrow> (False, loop_fail cb message (t, h, n))
             | (None, h, n) \<Rightarrow>
                 (case open_socket z cb Subscriber [ZMQ_LINGER 0, ZMQ_RCVHWM kTransformReceiveHwm]
                     [ZMQ_SUBSCRIBE (tc_room_id config)] ''subscriber'' ''SUB'' (endpoint (tc_sub_port config)) (h, n) of
                    (Some message, h, n) \<Rightarrow> (False, loop_fail cb message (t, h, n))
                  | (None, h, n) \<Rightarrow>
                      (True, t\<lparr>sockets_ready := True\<rparr>,
                       (case on_connected cb of None \<Rightarrow> h | Some f \<Rightarrow> f h), n))))"

text \<open>One round of the loop; the sleep of an idle round has no effect on the state.\<close>

definition network_iteration ::
  "'n Zmq \<Rightarrow> 'h TransportCallbacks \<Rightarrow> ZmqTransport \<times> 'h \<times> 'n \<Rightarrow> (ZmqTransport \<times> 'h \<times> 'n) option" where
  "network_iteration z cb w =
     (case receive_sub z cb (snd (flush_outgoing z cb w)) of
        None \<Rightarrow> None
      | Some (t, h, n) \<Rightarrow> receive_control z cb t h n)"

fun network_rounds ::
  "'n Zmq \<Rightarrow> 'h TransportCallbacks \<Rightarrow> nat \<Rightarrow> ZmqTransport \<times> 'h \<times> 'n \<Rightarrow> (ZmqTransport \<times> 'h \<times> 'n) option" where
  "network_rounds z cb 0 w = Some w"
| "network_rounds z cb (Suc rounds) w =
     (case network_iteration z cb w of None \<Rightarrow> None | Some w \<Rightarrow> network_rounds z cb rounds w)"

text \<open>The thread runs \<open>rounds\<close> rounds before it sees \<open>should_stop_\<close>.\<close>

definition network_loop ::
  "'n Zmq \<Rightarrow> 'h TransportCallbacks \<Rightarrow> TransportConfig \<Rightarrow> nat \<Rightarrow> ZmqTransport \<times> 'h \<times> 'n \<Rightarrow> (ZmqTransport \<times> 'h \<times> 'n) option" where
  "network_loop z cb config rounds w =
     (case network_setup z cb config w of
        (False, w) \<Rightarrow> Some w
      | (True, w) \<Rightarrow>
          (case network_rounds z cb rounds w of
             None \<Rightarrow> None
           | Some (t, h, n) \<Rightarrow> Some (t\<lparr>sockets_ready := False\<rparr>, h, n)))"

section \<open>The threads interleaved\<close>

text \<open>
  The two threads meet only in the sections guarded by \<open>outbound_mutex_\<close> and in the atomics. A step
  is one such section: the main thread enqueues or overwrites the pose slot at any moment; the
  network thread fetches the head of the outbox, drops or sends the packet it holds, reads the pose
  slot, sends the copy, and empties the slot. \<open>accepted\<close> are the control payloads taken by
  \<open>try_enqueue_control\<close>, \<open>settled\<close> those that left with whether they were sent (and not expired),
  \<open>newest\<close> the pose written last, \<open>copy\<close> the pose the network thread works on with whether it was
  sent, \<open>published\<close> the poses sent.
\<close>

record lanes =
  tr :: ZmqTransport
  accepted :: "bytes list"
  settled :: "(bytes \<times> bool) list"
  newest :: "bytes option"
  copy :: "(bytes \<times> bool) option"
  published :: "bytes list"

definition lanes_init :: "ZmqTransport \<Rightarrow> lanes" where
  "lanes_init t = \<lparr>tr = t, accepted = [], settled = [], newest = None, copy = None, published = []\<rparr>"

inductive lane_step :: "'n Zmq \<Rightarrow> 'h TransportCallbacks \<Rightarrow> lanes \<Rightarrow> lanes \<Rightarrow> bool" for z cb where
  enqueue: "try_enqueue_control data (tr s) = (ok, t) \<Longrightarrow>
    lane_step z cb s (s\<lparr>tr := t, accepted := (if ok then accepted s @ [data] else accepted s)\<rparr>)"
| set_pose: "set_latest_transform data (tr s) = t \<Longrightarrow>
    lane_step z cb s (s\<lparr>tr := t, newest := (if unusable (tr s) then newest s else Some data)\<rparr>)"
| set_object: "lane_step z cb s (s\<lparr>tr := set_latest_object_transform object_id data (tr s)\<rparr>)"
| fetch: "fetch_pending (tr s) = Some t \<Longrightarrow> lane_step z cb s (s\<lparr>tr := t\<rparr>)"
| expire: "has_pending_control (tr s) \<Longrightarrow> packet_expired now (pending_control (tr s)) \<Longrightarrow>
    lane_step z cb s (s\<lparr>tr := expire_pending (tr s), settled := settled s @ [(payload (pending_control (tr s)), False)]\<rparr>)"
| send_control: "has_pending_control (tr s) \<Longrightarrow> \<not> packet_expired now (pending_control (tr s)) \<Longrightarrow>
    try_send_multipart z cb ControlDealer (payload (pending_control (tr s))) (tr s, h, n) = (True, t, h', n') \<Longrightarrow>
    lane_step z cb s (s\<lparr>tr := t\<lparr>has_pending_control := False\<rparr>,
      settled := settled s @ [(payload (pending_control (tr s)), True)]\<rparr>)"
| refuse_control: "has_pending_control (tr s) \<Longrightarrow>
    try_send_multipart z cb ControlDealer (payload (pending_control (tr s))) (tr s, h, n) = (False, t, h', n') \<Longrightarrow>
    lane_step z cb s (s\<lparr>tr := would_block t\<rparr>)"
| copy_pose: "copy s = None \<Longrightarrow> has_latest_transform (tr s) \<Longrightarrow>
    lane_step z cb s (s\<lparr>copy := Some (payload (latest_transform (tr s)), False)\<rparr>)"
| send_pose: "copy s = Some (data, False) \<Longrightarrow>
    try_send_multipart z cb TransformDealer data (tr s, h, n) = (True, t, h', n') \<Longrightarrow>
    lane_step z cb s (s\<lparr>tr := t, copy := Some (data, True), published := published s @ [data]\<rparr>)"
| refuse_pose: "copy s = Some (data, False) \<Longrightarrow>
    try_send_multipart z cb TransformDealer data (tr s, h, n) = (False, t, h', n') \<Longrightarrow>
    lane_step z cb s (s\<lparr>tr := would_block t, copy := None\<rparr>)"
| clear_pose: "copy s = Some (data, True) \<Longrightarrow>
    lane_step z cb s (s\<lparr>tr := clear_sent_transform data (tr s), copy := None\<rparr>)"

inductive lane_reachable :: "'n Zmq \<Rightarrow> 'h TransportCallbacks \<Rightarrow> ZmqTransport \<Rightarrow> lanes \<Rightarrow> bool" for z cb t0 where
  start: "lane_reachable z cb t0 (lanes_init t0)"
| step: "lane_reachable z cb t0 s \<Longrightarrow> lane_step z cb s s' \<Longrightarrow> lane_reachable z cb t0 s'"

definition control_inv :: "lanes \<Rightarrow> bool" where
  "control_inv s \<longleftrightarrow> length (control_outbox (tr s)) \<le> kControlOutboxMax \<and>
     accepted s = map fst (settled s) @ map payload (queued (tr s))"

definition pose_inv :: "lanes \<Rightarrow> bool" where
  "pose_inv s \<longleftrightarrow>
     (has_latest_transform (tr s) \<longrightarrow> newest s = Some (payload (latest_transform (tr s)))) \<and>
     (\<not> has_latest_transform (tr s) \<longrightarrow> newest s = (if published s = [] then None else Some (last (published s)))) \<and>
     (copy s \<noteq> None \<longrightarrow> has_latest_transform (tr s)) \<and>
     (\<forall>data. copy s = Some (data, True) \<longrightarrow> published s \<noteq> [] \<and> last (published s) = data)"

lemma try_enqueue_control_cases:
  assumes "try_enqueue_control data t = (ok, t')"
  shows "has_pending_control t' = has_pending_control t" "pending_control t' = pending_control t"
    "has_latest_transform t' = has_latest_transform t" "latest_transform t' = latest_transform t"
    "map payload (control_outbox t') = map payload (control_outbox t) @ (if ok then [data] else [])"
    "ok \<Longrightarrow> length (control_outbox t) < kControlOutboxMax" "\<not> ok \<Longrightarrow> control_outbox t' = control_outbox t"
  using assms by (auto simp: try_enqueue_control_def monotonic_seconds_def Let_def split: if_splits)

lemma set_latest_frame:
  "control_outbox (set_latest_transform data t) = control_outbox t" "queued (set_latest_transform data t) = queued t"
  "control_outbox (set_latest_object_transform i data t) = control_outbox t"
  "queued (set_latest_object_transform i data t) = queued t"
  "has_latest_transform (set_latest_object_transform i data t) = has_latest_transform t"
  "latest_transform (set_latest_object_transform i data t) = latest_transform t"
  "has_latest_transform (set_latest_transform data t) = (\<not> unusable t \<or> has_latest_transform t)"
  "payload (latest_transform (set_latest_transform data t)) = (if unusable t then payload (latest_transform t) else data)"
  by (auto simp: set_latest_transform_def set_latest_object_transform_def monotonic_seconds_def queued_def Let_def)

lemma lane_frames [simp]:
  "control_outbox (would_block t) = control_outbox t" "queued (would_block t) = queued t"
  "has_latest_transform (would_block t) = has_latest_transform t" "latest_transform (would_block t) = latest_transform t"
  "control_outbox (clear_sent_transform data t) = control_outbox t" "queued (clear_sent_transform data t) = queued t"
  "control_outbox (expire_pending t) = control_outbox t"
  "has_latest_transform (expire_pending t) = has_latest_transform t" "latest_transform (expire_pending t) = latest_transform t"
  by (simp_all add: would_block_def clear_sent_transform_def expire_pending_def queued_def)

lemma fetch_pending_frame:
  assumes "fetch_pending t = Some t'"
  shows "queued t' = queued t" "length (control_outbox t') \<le> length (control_outbox t)"
    "has_latest_transform t' = has_latest_transform t" "latest_transform t' = latest_transform t"
  using assms by (auto simp: fetch_pending_def queued_def split: if_splits list.splits)

lemma queued_pending: "has_pending_control t \<Longrightarrow> queued t = pending_control t # control_outbox t"
  by (simp add: queued_def)

lemma lane_step_control: "lane_step z cb s s' \<Longrightarrow> control_inv s \<Longrightarrow> control_inv s'"
proof (induction rule: lane_step.induct)
  case (enqueue data s ok t)
  then show ?case using try_enqueue_control_cases [OF enqueue.hyps]
    by (cases ok) (auto simp: control_inv_def queued_def dest: arg_cong [where f = length])
next
  case (fetch s t)
  then show ?case using fetch_pending_frame [OF fetch.hyps] by (simp add: control_inv_def)
next
  case (send_control s now h n t h' n')
  then show ?case using try_send_multipart_queued [OF send_control.hyps(3)]
    by (simp add: control_inv_def queued_pending)
next
  case (refuse_control s h n t h' n')
  then show ?case using try_send_multipart_queued [OF refuse_control.hyps(2)] by (simp add: control_inv_def)
next
  case (send_pose s data h n t h' n')
  then show ?case using try_send_multipart_queued [OF send_pose.hyps(2)] by (simp add: control_inv_def)
next
  case (refuse_pose s data h n t h' n')
  then show ?case using try_send_multipart_queued [OF refuse_pose.hyps(2)] by (simp add: control_inv_def)
qed (auto simp: control_inv_def set_latest_frame queued_pending)

lemma lane_step_pose: "lane_step z cb s s' \<Longrightarrow> pose_inv s \<Longrightarrow> pose_inv s'"
proof (induction rule: lane_step.induct)
  case (enqueue data s ok t)
  then show ?case using try_enqueue_control_cases [OF enqueue.hyps] by (simp add: pose_inv_def)
next
  case (fetch s t)
  then show ?case using fetch_pending_frame [OF fetch.hyps] by (simp add: pose_inv_def)
next
  case (send_control s now h n t h' n')
  then show ?case using try_send_multipart_queued [OF send_control.hyps(3)] by (simp add: pose_inv_def)
next
  case (refuse_control s h n t h' n')
  then show ?case using try_send_multipart_queued [OF refuse_control.hyps(2)] by (simp add: pose_inv_def)
next
  case (send_pose s data h n t h' n')
  then show ?case using try_send_multipart_queued [OF send_pose.hyps(2)] by (simp add: pose_inv_def)
next
  case (refuse_pose s data h n t h' n')
  then show ?case using try_send_multipart_queued [OF refuse_pose.hyps(2)] by (simp add: pose_inv_def)
qed (auto simp: pose_inv_def set_latest_frame clear_sent_transform_def split: if_splits)

lemma lane_reachable_inv:
  assumes "lane_reachable z cb t0 s" "control_outbox t0 = []" "\<not> has_pending_control t0" "\<not> has_latest_transform t0"
  shows "control_inv s \<and> pose_inv s"
  using assms(1)
proof (induction rule: lane_reachable.induct)
  case start
  then show ?case using assms(2-4) by (simp add: control_inv_def pose_inv_def lanes_init_def queued_def)
next
  case (step s s')
  then show ?case by (blast intro: lane_step_control lane_step_pose)
qed

section \<open>The control drain is a drain of a lifetime-bounded queue\<close>

text \<open>The state without the queue, and the two effects of the loop on it.\<close>

definition unqueued :: "ZmqTransport \<Rightarrow> ZmqTransport" where
  "unqueued t = t\<lparr>control_outbox := [], has_pending_control := False, pending_control := OutboundPacket_default\<rparr>"

definition discard_packet :: "'h TransportCallbacks \<Rightarrow> OutboundPacket \<Rightarrow> ZmqTransport \<times> 'h \<times> 'n \<Rightarrow> ZmqTransport \<times> 'h \<times> 'n" where
  "discard_packet cb packet = (\<lambda>(t, h, n).
     (t\<lparr>control_dropped_expired := control_dropped_expired t + 1\<rparr>, invoke (on_log cb) ttl_log h, n))"

definition transmit_packet ::
  "'n Zmq \<Rightarrow> 'h TransportCallbacks \<Rightarrow> string \<Rightarrow> OutboundPacket \<Rightarrow> ZmqTransport \<times> 'h \<times> 'n \<Rightarrow> bool \<times> ZmqTransport \<times> 'h \<times> 'n" where
  "transmit_packet z cb room packet = (\<lambda>(t, h, n).
     case try_send_multipart z cb ControlDealer (payload packet) (t\<lparr>transport_room_id := room\<rparr>, h, n) of
       (True, w) \<Rightarrow> (True, w)
     | (False, t, h, n) \<Rightarrow> (False, would_block t, h, n))"

lemma try_send_unqueued:
  "try_send_multipart z cb socket data (t, h, n) = (ok, t', h', n') \<Longrightarrow>
     try_send_multipart z cb socket data (unqueued t, h, n) = (ok, unqueued t', h', n')"
  by (auto simp: try_send_multipart_def unqueued_def Let_def split: prod.splits if_splits)

lemma unqueued_frames [simp]:
  "unqueued (t\<lparr>has_pending_control := False\<rparr>) = unqueued t"
  "unqueued (would_block t) = would_block (unqueued t)"
  "unqueued (expire_pending t) = (unqueued t)\<lparr>control_dropped_expired := control_dropped_expired t + 1\<rparr>"
  "control_dropped_expired (unqueued t) = control_dropped_expired t"
  "transport_room_id (expire_pending t) = transport_room_id t"
  by (simp_all add: unqueued_def would_block_def expire_pending_def)

lemma queued_readings [simp]: "queued (t\<lparr>readings := r\<rparr>) = queued t"
  by (simp add: queued_def)

lemma fetch_pending_unqueued:
  "fetch_pending t = Some t' \<Longrightarrow> unqueued t' = unqueued t \<and> transport_room_id t' = transport_room_id t \<and>
     control_dropped_expired t' = control_dropped_expired t"
  by (auto simp: fetch_pending_def unqueued_def split: if_splits list.splits)

lemma unqueued_room [simp]: "(unqueued t)\<lparr>transport_room_id := transport_room_id t\<rparr> = unqueued t"
  by (simp add: unqueued_def)

lemma drain_loop_drains:
  "drain_loop z cb now sent did_work (t, h, n) = (did_work', t', h', n') \<Longrightarrow> transport_room_id t = room \<Longrightarrow>
     drain (packet_expired now) (discard_packet cb) (transmit_packet z cb room) (kControlDrainBatch - sent)
       (queued t) (unqueued t, h, n) = (queued t', unqueued t', h', n')"
proof (induction z cb now sent did_work "(t, h, n)" arbitrary: t h n rule: drain_loop.induct)
  case (1 z cb now sent did_work t h n)
  show ?case
  proof (cases "sent < kControlDrainBatch")
    case False
    then show ?thesis using "1.prems" by simp
  next
    case True
    then obtain b where b: "kControlDrainBatch - sent = Suc b" "kControlDrainBatch - Suc sent = b"
      by (metis Suc_diff_Suc)
    show ?thesis
    proof (cases "fetch_pending t")
      case None
      then have "queued t = []" by (auto simp: fetch_pending_def queued_def split: if_splits list.splits)
      then show ?thesis using "1.prems" True None by simp
    next
      case (Some u)
      note q = fetch_pending_queued [OF Some] and u = fetch_pending_unqueued [OF Some]
      show ?thesis
      proof (cases "packet_expired now (pending_control u)")
        case ex: True
        have "drain_loop z cb now sent did_work (expire_pending u, invoke (on_log cb) ttl_log h, n) = (did_work', t', h', n')"
          using "1.prems"(1) True Some ex by simp
        from "1.hyps"(1) [OF _ Some ex this] True u "1.prems"(2) show ?thesis
          by (simp add: q b ex discard_packet_def)
      next
        case ex: False
        obtain ok t1 h1 n1 where send: "try_send_multipart z cb ControlDealer (payload (pending_control u)) (u, h, n) = (ok, t1, h1, n1)"
          by (metis prod_cases4)
        note sq = try_send_multipart_queued [OF send]
        have tp: "transmit_packet z cb room (pending_control u) (unqueued t, h, n) =
            (ok, (if ok then unqueued t1 else would_block (unqueued t1)), h1, n1)"
          using try_send_unqueued [OF send] u "1.prems"(2) unqueued_room [of t]
          by (auto simp: transmit_packet_def split: bool.splits)
        show ?thesis
        proof (cases ok)
          case ok: True
          have "drain_loop z cb now (Suc sent) True (t1\<lparr>has_pending_control := False\<rparr>, h1, n1) = (did_work', t', h', n')"
            using "1.prems"(1) True Some ex send ok by simp
          from "1.hyps"(2) [OF _ Some ex send [symmetric] _ refl refl this] True send ok sq(2,8) u "1.prems"(2) show ?thesis
            by (simp add: q b ex tp)
        next
          case ok: False
          then have "t' = would_block t1" "h' = h1" "n' = n1"
            using "1.prems"(1) True Some ex send by auto
          then show ?thesis using sq(1,2,4) ok by (simp add: q b ex tp queued_pending sq(3))
        qed
      qed
    qed
  qed
qed

text \<open>What the transport relies on of libzmq: a message whose first frame was taken is completed and
  delivered whole, and a refused first frame and a poll deliver nothing.\<close>

definition multipart_atomic :: "'n Zmq \<Rightarrow> (Socket \<Rightarrow> 'n \<Rightarrow> (bytes \<times> bytes) list) \<Rightarrow> bool" where
  "multipart_atomic z delivered \<longleftrightarrow>
     (\<forall>socket n k. delivered k (snd (zmq_poll_out z socket n)) = delivered k n) \<and>
     (\<forall>socket first n. case zmq_send z socket first True n of
        (False, n') \<Rightarrow> (\<forall>k. delivered k n' = delivered k n)
      | (True, n') \<Rightarrow> (\<forall>second. case zmq_send z socket second False n' of (ok, n'') \<Rightarrow>
          ok \<and> (\<forall>k. delivered k n'' = delivered k n @ (if k = socket then [(first, second)] else []))))"

lemma try_send_delivers:
  assumes "multipart_atomic z delivered" "try_send_multipart z cb socket data (t, h, n) = (ok, t', h', n')"
  shows "delivered k n' = delivered k n @ (if ok \<and> k = socket then [(str_bytes (transport_room_id t), data)] else [])"
proof -
  obtain writable n1 where p: "zmq_poll_out z socket n = (writable, n1)" by fastforce
  with assms(1) have d1: "delivered k n1 = delivered k n" unfolding multipart_atomic_def by (metis snd_conv)
  obtain ok1 n2 where s1: "zmq_send z socket (str_bytes (transport_room_id t)) True n1 = (ok1, n2)" by fastforce
  obtain ok2 n3 where s2: "zmq_send z socket data False n2 = (ok2, n3)" by fastforce
  have law: "case zmq_send z socket (str_bytes (transport_room_id t)) True n1 of
        (False, n') \<Rightarrow> (\<forall>k. delivered k n' = delivered k n1)
      | (True, n') \<Rightarrow> (\<forall>second. case zmq_send z socket second False n' of (ok, n'') \<Rightarrow>
          ok \<and> (\<forall>k. delivered k n'' = delivered k n1 @ (if k = socket then [(str_bytes (transport_room_id t), second)] else [])))"
    by (rule conjunct2 [OF assms(1) [unfolded multipart_atomic_def], THEN spec, THEN spec, THEN spec])
  have "\<not> ok1 \<Longrightarrow> delivered k n2 = delivered k n1"
    using law s1 by simp
  moreover have "ok1 \<Longrightarrow> ok2 \<and> delivered k n3 =
      delivered k n1 @ (if k = socket then [(str_bytes (transport_room_id t), data)] else [])"
    using law s1 s2 by (auto dest: spec [of _ data])
  ultimately show ?thesis using assms(2) d1 p s1 s2
    by (auto simp: try_send_multipart_def Let_def split: if_splits)
qed

lemma control_ttl_queue:
  assumes "multipart_atomic z delivered"
  shows "ttl_queue (discard_packet cb) (transmit_packet z cb room) (\<lambda>packet. (str_bytes room, payload packet))
     (\<lambda>(t, h, n). delivered ControlDealer n)"
proof (unfold_locales, goal_cases)
  case (1 e s)
  then show ?case by (simp add: discard_packet_def split: prod.splits)
next
  case (2 e s ok s')
  obtain t h n where s: "s = (t, h, n)" by (cases s)
  obtain ok1 t1 h1 n1 where send: "try_send_multipart z cb ControlDealer (payload e) (t\<lparr>transport_room_id := room\<rparr>, h, n) = (ok1, t1, h1, n1)"
    by (metis prod_cases4)
  show ?case using 2 try_send_delivers [OF assms send, of ControlDealer] send
    by (auto simp: s transmit_packet_def split: bool.splits if_splits)
qed

section \<open>What the receive loops deliver\<close>

text \<open>The socket gives the frames and would then block.\<close>

fun serves :: "'n Zmq \<Rightarrow> Socket \<Rightarrow> (bytes \<times> bool) list \<Rightarrow> 'n \<Rightarrow> 'n \<Rightarrow> bool" where
  "serves z socket [] n n' \<longleftrightarrow> zmq_msg_recv z socket n = (None, n')"
| "serves z socket (frame # frames) n n' \<longleftrightarrow>
     (case zmq_msg_recv z socket n of (got, m) \<Rightarrow> got = Some frame \<and> serves z socket frames m n')"

definition two_frames :: "(bytes \<times> bytes) list \<Rightarrow> (bytes \<times> bool) list" where
  "two_frames messages = concat (map (\<lambda>(first, second). [(first, True), (second, False)]) messages)"

lemma two_frames_simps [simp]:
  "two_frames [] = []" "two_frames ((a, b) # messages) = (a, True) # (b, False) # two_frames messages"
  by (simp_all add: two_frames_def)

lemma is_avatar_topic_iff [simp]: "is_avatar_topic topic room \<longleftrightarrow> topic = str_bytes room"
  by (auto simp: is_avatar_topic_def str_bytes_def)

lemma is_object_topic_iff [simp]: "is_object_topic topic room \<longleftrightarrow> topic = str_bytes (room @ kObjectTopicSuffix)"
proof -
  have "length topic = length room + length kObjectTopicSuffix \<Longrightarrow> take (length room) topic = str_bytes room \<Longrightarrow>
    drop (length room) topic = str_bytes kObjectTopicSuffix \<Longrightarrow> topic = str_bytes room @ str_bytes kObjectTopicSuffix"
    by (metis append_take_drop_id)
  then show ?thesis by (auto simp: is_object_topic_def str_bytes_def)
qed

definition on_topic :: "string \<Rightarrow> (bytes \<times> bytes) list \<Rightarrow> bytes list" where
  "on_topic topic messages = map snd (filter (\<lambda>m. fst m = str_bytes topic) messages)"

lemma on_topic_simps [simp]:
  "on_topic topic [] = []"
  "on_topic topic ((a, b) # messages) = (if a = str_bytes topic then b # on_topic topic messages else on_topic topic messages)"
  by (simp_all add: on_topic_def)

definition newest_of :: "bytes option \<Rightarrow> bytes list \<Rightarrow> bytes option" where
  "newest_of old frames = (if frames = [] then old else Some (last frames))"

lemma topics_differ [simp]: "str_bytes room \<noteq> str_bytes (room @ kObjectTopicSuffix)"
  by (simp add: str_bytes_def kObjectTopicSuffix_def)

lemma receive_sub_loop_serves:
  "serves z Subscriber (two_frames messages) n n' \<Longrightarrow>
     receive_sub_loop z room d n =
       Some (\<lparr>last_avatar = newest_of (last_avatar d) (on_topic room messages),
              last_object = newest_of (last_object d) (on_topic (room @ kObjectTopicSuffix) messages),
              avatar_frames = avatar_frames d + length (on_topic room messages)\<rparr>, n')"
proof (induction messages arbitrary: n d)
  case Nil
  then show ?case by (subst receive_sub_loop.simps) (simp add: newest_of_def)
next
  case (Cons m messages)
  obtain topic data where m: "m = (topic, data)" by (cases m)
  from Cons.prems obtain n1 n2 where r: "zmq_msg_recv z Subscriber n = (Some (topic, True), n1)"
    "zmq_msg_recv z Subscriber n1 = (Some (data, False), n2)" "serves z Subscriber (two_frames messages) n2 n'"
    by (auto simp: m split: prod.splits)
  show ?case
    by (subst receive_sub_loop.simps) (auto simp: r(1,2) m Cons.IH [OF r(3)] note_frame_def newest_of_def)
qed

definition hand_over :: "(TransportLane \<Rightarrow> bytes \<Rightarrow> 'h \<Rightarrow> 'h) \<Rightarrow> TransportLane \<Rightarrow> bytes list \<Rightarrow> 'h \<Rightarrow> 'h" where
  "hand_over f lane frames h = (if frames = [] then h else f lane (last frames) h)"

lemma receive_control_serves:
  "serves z ControlDealer (two_frames messages) n n' \<Longrightarrow> on_payload cb = Some f \<Longrightarrow>
     receive_control z cb t h n =
       Some (t\<lparr>messages_received := messages_received t + word_of_nat (length messages)\<rparr>,
             fold (f LaneControl) (on_topic (transport_room_id t) messages) h, n')"
proof (induction messages arbitrary: n t h)
  case Nil
  then show ?case by (subst receive_control.simps) simp
next
  case (Cons m messages)
  obtain room data where m: "m = (room, data)" by (cases m)
  from Cons.prems obtain n1 n2 where r: "zmq_msg_recv z ControlDealer n = (Some (room, True), n1)"
    "zmq_msg_recv z ControlDealer n1 = (Some (data, False), n2)" "serves z ControlDealer (two_frames messages) n2 n'"
    by (auto simp: m split: prod.splits)
  have b: "bytes_str room = x \<longleftrightarrow> room = str_bytes x" for x
    by (metis bytes_str_str_bytes str_bytes_bytes_str)
  show ?case
    by (subst receive_control.simps) (auto simp: r(1,2) m b Cons.IH [OF r(3) Cons.prems(2)] Cons.prems(2) add.assoc)
qed

section \<open>A library that takes everything\<close>

text \<open>An instance of the library for the examples: it delivers every message, and gives the frames of
  its inboxes.\<close>

record loop_net =
  wire :: "Socket \<Rightarrow> (bytes \<times> bytes) list"
  opened :: bytes
  inbox :: "Socket \<Rightarrow> (bytes \<times> bool) list"

definition accepting_zmq :: "loop_net Zmq" where
  "accepting_zmq = \<lparr>zmq_ctx_new = Pair True, zmq_socket = \<lambda>_. Pair True, zmq_setsockopt = \<lambda>_ _. Pair True,
     zmq_connect = \<lambda>_ _. Pair True, zmq_poll_out = \<lambda>_. Pair True,
     zmq_send = \<lambda>socket data follows n.
       (True, if follows then n\<lparr>opened := data\<rparr>
              else n\<lparr>wire := (wire n)(socket := wire n socket @ [(opened n, data)])\<rparr>),
     zmq_msg_recv = \<lambda>socket n. (case inbox n socket of [] \<Rightarrow> (None, n)
       | frame # frames \<Rightarrow> (Some frame, n\<lparr>inbox := (inbox n)(socket := frames)\<rparr>)),
     zmq_errno = \<lambda>_. 0, zmq_strerror = \<lambda>_. []\<rparr>"

definition silent :: "'h TransportCallbacks" where
  "silent = \<lparr>on_payload = None, on_connected = None, on_error = None, on_log = None\<rparr>"

lemma accepting_atomic: "multipart_atomic accepting_zmq (\<lambda>k n. wire n k)"
  by (simp add: multipart_atomic_def accepting_zmq_def)

definition running_transport :: ZmqTransport where
  "running_transport = ZmqTransport_init (\<lambda>_. dlit 1)\<lparr>running := True\<rparr>"

lemma running_usable: "\<not> unusable running_transport"
  by (simp add: running_transport_def ZmqTransport_init_def unusable_def)

lemma running_outbox: "control_outbox running_transport = []"
  by (simp add: running_transport_def ZmqTransport_init_def)

section \<open>Properties\<close>

text \<open>C24. Whatever the interleaving of the two threads, the control lane is a bounded first-in first-out
  queue: at most 256 payloads wait in the outbox, and the payloads accepted so far are, in their
  order, those that left the lane (sent or expired) followed by those that wait. None is lost,
  duplicated or reordered.\<close>

theorem control_lane_fifo:
  assumes "lane_reachable z cb (ZmqTransport_init clock\<lparr>running := True\<rparr>) s"
  shows "length (control_outbox (tr s)) \<le> 256 \<and>
    accepted s = map fst (settled s) @ map payload (queued (tr s))"
proof -
  have "control_inv s \<and> pose_inv s"
    by (rule lane_reachable_inv [OF assms]) (simp_all add: ZmqTransport_init_def)
  then show ?thesis by (simp add: control_inv_def kControlOutboxMax_def)
qed

theorem control_lane_fifo_witness:
  "let s = (lanes_init running_transport)\<lparr>tr := snd (try_enqueue_control [7] running_transport), accepted := [[7]]\<rparr>
   in accepted s = map fst (settled s) @ map payload (queued (tr s)) \<and> map payload (queued (tr s)) = [[7]]"
proof -
  let ?e = "try_enqueue_control [7] running_transport"
  let ?s = "(lanes_init running_transport)\<lparr>tr := snd ?e, accepted := [[7]]\<rparr>"
  have ok: "fst ?e" by (simp add: try_enqueue_control_def running_usable running_outbox Let_def monotonic_seconds_def kControlOutboxMax_def)
  have "lane_step accepting_zmq (silent :: unit TransportCallbacks) (lanes_init running_transport) ?s"
    using lane_step.enqueue [of "[7]" "lanes_init running_transport" True "snd ?e" accepting_zmq silent] ok
    by (simp add: lanes_init_def prod_eq_iff)
  then have r: "lane_reachable accepting_zmq (silent :: unit TransportCallbacks) running_transport ?s"
    by (blast intro: lane_reachable.intros)
  show ?thesis using control_lane_fifo [OF r [unfolded running_transport_def]]
    by (simp add: running_transport_def lanes_init_def)
qed

text \<open>C25. Whatever the interleaving, no pose update is lost: when the slot is empty the pose sent last is
  the pose written last, and when it is full it holds the pose written last.\<close>

theorem pose_slot_latest_wins:
  assumes "lane_reachable z cb (ZmqTransport_init clock\<lparr>running := True\<rparr>) s"
  shows "newest s =
    (if has_latest_transform (tr s) then Some (payload (latest_transform (tr s)))
     else if published s = [] then None else Some (last (published s)))"
proof -
  have "control_inv s \<and> pose_inv s"
    by (rule lane_reachable_inv [OF assms]) (simp_all add: ZmqTransport_init_def)
  then show ?thesis by (auto simp: pose_inv_def)
qed

theorem pose_slot_latest_wins_witness:
  "let s = (lanes_init running_transport)\<lparr>tr := set_latest_transform [9] running_transport, newest := Some [9]\<rparr>
   in newest s = Some (payload (latest_transform (tr s)))"
proof -
  let ?s = "(lanes_init running_transport)\<lparr>tr := set_latest_transform [9] running_transport, newest := Some [9]\<rparr>"
  have "lane_step accepting_zmq (silent :: unit TransportCallbacks) (lanes_init running_transport) ?s"
    using lane_step.set_pose [of "[9]" "lanes_init running_transport" _ accepting_zmq silent, OF refl] running_usable
    by (simp add: lanes_init_def)
  then have r: "lane_reachable accepting_zmq (silent :: unit TransportCallbacks) running_transport ?s"
    by (blast intro: lane_reachable.intros)
  show ?thesis using pose_slot_latest_wins [OF r [unfolded running_transport_def]] running_usable
    by (simp add: running_transport_def set_latest_frame)
qed

text \<open>C26. A drain of the control lane takes packets from the front, drops those older than five seconds,
  hands the others to the server's room in order, at most 64 of them, and stops early only at a
  packet that has not expired and was refused.\<close>

theorem drain_control_sends_fifo:
  assumes "multipart_atomic z delivered" "drain_control_sends z cb (t, h, n) = (did_work, t', h', n')"
  shows "\<exists>taken. queued t = taken @ queued t' \<and>
    delivered ControlDealer n' = delivered ControlDealer n @
      map (\<lambda>packet. (str_bytes (transport_room_id t), payload packet))
        (live (packet_expired (readings t 0)) taken) \<and>
    length (live (packet_expired (readings t 0)) taken) \<le> 64 \<and>
    (queued t' = [] \<or> length (live (packet_expired (readings t 0)) taken) = 64 \<or>
     \<not> packet_expired (readings t 0) (hd (queued t')))"
proof -
  let ?t = "t\<lparr>readings := \<lambda>i. readings t (Suc i)\<rparr>"
  have "drain_loop z cb (readings t 0) 0 False (?t, h, n) = (did_work, t', h', n')"
    using assms(2) by (simp add: drain_control_sends_def monotonic_seconds_def)
  from drain_loop_drains [OF this, of "transport_room_id t"]
  have "drain (packet_expired (readings t 0)) (discard_packet cb) (transmit_packet z cb (transport_room_id t)) 64
      (queued t) (unqueued ?t, h, n) = (queued t', unqueued t', h', n')"
    by (simp add: kControlDrainBatch_def)
  from ttl_queue.drain_fifo [OF control_ttl_queue [OF assms(1)] this]
  show ?thesis by simp
qed

theorem drain_control_sends_fifo_witness:
  "let t = snd (try_enqueue_control [7] running_transport);
       w = drain_control_sends accepting_zmq (silent :: unit TransportCallbacks)
             (t, (), \<lparr>wire = \<lambda>_. [], opened = [], inbox = \<lambda>_. []\<rparr>)
   in \<exists>taken. queued t = taken @ queued (fst (snd w)) \<and>
        wire (snd (snd (snd w))) ControlDealer = map (\<lambda>packet. ([], payload packet)) (live (packet_expired (dlit 1)) taken)"
proof -
  let ?t = "snd (try_enqueue_control [7] running_transport)"
  let ?n = "\<lparr>wire = \<lambda>_. [], opened = [], inbox = \<lambda>_. []\<rparr>"
  obtain b t' h' n' where d: "drain_control_sends accepting_zmq (silent :: unit TransportCallbacks) (?t, (), ?n) = (b, t', h', n')"
    by (metis prod_cases4)
  have "readings ?t 0 = dlit 1" "transport_room_id ?t = []"
    by (simp_all add: try_enqueue_control_def Let_def monotonic_seconds_def running_transport_def ZmqTransport_init_def)
  then show ?thesis using drain_control_sends_fifo [OF accepting_atomic d] d by (auto simp: Let_def str_bytes_def)
qed

text \<open>C27. A drain of the sockets returns when they run dry and delivers exactly what is addressed to the
  room: of the pose frames and of the object frames on the room's own topics the newest of each, and
  every control payload that carries the room's id, in order. Frames of other rooms, even of rooms
  whose id begins with this one, are delivered to nobody.\<close>

theorem receive_delivers_own_room:
  assumes "serves z Subscriber (two_frames broadcast) n n1" "serves z ControlDealer (two_frames unicast) n1 n2"
    and "on_payload cb = Some f" and "transport_room_id t = room"
  shows "\<exists>t1 t2 h1. receive_sub z cb (t, h, n) = Some (t1, h1, n1) \<and>
    h1 = hand_over f LaneRoomObjects (on_topic (room @ kObjectTopicSuffix) broadcast)
           (hand_over f LaneRoomPose (on_topic room broadcast) h) \<and>
    receive_control z cb t1 h1 n1 = Some (t2, fold (f LaneControl) (on_topic room unicast) h1, n2)"
proof -
  let ?d = "\<lparr>last_avatar = None, last_object = None, avatar_frames = 0\<rparr>"
  have "\<exists>t1. receive_sub z cb (t, h, n) = Some (t1, hand_over f LaneRoomObjects (on_topic (room @ kObjectTopicSuffix) broadcast)
      (hand_over f LaneRoomPose (on_topic room broadcast) h), n1) \<and> transport_room_id t1 = room"
    using assms(3,4) receive_sub_loop_serves [OF assms(1), of room ?d]
    by (simp add: receive_sub_def Let_def deliver_def newest_of_def hand_over_def)
  then show ?thesis using receive_control_serves [OF assms(2,3)] by fastforce
qed

theorem receive_delivers_own_room_witness:
  "let n = \<lparr>wire = \<lambda>_. [], opened = [],
            inbox = (\<lambda>_. [])(Subscriber := two_frames [(str_bytes ''a'', [1]), (str_bytes ''ab'', [2]), (str_bytes ''a'', [3])])\<rparr>;
       cb = silent\<lparr>on_payload := Some (\<lambda>lane data h. h @ [(lane, data)])\<rparr>;
       t = running_transport\<lparr>transport_room_id := ''a''\<rparr>
   in \<exists>t1. receive_sub accepting_zmq cb (t, [], n) = Some (t1, [(LaneRoomPose, [3])], n\<lparr>inbox := \<lambda>_. []\<rparr>)"
proof -
  let ?n = "\<lparr>wire = \<lambda>_. [], opened = [],
            inbox = (\<lambda>_. [])(Subscriber := two_frames [(str_bytes ''a'', [1]), (str_bytes ''ab'', [2]), (str_bytes ''a'', [3])])\<rparr>"
  let ?cb = "silent\<lparr>on_payload := Some (\<lambda>lane data h. h @ [(lane, data)])\<rparr>"
  let ?t = "running_transport\<lparr>transport_room_id := ''a''\<rparr>"
  have "serves accepting_zmq Subscriber (two_frames [(str_bytes ''a'', [1]), (str_bytes ''ab'', [2]), (str_bytes ''a'', [3])]) ?n (?n\<lparr>inbox := \<lambda>_. []\<rparr>)"
    "serves accepting_zmq ControlDealer (two_frames []) (?n\<lparr>inbox := \<lambda>_. []\<rparr>) (?n\<lparr>inbox := \<lambda>_. []\<rparr>)"
    by (auto simp: accepting_zmq_def fun_eq_iff)
  from receive_delivers_own_room [OF this, of ?cb _ ?t "''a''" "[]"]
  show ?thesis by (auto simp: hand_over_def str_bytes_def kObjectTopicSuffix_def silent_def)
qed

text \<open>An address may carry the scheme and a port of its own: both are replaced, so that \<open>tcp://host:port\<close>
  and \<open>host\<close> name the same endpoint.\<close>

lemma build_endpoint_normalises:
  assumes "CHR '':'' \<notin> set host" "CHR '']'' \<notin> set host"
  shows "build_endpoint (''tcp://'' @ host @ '':'' @ dec_nat own_port) port = ''tcp://'' @ host @ '':'' @ dec_int port \<and>
    build_endpoint (''tcp://'' @ host) port = ''tcp://'' @ host @ '':'' @ dec_int port \<and>
    build_endpoint host port = ''tcp://'' @ host @ '':'' @ dec_int port"
proof -
  have d: "CHR '':'' \<notin> set (dec_nat own_port)" "CHR '']'' \<notin> set (dec_nat own_port)" "list_all is_digit (dec_nat own_port)"
    "dec_nat own_port \<noteq> []"
    using dec_nat_digits [of own_port] by (auto simp: list_all_iff is_digit_def dec_nat_def)
  have tw: "takeWhile (\<lambda>c. c \<noteq> CHR '':'') (host @ CHR '':'' # ys) = host"
    "dropWhile (\<lambda>c. c \<noteq> CHR '':'') (host @ CHR '':'' # ys) = CHR '':'' # ys" for ys
    using assms(1) by (auto simp: takeWhile_append dropWhile_append)
  have "take (length ''tcp://'') host \<noteq> ''tcp://''"
  proof
    assume "take (length ''tcp://'') host = ''tcp://''"
    then have "CHR '':'' \<in> set (take (length ''tcp://'') host)" by simp
    then show False using assms(1) by (auto dest: in_set_takeD)
  qed
  then show ?thesis using assms d by (simp add: build_endpoint_def Let_def tw)
qed

lemma build_endpoint_normalises_example:
  "build_endpoint ''tcp://example.org:5555'' 7 = ''tcp://example.org:7''"
proof -
  have "dec_nat 5555 = ''5555''" "dec_int 7 = ''7''" by code_simp+
  then show ?thesis using build_endpoint_normalises [of "''example.org''" 5555 7] by simp
qed

end
