(* ===== verification/Discovery.thy ===== *)
theory Discovery
  imports Prelude Text "HOL-Library.Signed_Division"
begin

text \<open>
  \<open>src/transport/server_discovery.*\<close>: the discovery reply parser, the interface enumeration, the TCP
  probe, the broadcast round and the discovery thread. The socket functions of the operating system
  are the record \<open>Os\<close> over its state \<open>'n\<close> (the POSIX branch of the sources); the callbacks act on
  the owner's state \<open>'h\<close>. The atomics \<open>should_stop_\<close> and \<open>discovering_\<close> are written by another
  thread while the discovery thread runs, so its reads of \<open>should_stop_\<close> are answered by the
  environment.
\<close>

section \<open>Data\<close>

definition kDiscoveryRequest :: string where "kDiscoveryRequest = ''STYLY-NETSYNC-DISCOVER''"
definition kDiscoveryResponseVersion :: string where "kDiscoveryResponseVersion = ''STYLY-NETSYNC3''"

record DiscoveredServer =
  ds_address :: string
  ds_ip :: string
  ds_control_port :: int
  ds_transform_port :: int
  ds_sub_port :: int
  ds_rest_api_port :: int
  ds_server_name :: string

definition DiscoveredServer_default :: DiscoveredServer where
  "DiscoveredServer_default = \<lparr>ds_address = [], ds_ip = [], ds_control_port = 0, ds_transform_port = 0,
     ds_sub_port = 0, ds_rest_api_port = 0, ds_server_name = []\<rparr>"

record LocalInterface =
  li_address :: string
  li_broadcast :: string

record ServerDiscovery =
  discovering :: bool
  discovery_should_stop :: bool
  discovery_joinable :: bool
  discovery_port :: int
  tcp_connect_timeout_ms :: int
  udp_receive_timeout_ms :: int

definition ServerDiscovery_init :: ServerDiscovery where
  "ServerDiscovery_init = \<lparr>discovering = False, discovery_should_stop = False, discovery_joinable = False,
     discovery_port = 9999, tcp_connect_timeout_ms = 300, udp_receive_timeout_ms = 500\<rparr>"

definition set_port :: "int \<Rightarrow> ServerDiscovery \<Rightarrow> ServerDiscovery" where
  "set_port port d = d\<lparr>discovery_port := port\<rparr>"

section \<open>The reply parser\<close>

function split :: "string \<Rightarrow> char \<Rightarrow> string list" where
  "split inp delimiter =
     (if delimiter \<notin> set inp then [inp]
      else takeWhile (\<lambda>c. c \<noteq> delimiter) inp # split (tl (dropWhile (\<lambda>c. c \<noteq> delimiter) inp)) delimiter)"
  by pat_completeness auto

lemma split_shorter: "delimiter \<in> set inp \<Longrightarrow> length (tl (dropWhile (\<lambda>c. c \<noteq> delimiter) inp)) < length inp"
  by (induction inp) (auto split: if_splits)

termination split
  by (relation "measure (\<lambda>(inp, _). length inp)") (auto simp: split_shorter simp del: length_tl)

declare split.simps [simp del]

fun parse_port_loop :: "string \<Rightarrow> int \<Rightarrow> int option" where
  "parse_port_loop [] value = Some value"
| "parse_port_loop (c # cs) value =
     (if \<not> is_digit c then None
      else let value = value * 10 + int (digit_value c)
           in if value > 65535 then None else parse_port_loop cs value)"

definition parse_port :: "string \<Rightarrow> int option" where
  "parse_port inp = (if inp = [] then None else parse_port_loop inp 0)"

definition is_trailing :: "char \<Rightarrow> bool" where
  "is_trailing c \<longleftrightarrow> c \<in> {CHR 0x0A, CHR 0x0D, CHR '' '', CHR 0x09, CHR 0x00}"

definition rstrip :: "string \<Rightarrow> string" where
  "rstrip inp = rev (dropWhile is_trailing (rev inp))"

definition join_rest :: "string list \<Rightarrow> string" where
  "join_rest parts = concat (map (\<lambda>part. CHR ''|'' # part) parts)"

definition parse_discovery_response :: "string \<Rightarrow> string \<Rightarrow> DiscoveredServer option" where
  "parse_discovery_response message sender_ip =
     (let parts = split (rstrip message) (CHR ''|'') in
      if length parts < 6 \<or> parts ! 0 \<noteq> kDiscoveryResponseVersion then None
      else case (parse_port (parts ! 1), parse_port (parts ! 2), parse_port (parts ! 3), parse_port (parts ! 4)) of
        (Some control_port, Some transform_port, Some sub_port, Some rest_api_port) \<Rightarrow>
          Some \<lparr>ds_address = ''tcp://'' @ sender_ip, ds_ip = sender_ip, ds_control_port = control_port,
                ds_transform_port = transform_port, ds_sub_port = sub_port, ds_rest_api_port = rest_api_port,
                ds_server_name = parts ! 5 @ join_rest (drop 6 parts)\<rparr>
      | _ \<Rightarrow> None)"

section \<open>The operating system and the callbacks\<close>

datatype SocketType = SOCK_STREAM | SOCK_DGRAM
datatype ConnectResult = ConnectDone | ConnectInProgress | ConnectFailed

text \<open>An entry of \<open>getifaddrs\<close>: the IPv4 address if it has one, the flags, and the broadcast address
  and netmask if set.\<close>

record IfAddr =
  ifa_addr :: "u32 option"
  ifa_up :: bool
  ifa_loopback :: bool
  ifa_has_broadcast :: bool
  ifa_broadaddr :: "u32 option"
  ifa_netmask :: "u32 option"

record 'n Os =
  os_socket :: "SocketType \<Rightarrow> 'n \<Rightarrow> int option \<times> 'n"
  os_close :: "int \<Rightarrow> 'n \<Rightarrow> 'n"
  os_fcntl_getfl :: "int \<Rightarrow> 'n \<Rightarrow> 32 word \<times> 'n"
  os_fcntl_setfl :: "int \<Rightarrow> 32 word \<Rightarrow> 'n \<Rightarrow> 'n"
  os_nonblock :: "32 word"
  os_set_rcvtimeo :: "int \<Rightarrow> int \<times> int \<Rightarrow> 'n \<Rightarrow> 'n"
  os_enable_broadcast :: "int \<Rightarrow> 'n \<Rightarrow> 'n"
  os_inet_pton :: "string \<Rightarrow> u32 option"
  os_inet_ntop :: "u32 \<Rightarrow> string"
  os_connect :: "int \<Rightarrow> u32 \<Rightarrow> u16 \<Rightarrow> 'n \<Rightarrow> ConnectResult \<times> 'n"
  os_select_writable :: "int \<Rightarrow> int \<Rightarrow> 'n \<Rightarrow> bool \<times> 'n"
  os_socket_error :: "int \<Rightarrow> 'n \<Rightarrow> int option \<times> 'n"
  os_send :: "int \<Rightarrow> string \<Rightarrow> 'n \<Rightarrow> bool \<times> 'n"
  os_recv :: "int \<Rightarrow> 'n \<Rightarrow> string option \<times> 'n"
  os_bind :: "int \<Rightarrow> u32 \<Rightarrow> 'n \<Rightarrow> bool \<times> 'n"
  os_sendto :: "int \<Rightarrow> string \<Rightarrow> u32 \<Rightarrow> u16 \<Rightarrow> 'n \<Rightarrow> 'n"
  os_recvfrom :: "int \<Rightarrow> 'n \<Rightarrow> (string \<times> u32) option \<times> 'n"
  os_getifaddrs :: "'n \<Rightarrow> IfAddr list option \<times> 'n"
  os_should_stop :: "'n \<Rightarrow> bool \<times> 'n"

text \<open>The socket helpers, in their POSIX branches; \<open>os_nonblock\<close> is the value of \<open>O_NONBLOCK\<close>, and a timeout
  is its seconds and microseconds.\<close>

definition set_non_blocking :: "'n Os \<Rightarrow> int \<Rightarrow> 'n \<Rightarrow> 'n" where
  "set_non_blocking os handle n =
     (let (flags, n) = os_fcntl_getfl os handle n
      in if 0 \<le> sint flags then os_fcntl_setfl os handle (flags OR os_nonblock os) n else n)"

definition set_blocking :: "'n Os \<Rightarrow> int \<Rightarrow> 'n \<Rightarrow> 'n" where
  "set_blocking os handle n =
     (let (flags, n) = os_fcntl_getfl os handle n
      in if 0 \<le> sint flags then os_fcntl_setfl os handle (flags AND NOT (os_nonblock os)) n else n)"

definition set_receive_timeout :: "'n Os \<Rightarrow> int \<Rightarrow> int \<Rightarrow> 'n \<Rightarrow> 'n" where
  "set_receive_timeout os handle milliseconds n =
     os_set_rcvtimeo os handle (milliseconds sdiv 1000, (milliseconds smod 1000) * 1000) n"

record 'h DiscoveryCallbacks =
  on_found :: "(DiscoveredServer \<Rightarrow> 'h \<Rightarrow> 'h) option"
  discovery_on_log :: "(string \<Rightarrow> 'h \<Rightarrow> 'h) option"
  cache_reader :: "('h \<Rightarrow> string \<times> 'h) option"
  cache_writer :: "(string \<Rightarrow> 'h \<Rightarrow> 'h) option"

definition discovery_log :: "'h DiscoveryCallbacks \<Rightarrow> string \<Rightarrow> 'h \<Rightarrow> 'h" where
  "discovery_log cb message h = (case discovery_on_log cb of None \<Rightarrow> h | Some f \<Rightarrow> f message h)"

text \<open>The IPv4 interfaces that are up and not loopback, with their broadcast address.\<close>

definition interface_of :: "'n Os \<Rightarrow> IfAddr \<Rightarrow> LocalInterface option" where
  "interface_of os entry =
     (case ifa_addr entry of
        None \<Rightarrow> None
      | Some address \<Rightarrow>
          if \<not> ifa_up entry \<or> ifa_loopback entry then None
          else
            let broadcast =
                  (case (ifa_has_broadcast entry, ifa_broadaddr entry, ifa_netmask entry) of
                     (True, Some b, _) \<Rightarrow> os_inet_ntop os b
                   | (_, _, Some netmask) \<Rightarrow> os_inet_ntop os ((address AND netmask) OR NOT netmask)
                   | _ \<Rightarrow> [])
            in Some \<lparr>li_address = os_inet_ntop os address,
                     li_broadcast = (if broadcast = [] then ''255.255.255.255'' else broadcast)\<rparr>)"

definition enumerate_local_interfaces :: "'n Os \<Rightarrow> 'n \<Rightarrow> LocalInterface list \<times> 'n" where
  "enumerate_local_interfaces os n =
     (case os_getifaddrs os n of
        (None, n) \<Rightarrow> ([], n)
      | (Some entries, n) \<Rightarrow> (List.map_filter (interface_of os) entries, n))"

text \<open>The exchange on a connected socket, and the whole probe; the socket is closed on every path.\<close>

definition exchange :: "'n Os \<Rightarrow> int \<Rightarrow> string \<Rightarrow> 'n \<Rightarrow> DiscoveredServer option \<times> 'n" where
  "exchange os handle ip n =
     (let n = set_receive_timeout os handle 1000 (set_blocking os handle n);
          (ok, n) = os_send os handle kDiscoveryRequest n
      in if \<not> ok then (None, n)
         else case os_recv os handle n of
             (None, n) \<Rightarrow> (None, n)
           | (Some received, n) \<Rightarrow> (parse_discovery_response received ip, n))"

definition await_connect :: "'n Os \<Rightarrow> int \<Rightarrow> int \<Rightarrow> 'n \<Rightarrow> bool \<times> 'n" where
  "await_connect os handle timeout_ms n =
     (let (writable, n) = os_select_writable os handle timeout_ms n
      in if \<not> writable then (False, n)
         else let (error, n) = os_socket_error os handle n in (error = Some 0, n))"

definition probe_connected :: "'n Os \<Rightarrow> int \<Rightarrow> string \<Rightarrow> int \<Rightarrow> int \<Rightarrow> 'n \<Rightarrow> DiscoveredServer option \<times> 'n" where
  "probe_connected os port ip timeout_ms handle n =
     (case os_inet_pton os ip of
        None \<Rightarrow> (None, n)
      | Some address \<Rightarrow>
          (case os_connect os handle address (word_of_int port) (set_non_blocking os handle n) of
             (ConnectDone, n) \<Rightarrow> exchange os handle ip n
           | (ConnectFailed, n) \<Rightarrow> (None, n)
           | (ConnectInProgress, n) \<Rightarrow>
               let (ok, n) = await_connect os handle timeout_ms n
               in if ok then exchange os handle ip n else (None, n)))"

definition probe_tcp :: "'n Os \<Rightarrow> ServerDiscovery \<Rightarrow> string \<Rightarrow> int \<Rightarrow> 'n \<Rightarrow> DiscoveredServer option \<times> 'n" where
  "probe_tcp os d ip timeout_ms n =
     (case os_socket os SOCK_STREAM n of
        (None, n) \<Rightarrow> (None, n)
      | (Some handle, n) \<Rightarrow>
          let (found, n) = probe_connected os (discovery_port d) ip timeout_ms handle n
          in (found, os_close os handle n))"

definition report :: "'h DiscoveryCallbacks \<Rightarrow> DiscoveredServer \<Rightarrow> bool \<Rightarrow> ServerDiscovery \<times> 'h \<Rightarrow> ServerDiscovery \<times> 'h" where
  "report cb server cache_ip = (\<lambda>(d, h).
     let h = (case cache_writer cb of
                None \<Rightarrow> h
              | Some f \<Rightarrow> if cache_ip \<and> ds_ip server \<noteq> [] then f (ds_ip server) h else h)
     in (d\<lparr>discovering := False\<rparr>, case on_found cb of None \<Rightarrow> h | Some f \<Rightarrow> f server h))"

definition discovery_start :: "ServerDiscovery \<Rightarrow> bool \<times> ServerDiscovery" where
  "discovery_start d =
     (if discovering d \<or> discovery_joinable d then (False, d)
      else (True, d\<lparr>discovery_should_stop := False, discovering := True, discovery_joinable := True\<rparr>))"

definition discovery_stop :: "ServerDiscovery \<Rightarrow> ServerDiscovery" where
  "discovery_stop d = d\<lparr>discovery_should_stop := True, discovering := False, discovery_joinable := False\<rparr>"

section \<open>The discovery thread\<close>

fun send_requests :: "'n Os \<Rightarrow> int \<Rightarrow> int list \<Rightarrow> LocalInterface list \<Rightarrow> 'n \<Rightarrow> 'n" where
  "send_requests os port [] interfaces n = n"
| "send_requests os port (handle # handles) interfaces n =
     (let broadcast = (case interfaces of [] \<Rightarrow> ''255.255.255.255'' | i # _ \<Rightarrow> li_broadcast i);
          n = (case os_inet_pton os broadcast of
                 None \<Rightarrow> n
               | Some destination \<Rightarrow> os_sendto os handle kDiscoveryRequest destination (word_of_int port) n)
      in send_requests os port handles (tl interfaces) n)"

definition single_quote :: char where "single_quote = CHR 0x27"

fun receive_replies ::
  "'n Os \<Rightarrow> 'h DiscoveryCallbacks \<Rightarrow> int list \<Rightarrow> ServerDiscovery \<times> 'h \<times> 'n \<Rightarrow> bool \<times> ServerDiscovery \<times> 'h \<times> 'n" where
  "receive_replies os cb [] (d, h, n) = (False, d, h, n)"
| "receive_replies os cb (handle # handles) (d, h, n) =
     (case os_should_stop os n of
        (True, n) \<Rightarrow> (True, d, h, n)
      | (False, n) \<Rightarrow>
          (case os_recvfrom os handle n of
             (None, n) \<Rightarrow> receive_replies os cb handles (d, h, n)
           | (Some (received, sender), n) \<Rightarrow>
               let sender_text = os_inet_ntop os sender in
               (case parse_discovery_response received sender_text of
                  Some found \<Rightarrow>
                    let h = discovery_log cb (''discovered server '' @ single_quote # ds_server_name found @
                              single_quote # '' at '' @ ds_address found) h;
                        (d, h) = report cb found True (d, h)
                    in (True, d, h, n)
                | None \<Rightarrow>
                    receive_replies os cb handles
                      (d, discovery_log cb (''ignoring non-matching discovery response from '' @ sender_text) h, n))))"

text \<open>The sleep at the end of a fruitless round has no effect on the state.\<close>

definition broadcast_round ::
  "'n Os \<Rightarrow> 'h DiscoveryCallbacks \<Rightarrow> int list \<Rightarrow> LocalInterface list \<Rightarrow> ServerDiscovery \<times> 'h \<times> 'n \<Rightarrow>
     bool \<times> ServerDiscovery \<times> 'h \<times> 'n" where
  "broadcast_round os cb sockets interfaces = (\<lambda>(d, h, n).
     receive_replies os cb sockets (d, h, send_requests os (discovery_port d) sockets interfaces n))"

partial_function (option) broadcast_rounds ::
  "'n Os \<Rightarrow> 'h DiscoveryCallbacks \<Rightarrow> int list \<Rightarrow> LocalInterface list \<Rightarrow> ServerDiscovery \<Rightarrow> 'h \<Rightarrow> 'n \<Rightarrow>
     (ServerDiscovery \<times> 'h \<times> 'n) option" where
  "broadcast_rounds os cb sockets interfaces d h n =
     (case os_should_stop os n of
        (stop, n) \<Rightarrow>
          if stop \<or> \<not> discovering d then Some (d, h, n)
          else
            (case broadcast_round os cb sockets interfaces (d, h, n) of
               (finished, d, h, n) \<Rightarrow>
                 if finished then Some (d, h, n) else broadcast_rounds os cb sockets interfaces d h n))"

fun bind_interfaces ::
  "'n Os \<Rightarrow> 'h DiscoveryCallbacks \<Rightarrow> ServerDiscovery \<Rightarrow> LocalInterface list \<Rightarrow> (int \<times> LocalInterface) list \<Rightarrow> 'h \<times> 'n \<Rightarrow>
     (int \<times> LocalInterface) list \<times> 'h \<times> 'n" where
  "bind_interfaces os cb d [] bound (h, n) = (bound, h, n)"
| "bind_interfaces os cb d (item # items) bound (h, n) =
     (case os_socket os SOCK_DGRAM n of
        (None, n) \<Rightarrow> bind_interfaces os cb d items bound (h, n)
      | (Some handle, n) \<Rightarrow>
          let n = os_enable_broadcast os handle n;
              (ok, n) = (case os_inet_pton os (li_address item) of
                           None \<Rightarrow> (False, n)
                         | Some address \<Rightarrow> os_bind os handle address n)
          in if \<not> ok then bind_interfaces os cb d items bound (h, os_close os handle n)
             else bind_interfaces os cb d items (bound @ [(handle, item)])
                    (discovery_log cb (''discovery socket bound to '' @ li_address item) h,
                     set_receive_timeout os handle (udp_receive_timeout_ms d) n))"

definition fallback_socket ::
  "'n Os \<Rightarrow> 'h DiscoveryCallbacks \<Rightarrow> ServerDiscovery \<Rightarrow> (int \<times> LocalInterface) list \<Rightarrow> 'h \<times> 'n \<Rightarrow>
     (int \<times> LocalInterface) list \<times> 'h \<times> 'n" where
  "fallback_socket os cb d bound = (\<lambda>(h, n).
     if bound \<noteq> [] then (bound, h, n)
     else case os_socket os SOCK_DGRAM n of
         (None, n) \<Rightarrow> (bound, h, n)
       | (Some handle, n) \<Rightarrow>
           ([(handle, \<lparr>li_address = ''0.0.0.0'', li_broadcast = ''255.255.255.255''\<rparr>)],
            discovery_log cb ''using fallback unbound discovery socket'' h,
            set_receive_timeout os handle (udp_receive_timeout_ms d) (os_enable_broadcast os handle n)))"

definition broadcast_search ::
  "'n Os \<Rightarrow> 'h DiscoveryCallbacks \<Rightarrow> ServerDiscovery \<times> 'h \<times> 'n \<Rightarrow> (ServerDiscovery \<times> 'h \<times> 'n) option" where
  "broadcast_search os cb = (\<lambda>(d, h, n).
     let (interfaces, n) = enumerate_local_interfaces os n;
         (bound, h, n) = bind_interfaces os cb d interfaces [] (h, n);
         (bound, h, n) = fallback_socket os cb d bound (h, n)
     in case broadcast_rounds os cb (map fst bound) (map snd bound) d h n of
          None \<Rightarrow> None
        | Some (d, h, n) \<Rightarrow> Some (d, h, fold (os_close os) (map fst bound) n))"

text \<open>Probing the cached server: the found server, if it answered.\<close>

definition probe_cached ::
  "'n Os \<Rightarrow> 'h DiscoveryCallbacks \<Rightarrow> ServerDiscovery \<Rightarrow> 'h \<times> 'n \<Rightarrow> DiscoveredServer option \<times> 'h \<times> 'n" where
  "probe_cached os cb d = (\<lambda>(h, n).
     case cache_reader cb of
       None \<Rightarrow> (None, h, n)
     | Some reader \<Rightarrow>
         let (cached, h) = reader h
         in if cached = [] then (None, h, n)
            else
              let h = discovery_log cb (''probing cached server '' @ cached) h
              in case probe_tcp os d cached (tcp_connect_timeout_ms d) n of
                  (None, n) \<Rightarrow> (None, h, n)
                | (Some found, n) \<Rightarrow> (Some found, discovery_log cb (''server found at cached address '' @ cached) h, n))"

definition discovery_loop ::
  "'n Os \<Rightarrow> 'h DiscoveryCallbacks \<Rightarrow> ServerDiscovery \<times> 'h \<times> 'n \<Rightarrow> (ServerDiscovery \<times> 'h \<times> 'n) option" where
  "discovery_loop os cb = (\<lambda>(d, h, n).
     let h = discovery_log cb ''probing localhost over TCP'' h
     in case probe_tcp os d ''127.0.0.1'' (tcp_connect_timeout_ms d) n of
         (Some found, n) \<Rightarrow>
           let (d, h) = report cb found False (d, discovery_log cb ''server found on localhost'' h) in Some (d, h, n)
       | (None, n) \<Rightarrow>
           let (stop, n) = os_should_stop os n
           in if stop then Some (d, h, n)
              else case probe_cached os cb d (h, n) of
                  (Some found, h, n) \<Rightarrow> let (d, h) = report cb found True (d, h) in Some (d, h, n)
                | (None, h, n) \<Rightarrow>
                    let (stop, n) = os_should_stop os n
                    in if stop then Some (d, h, n) else broadcast_search os cb (d, h, n))"

section \<open>What the parser accepts\<close>

lemma split_join: "delimiter \<notin> set a \<Longrightarrow> split (a @ delimiter # b) delimiter = a # split b delimiter"
proof -
  assume a: "delimiter \<notin> set a"
  have "takeWhile (\<lambda>c. c \<noteq> delimiter) (a @ delimiter # b) = a" "dropWhile (\<lambda>c. c \<noteq> delimiter) (a @ delimiter # b) = delimiter # b"
    using a by (auto simp: takeWhile_append dropWhile_append)
  then show ?thesis by (subst split.simps) simp
qed

lemma split_nonempty [simp]: "split inp delimiter \<noteq> []"
  by (subst split.simps) simp

lemma join_split: "hd (split inp (CHR ''|'')) @ join_rest (tl (split inp (CHR ''|''))) = inp"
proof (induction inp "CHR ''|''" rule: split.induct)
  case (1 inp)
  show ?case
  proof (cases "CHR ''|'' \<in> set inp")
    case False
    then show ?thesis by (subst (1 2) split.simps) (simp add: join_rest_def)
  next
    case True
    let ?a = "takeWhile (\<lambda>c. c \<noteq> CHR ''|'') inp" and ?b = "dropWhile (\<lambda>c. c \<noteq> CHR ''|'') inp"
    obtain rest where b: "?b = CHR ''|'' # rest"
      using True by (cases ?b) (auto simp: dropWhile_eq_Nil_conv dest: dropWhile_eq_Cons_conv [THEN iffD1])
    have sp: "split inp (CHR ''|'') = ?a # split rest (CHR ''|'')"
      using True b by (subst split.simps) simp
    have "hd (split rest (CHR ''|'')) @ join_rest (tl (split rest (CHR ''|''))) = rest"
      using 1 True b by simp
    then have "join_rest (split rest (CHR ''|'')) = CHR ''|'' # rest"
      by (cases "split rest (CHR ''|'')") (auto simp: join_rest_def)
    then show ?thesis using b by (simp add: sp) (metis takeWhile_dropWhile_id)
  qed
qed

definition next_digit :: "int \<Rightarrow> char \<Rightarrow> int" where
  "next_digit n c = 10 * n + int (digit_value c)"

lemma next_digit_mono: "0 \<le> v \<Longrightarrow> v \<le> foldl next_digit v ds"
proof (induction ds arbitrary: v)
  case (Cons d ds)
  have "0 \<le> next_digit v d" "v \<le> next_digit v d" using Cons.prems by (simp_all add: next_digit_def)
  then show ?case using Cons.IH [of "next_digit v d"] by simp
qed simp

lemma parse_port_loop_digits:
  "list_all is_digit ds \<Longrightarrow> 0 \<le> v \<Longrightarrow> foldl next_digit v ds \<le> 65535 \<Longrightarrow>
     parse_port_loop ds v = Some (foldl next_digit v ds)"
proof (induction ds arbitrary: v)
  case (Cons d ds)
  have n: "0 \<le> next_digit v d" using Cons.prems by (simp add: next_digit_def)
  have "next_digit v d \<le> 65535" using next_digit_mono [OF n, of ds] Cons.prems by simp
  moreover have "v * 10 + int (digit_value d) = next_digit v d" by (simp add: next_digit_def)
  ultimately show ?case using Cons.IH [OF _ n] Cons.prems by (simp only: parse_port_loop.simps Let_def) simp
qed simp

lemma parse_port_dec_nat [simp]: "p < 65536 \<Longrightarrow> parse_port (dec_nat p) = Some (int p)"
proof -
  assume "p < 65536"
  moreover have "foldl next_digit 0 (dec_nat p) = int p"
    using int_of_dec_nat [of p] by (simp add: int_of_digits_def next_digit_def [abs_def])
  ultimately show ?thesis using parse_port_loop_digits [OF dec_nat_digits, of 0 p]
    by (simp add: parse_port_def) (simp add: dec_nat_def)
qed

lemma parse_port_range: "parse_port inp = Some p \<Longrightarrow> 0 \<le> p \<and> p \<le> 65535"
proof -
  have "parse_port_loop ds v = Some p \<Longrightarrow> 0 \<le> v \<Longrightarrow> v \<le> 65535 \<Longrightarrow> 0 \<le> p \<and> p \<le> 65535" for ds v
    by (induction ds arbitrary: v) (auto simp: Let_def split: if_splits)
  then show "parse_port inp = Some p \<Longrightarrow> 0 \<le> p \<and> p \<le> 65535"
    by (auto simp: parse_port_def split: if_splits)
qed

lemma rstrip_trailing:
  "list_all is_trailing ws \<Longrightarrow> s = [] \<or> \<not> is_trailing (last s) \<Longrightarrow> rstrip (s @ ws) = s"
  by (cases s rule: rev_cases) (auto simp: rstrip_def list_all_iff dropWhile_append3)

lemma dec_nat_no_bar [simp]: "CHR ''|'' \<notin> set (dec_nat n)"
  using dec_nat_digits [of n] by (auto simp: list_all_iff is_digit_def)

section \<open>What the thread reports\<close>

text \<open>Callbacks that record the servers found and the addresses written to the cache.\<close>

definition recorder :: "string \<Rightarrow> (DiscoveredServer list \<times> string list) DiscoveryCallbacks" where
  "recorder cached = \<lparr>on_found = Some (\<lambda>s (found, written). (found @ [s], written)), discovery_on_log = None,
     cache_reader = Some (\<lambda>h. (cached, h)), cache_writer = Some (\<lambda>ip (found, written). (found, written @ [ip]))\<rparr>"

text \<open>A server as the parser gives it.\<close>

definition wellformed_server :: "DiscoveredServer \<Rightarrow> bool" where
  "wellformed_server s \<longleftrightarrow> ds_address s = ''tcp://'' @ ds_ip s \<and>
     (\<forall>p \<in> {ds_control_port s, ds_transform_port s, ds_sub_port s, ds_rest_api_port s}. 0 \<le> p \<and> p \<le> 65535)"

lemma parsed_wellformed: "parse_discovery_response m ip = Some s \<Longrightarrow> wellformed_server s \<and> ds_ip s = ip"
  by (auto simp: parse_discovery_response_def wellformed_server_def Let_def
      dest: parse_port_range split: if_splits option.splits)

lemma exchange_wellformed: "exchange os handle ip n = (Some s, n') \<Longrightarrow> wellformed_server s \<and> ds_ip s = ip"
  by (auto simp: exchange_def Let_def dest: parsed_wellformed split: prod.splits if_splits option.splits)

lemma probe_wellformed: "probe_tcp os d ip timeout n = (Some s, n') \<Longrightarrow> wellformed_server s \<and> ds_ip s = ip"
  by (auto simp: probe_tcp_def probe_connected_def Let_def dest: exchange_wellformed
      split: prod.splits if_splits option.splits ConnectResult.splits)

text \<open>What is reported: nothing, or one well-formed server whose address is written to the cache or not.\<close>

definition reported :: "DiscoveredServer list \<times> string list \<Rightarrow> bool" where
  "reported h \<longleftrightarrow> h = ([], []) \<or> (\<exists>s. wellformed_server s \<and>
     (h = ([s], []) \<and> (ds_ip s = ''127.0.0.1'' \<or> ds_ip s = []) \<or> h = ([s], [ds_ip s])))"

lemma report_reported:
  "wellformed_server s \<Longrightarrow> cache_ip \<or> ds_ip s = ''127.0.0.1'' \<Longrightarrow>
     reported (snd (report (recorder cached) s cache_ip (d, ([], []))))"
  by (auto simp: report_def recorder_def reported_def Let_def)

lemma report_recorded:
  "report (recorder cached) s cache_ip (d, ([], [])) = (d', h') \<Longrightarrow> wellformed_server s \<Longrightarrow>
     cache_ip \<or> ds_ip s = ''127.0.0.1'' \<Longrightarrow> reported h'"
  by (metis report_reported snd_conv)

lemma recorder_log [simp]: "discovery_log (recorder cached) m h = h"
  by (simp add: discovery_log_def recorder_def)

lemma receive_replies_reported:
  "receive_replies os (recorder cached) handles (d, ([], []), n) = (b, d', h', n') \<Longrightarrow>
     reported h' \<and> (\<not> b \<longrightarrow> h' = ([], []))"
proof (induction handles arbitrary: d n)
  case Nil
  then show ?case by (auto simp: reported_def)
next
  case (Cons handle handles)
  obtain stop n1 where st: "os_should_stop os n = (stop, n1)" by fastforce
  obtain r n2 where rc: "os_recvfrom os handle n1 = (r, n2)" by fastforce
  consider stop | "\<not> stop" "r = None"
    | received sender where "\<not> stop" "r = Some (received, sender)" "parse_discovery_response received (os_inet_ntop os sender) = None"
    | received sender s where "\<not> stop" "r = Some (received, sender)" "parse_discovery_response received (os_inet_ntop os sender) = Some s"
    by (cases stop; cases r) (auto, metis option.exhaust)
  then show ?case
  proof cases
    case 1
    then show ?thesis using Cons.prems by (simp add: st reported_def)
  next
    case 2
    then show ?thesis using Cons.IH [of d n2] Cons.prems by (simp add: st rc)
  next
    case (3 received sender)
    then show ?thesis using Cons.IH [of d n2] Cons.prems by (simp add: st rc)
  next
    case (4 received sender s)
    then have "h' = snd (report (recorder cached) s True (d, ([], [])))" b
      using Cons.prems by (auto simp: st rc Let_def split: prod.splits)
    then show ?thesis using report_reported parsed_wellformed [OF 4(3)] by simp
  qed
qed

lemma broadcast_rounds_reported:
  assumes "broadcast_rounds os (recorder cached) sockets interfaces d ([], []) n = Some w"
  shows "reported (fst (snd w))"
proof -
  have "cb = recorder cached \<longrightarrow> h = ([], []) \<longrightarrow> reported (fst (snd w))"
    if "broadcast_rounds os cb sockets interfaces d h n = Some w" for cb h
  proof (rule broadcast_rounds.raw_induct [OF _ that], intro impI)
    fix rounds os cb sockets interfaces d h n w
    assume ih: "\<And>os cb sockets interfaces d h n w. rounds os cb sockets interfaces d h n = Some w \<Longrightarrow>
        cb = recorder cached \<longrightarrow> h = ([], []) \<longrightarrow> reported (fst (snd w))"
      and body: "(case os_should_stop os n of (stop, n) \<Rightarrow>
          if stop \<or> \<not> discovering d then Some (d, h, n)
          else case broadcast_round os cb sockets interfaces (d, h, n) of (finished, d, h, n) \<Rightarrow>
            if finished then Some (d, h, n) else rounds os cb sockets interfaces d h n) = Some w"
      and h: "cb = recorder cached" "h = ([], [])"
    obtain stop n1 where st: "os_should_stop os n = (stop, n1)" by fastforce
    obtain b d2 h2 n2 where br: "broadcast_round os cb sockets interfaces (d, h, n1) = (b, d2, h2, n2)"
      by (metis prod_cases4)
    have r: "reported h2" "\<not> b \<Longrightarrow> h2 = ([], [])"
      using br h receive_replies_reported by (fastforce simp: broadcast_round_def)+
    show "reported (fst (snd w))"
    proof (cases "stop \<or> \<not> discovering d")
      case True
      then show ?thesis using body st h by (auto simp: reported_def)
    next
      case False
      then show ?thesis using body st br h r ih [of os cb sockets interfaces d2 h2 n2 w] by (cases b) auto
    qed
  qed
  then show ?thesis using assms by blast
qed

lemma broadcast_search_reported:
  assumes "broadcast_search os (recorder cached) (d, ([], []), n) = Some w"
  shows "reported (fst (snd w))"
proof -
  have b: "bind_interfaces os (recorder cached) d items bound (h, n) = (bound', h', n') \<Longrightarrow> h' = h" for items bound h n bound' h' n'
    by (induction items arbitrary: bound n) (auto simp: Let_def split: prod.splits option.splits if_splits)
  have f: "fallback_socket os (recorder cached) d bound (h, n) = (bound', h', n') \<Longrightarrow> h' = h" for bound h n bound' h' n'
    by (auto simp: fallback_socket_def split: prod.splits option.splits if_splits)
  from assms show ?thesis
    by (auto simp: broadcast_search_def Let_def dest!: b f split: prod.splits option.splits)
      (use broadcast_rounds_reported in fastforce)
qed

lemma probe_cached_recorder:
  assumes "probe_cached os (recorder cached) d (h, n) = (found, h', n')"
  shows "h' = h \<and> (\<forall>s. found = Some s \<longrightarrow> wellformed_server s)"
  using assms by (auto simp: probe_cached_def Let_def recorder_log dest: probe_wellformed
      split: prod.splits option.splits if_splits) (auto simp: recorder_def)

lemma parse_current_reply:
  assumes "control < 65536" "transform < 65536" "sub < 65536" "rest < 65536"
    and "name = [] \<or> \<not> is_trailing (last name)" "list_all is_trailing tail"
  shows "parse_discovery_response
      (''STYLY-NETSYNC3|'' @ dec_nat control @ ''|'' @ dec_nat transform @ ''|'' @ dec_nat sub @ ''|'' @
       dec_nat rest @ ''|'' @ name @ tail) ip =
    Some \<lparr>ds_address = ''tcp://'' @ ip, ds_ip = ip, ds_control_port = int control, ds_transform_port = int transform,
      ds_sub_port = int sub, ds_rest_api_port = int rest, ds_server_name = name\<rparr>"
proof -
  let ?m = "''STYLY-NETSYNC3|'' @ dec_nat control @ ''|'' @ dec_nat transform @ ''|'' @ dec_nat sub @ ''|'' @
       dec_nat rest @ ''|'' @ name"
  have "rstrip (?m @ tail) = ?m"
  proof (rule rstrip_trailing [OF assms(6)])
    show "?m = [] \<or> \<not> is_trailing (last ?m)" using assms(5) by (auto simp: is_trailing_def)
  qed
  moreover have "split ?m (CHR ''|'') = [''STYLY-NETSYNC3'', dec_nat control, dec_nat transform, dec_nat sub, dec_nat rest] @
      split name (CHR ''|'')"
    using split_join [of "CHR ''|''" "''STYLY-NETSYNC3''"] by (simp add: split_join)
  moreover have "\<exists>a as. split name (CHR ''|'') = a # as \<and> a @ join_rest as = name"
    using join_split [of name] split_nonempty [of name "CHR ''|''"] by (metis list.collapse)
  ultimately have "parse_discovery_response (?m @ tail) ip =
    Some \<lparr>ds_address = ''tcp://'' @ ip, ds_ip = ip, ds_control_port = int control, ds_transform_port = int transform,
      ds_sub_port = int sub, ds_rest_api_port = int rest, ds_server_name = name\<rparr>"
    using assms(1-4) by (auto simp: parse_discovery_response_def Let_def kDiscoveryResponseVersion_def)
  then show ?thesis by simp
qed

lemma accepted_version:
  "parse_discovery_response m ip = Some s \<Longrightarrow> split (rstrip m) (CHR ''|'') ! 0 = ''STYLY-NETSYNC3''"
  by (auto simp: parse_discovery_response_def Let_def kDiscoveryResponseVersion_def split: if_splits)

text \<open>For the examples: a host whose own port answers.\<close>

definition answering_os :: "string \<Rightarrow> unit Os" where
  "answering_os reply = \<lparr>os_socket = \<lambda>_. Pair (Some 3), os_close = \<lambda>_ n. n, os_fcntl_getfl = \<lambda>_. Pair 2, os_fcntl_setfl = \<lambda>_ _ n. n,
     os_nonblock = 0x800, os_set_rcvtimeo = \<lambda>_ _ n. n, os_enable_broadcast = \<lambda>_ n. n, os_inet_pton = \<lambda>_. Some 0,
     os_inet_ntop = \<lambda>_. [], os_connect = \<lambda>_ _ _. Pair ConnectDone, os_select_writable = \<lambda>_ _. Pair True,
     os_socket_error = \<lambda>_. Pair (Some 0), os_send = \<lambda>_ _. Pair True, os_recv = \<lambda>_. Pair (Some reply),
     os_bind = \<lambda>_ _. Pair True, os_sendto = \<lambda>_ _ _ _ n. n, os_recvfrom = \<lambda>_. Pair None,
     os_getifaddrs = Pair None, os_should_stop = Pair False\<rparr>"

section \<open>Properties\<close>

text \<open>C28. The reply of a current server is read back: the four ports and the server's name, a name with
  bars in it and an empty name included, whatever white space and line ends follow; and every reply
  that is accepted begins with the current version, gives ports of 16 bits and the address of its
  sender.\<close>

theorem discovery_response_roundtrip:
  assumes "control < 65536" "transform < 65536" "sub < 65536" "rest < 65536"
    and "name = [] \<or> \<not> is_trailing (last name)" "list_all is_trailing tail"
  shows "parse_discovery_response
      (''STYLY-NETSYNC3|'' @ dec_nat control @ ''|'' @ dec_nat transform @ ''|'' @ dec_nat sub @ ''|'' @
       dec_nat rest @ ''|'' @ name @ tail) ip =
    Some \<lparr>ds_address = ''tcp://'' @ ip, ds_ip = ip, ds_control_port = int control, ds_transform_port = int transform,
      ds_sub_port = int sub, ds_rest_api_port = int rest, ds_server_name = name\<rparr> \<and>
    (\<forall>m s. parse_discovery_response m ip = Some s \<longrightarrow>
      wellformed_server s \<and> ds_ip s = ip \<and> split (rstrip m) (CHR ''|'') ! 0 = ''STYLY-NETSYNC3'')"
  using parse_current_reply [OF assms] parsed_wellformed accepted_version by simp

theorem discovery_response_roundtrip_witness:
  "\<exists>s. parse_discovery_response (''STYLY-NETSYNC3|'' @ dec_nat 5555 @ ''|'' @ dec_nat 5557 @ ''|'' @ dec_nat 5556 @ ''|'' @
     dec_nat 8800 @ ''|'' @ ''my|lab'' @ [CHR 0x0A]) ''10.0.0.2'' = Some s \<and> ds_server_name s = ''my|lab''"
  using discovery_response_roundtrip [of 5555 5557 5556 8800 "''my|lab''" "[CHR 0x0A]" "''10.0.0.2''"]
  by (simp add: is_trailing_def)



end
