(* ===== verification/Control_Lane.thy ===== *)
theory Control_Lane
  imports Transport Discovery
begin

text \<open>
  The interface between the managers and what they send through. A manager holds \<open>std::function\<close>
  members that the client sets; they act on the state \<open>'w\<close> behind them and may be empty. The locale
  \<open>control_lane\<close> states what a manager may rely on: an accepted payload is appended to the lane, a
  refused one leaves it, and logging does not touch it. The client's own callbacks (the transport's
  outbox and the notification queue) are shown to keep this contract.
\<close>

section \<open>The callbacks of a manager\<close>

record 'w ManagerCallbacks =
  control_sender :: "(bytes \<Rightarrow> 'w \<Rightarrow> bool \<times> 'w) option"
  log_callback :: "(string \<Rightarrow> 'w \<Rightarrow> 'w) option"

definition log_message :: "'w ManagerCallbacks \<Rightarrow> string \<Rightarrow> 'w \<Rightarrow> 'w" where
  "log_message cb message w = (case log_callback cb of None \<Rightarrow> w | Some f \<Rightarrow> f message w)"

definition in_quotes :: "string \<Rightarrow> string" where
  "in_quotes s = CHR 0x27 # s @ [CHR 0x27]"

locale control_lane =
  fixes cb :: "'w ManagerCallbacks"
    and lane :: "'w \<Rightarrow> bytes list"
  assumes sender: "control_sender cb = Some f \<Longrightarrow> f data w = (ok, w') \<Longrightarrow>
      lane w' = (if ok then lane w @ [data] else lane w)"
    and logger: "log_callback cb = Some g \<Longrightarrow> lane (g message w) = lane w"
begin

lemma lane_log [simp]: "lane (log_message cb message w) = lane w"
  by (simp add: log_message_def logger split: option.split)

end

section \<open>The client's side: notifications and the transport\<close>

datatype NotificationKind = KindConnected | KindError | KindLog | KindDiscovered

record PendingNotification =
  pn_kind :: NotificationKind
  pn_text :: string
  pn_server :: DiscoveredServer

definition notification :: "NotificationKind \<Rightarrow> string \<Rightarrow> PendingNotification" where
  "notification kind txt = \<lparr>pn_kind = kind, pn_text = txt, pn_server = DiscoveredServer_default\<rparr>"

text \<open>What the managers' callbacks reach: the transport and the notification queue of the client.\<close>

record Wires =
  transport :: ZmqTransport
  notifications :: "PendingNotification list"

definition push_log :: "string \<Rightarrow> Wires \<Rightarrow> Wires" where
  "push_log message w = w\<lparr>notifications := notifications w @ [notification KindLog message]\<rparr>"

definition enqueue_control :: "bytes \<Rightarrow> Wires \<Rightarrow> bool \<times> Wires" where
  "enqueue_control data w =
     (let (ok, t) = try_enqueue_control data (transport w) in (ok, w\<lparr>transport := t\<rparr>))"

definition client_callbacks :: "Wires ManagerCallbacks" where
  "client_callbacks = \<lparr>control_sender = Some enqueue_control, log_callback = Some push_log\<rparr>"

definition outbox :: "Wires \<Rightarrow> bytes list" where
  "outbox w = map payload (control_outbox (transport w))"

lemma outbox_enqueue: "enqueue_control data w = (ok, w') \<Longrightarrow> outbox w' = (if ok then outbox w @ [data] else outbox w)"
  using try_enqueue_control_cases(5) [of data "transport w"]
  by (auto simp: enqueue_control_def outbox_def Let_def split: prod.splits)

lemma outbox_log [simp]: "outbox (push_log message w) = outbox w"
  by (simp add: push_log_def outbox_def)

interpretation client_lane: control_lane client_callbacks outbox
  by unfold_locales (auto simp: client_callbacks_def outbox_enqueue)

end
