(* ===== verification/Json_Util.thy ===== *)
theory Json_Util
  imports Text Ordered_Map
begin

text \<open>
  \<open>src/core/json_util.*\<close>: the JSON string and string-array encoder, the recursive-descent parser,
  \<open>JsonValue\<close> with its accessors and \<open>dump\<close>, and the RPC argument decoder. The parser's cursor
  \<open>index_\<close> into \<open>text_\<close> is the text that remains; its sticky \<open>error_\<close> is threaded. A parsing
  function returns the value (or \<^const>\<open>None\<close> where the source returns \<open>false\<close>), the remaining
  text and the error; the array and object loops are partial functions whose termination is a
  theorem (\<open>parse_value_total\<close>).
\<close>

section \<open>Encoding\<close>

abbreviation quote :: char where "quote \<equiv> CHR 0x22"
abbreviation backslash :: char where "backslash \<equiv> CHR 0x5C"

text \<open>A character between single quotes, in a message.\<close>

definition quoted :: "char \<Rightarrow> string" where
  "quoted c = [CHR 0x27, c, CHR 0x27]"

definition hex_char :: "nat \<Rightarrow> char" where
  "hex_char n = (if n < 10 then char_of (48 + n) else char_of (87 + n))"

text \<open>The \<open>snprintf\<close> of a control byte: a backslash, \<open>u\<close> and four lower-case hexadecimal digits.\<close>

definition unicode_escape :: "nat \<Rightarrow> string" where
  "unicode_escape n = [backslash, CHR ''u'', CHR ''0'', CHR ''0'', hex_char (n div 16), hex_char (n mod 16)]"

definition encode_json_char :: "char \<Rightarrow> string" where
  "encode_json_char c =
     (if c = quote then [backslash, quote]
      else if c = backslash then [backslash, backslash]
      else if c = CHR 0x08 then [backslash, CHR ''b'']
      else if c = CHR 0x0C then [backslash, CHR ''f'']
      else if c = CHR 0x0A then [backslash, CHR ''n'']
      else if c = CHR 0x0D then [backslash, CHR ''r'']
      else if c = CHR 0x09 then [backslash, CHR ''t'']
      else if (of_char c :: nat) < 0x20 then unicode_escape (of_char c)
      else [c])"

definition encode_json_string :: "string \<Rightarrow> string" where
  "encode_json_string value = quote # concat (map encode_json_char value) @ [quote]"

fun encode_elements :: "string list \<Rightarrow> string" where
  "encode_elements [] = []"
| "encode_elements [v] = encode_json_string v"
| "encode_elements (v # w # vs) = encode_json_string v @ CHR '','' # encode_elements (w # vs)"

definition encode_json_string_array :: "string list \<Rightarrow> string" where
  "encode_json_string_array values = CHR ''['' # encode_elements values @ [CHR '']'']"

definition append_utf8 :: "string \<Rightarrow> u32 \<Rightarrow> string" where
  "append_utf8 out code_point =
     (let byte = (\<lambda>w :: u32. char_of_byte (ucast w)) in
      if code_point < 0x80 then out @ [byte code_point]
      else if code_point < 0x800 then
        out @ [byte (0xC0 OR drop_bit 6 code_point), byte (0x80 OR (code_point AND 0x3F))]
      else if code_point < 0x10000 then
        out @ [byte (0xE0 OR drop_bit 12 code_point), byte (0x80 OR (drop_bit 6 code_point AND 0x3F)),
               byte (0x80 OR (code_point AND 0x3F))]
      else
        out @ [byte (0xF0 OR drop_bit 18 code_point), byte (0x80 OR (drop_bit 12 code_point AND 0x3F)),
               byte (0x80 OR (drop_bit 6 code_point AND 0x3F)), byte (0x80 OR (code_point AND 0x3F))])"

section \<open>JsonValue\<close>

datatype JsonValue =
  JNull | JBool bool | JNumber double | JString string
| JArray "JsonValue list" | JObject "(string \<times> JsonValue) list"

definition array_items :: "JsonValue \<Rightarrow> JsonValue list" where
  "array_items v = (case v of JArray xs \<Rightarrow> xs | _ \<Rightarrow> [])"

definition is_array :: "JsonValue \<Rightarrow> bool" where
  "is_array v = (case v of JArray _ \<Rightarrow> True | _ \<Rightarrow> False)"

text \<open>Member and element lookup give the shared null value when absent.\<close>

definition member_value :: "JsonValue \<Rightarrow> string \<Rightarrow> JsonValue" where
  "member_value v key = (case v of JObject ms \<Rightarrow>
     (case map_of ms key of None \<Rightarrow> JNull | Some w \<Rightarrow> w) | _ \<Rightarrow> JNull)"

definition element_value :: "JsonValue \<Rightarrow> nat \<Rightarrow> JsonValue" where
  "element_value v index =
     (if index < length (array_items v) then array_items v ! index else JNull)"

text \<open>
  The cast to \<open>std::int64_t\<close> has no defined result outside the 64 bit range; the second conjunct
  then makes the test false whatever the cast gives.
\<close>

definition format_number :: "double \<Rightarrow> string" where
  "format_number value =
     (if \<not> isfinite value then ''null''
      else if feq value (double_of_int (double_to_int value)) \<and> flt (fabs value) (dlit (10 ^ 15))
      then dec_int (double_to_int value)
      else format_g17 value)"

fun dump :: "JsonValue \<Rightarrow> string"
  and dump_items :: "JsonValue list \<Rightarrow> string"
  and dump_members :: "(string \<times> JsonValue) list \<Rightarrow> string" where
  "dump JNull = ''null''"
| "dump (JBool b) = (if b then ''true'' else ''false'')"
| "dump (JNumber n) = format_number n"
| "dump (JString s) = encode_json_string s"
| "dump (JArray xs) = CHR ''['' # dump_items xs @ [CHR '']'']"
| "dump (JObject ms) = CHR ''{'' # dump_members ms @ [CHR ''}'']"
| "dump_items [] = []"
| "dump_items [x] = dump x"
| "dump_items (x # y # xs) = dump x @ CHR '','' # dump_items (y # xs)"
| "dump_members [] = []"
| "dump_members [(k, x)] = encode_json_string k @ CHR '':'' # dump x"
| "dump_members ((k, x) # m # ms) = encode_json_string k @ CHR '':'' # dump x @ CHR '','' # dump_members (m # ms)"

section \<open>JsonParser\<close>

type_synonym 'a outcome = "'a option \<times> string \<times> string"

definition kMaxDepth :: nat where "kMaxDepth = 64"

text \<open>\<open>fail\<close> keeps the first message.\<close>

definition fail :: "string \<Rightarrow> string \<Rightarrow> string" where
  "fail message error = (if error = [] then message else error)"

definition is_whitespace :: "char \<Rightarrow> bool" where
  "is_whitespace c \<longleftrightarrow> c = CHR '' '' \<or> c = CHR 0x09 \<or> c = CHR 0x0A \<or> c = CHR 0x0D"

definition skip_whitespace :: "string \<Rightarrow> string" where
  "skip_whitespace text = dropWhile is_whitespace text"

definition literal :: "string \<Rightarrow> string \<Rightarrow> string option" where
  "literal word text = (if take (length word) text = word then Some (drop (length word) text) else None)"

definition hex_digit :: "char \<Rightarrow> u32 option" where
  "hex_digit c =
     (let n = of_char c :: nat in
      if 48 \<le> n \<and> n \<le> 57 then Some (word_of_nat (n - 48))
      else if 97 \<le> n \<and> n \<le> 102 then Some (word_of_nat (n - 97 + 10))
      else if 65 \<le> n \<and> n \<le> 70 then Some (word_of_nat (n - 65 + 10))
      else None)"

fun hex_loop :: "string \<Rightarrow> u32 \<Rightarrow> u32 option" where
  "hex_loop [] value = Some value"
| "hex_loop (c # cs) value =
     (case hex_digit c of None \<Rightarrow> None | Some d \<Rightarrow> hex_loop cs (push_bit 4 value OR d))"

definition parse_hex4 :: "string \<Rightarrow> string + u32" where
  "parse_hex4 text =
     (if length text < 4 then Inl (''truncated '' @ backslash # ''u escape'')
      else case hex_loop (take 4 text) 0 of
        None \<Rightarrow> Inl (''invalid hex digit in '' @ backslash # ''u escape'')
      | Some value \<Rightarrow> Inr value)"

definition simple_escape :: "char \<Rightarrow> char option" where
  "simple_escape escape =
     (if escape = quote then Some quote
      else if escape = backslash then Some backslash
      else if escape = CHR ''/'' then Some (CHR ''/'')
      else if escape = CHR ''b'' then Some (CHR 0x08)
      else if escape = CHR ''f'' then Some (CHR 0x0C)
      else if escape = CHR ''n'' then Some (CHR 0x0A)
      else if escape = CHR ''r'' then Some (CHR 0x0D)
      else if escape = CHR ''t'' then Some (CHR 0x09)
      else None)"

text \<open>The code point of a unicode escape, the text after it and the error: a high surrogate takes the
  low surrogate that follows.\<close>

definition code_point_after :: "u32 \<Rightarrow> string \<Rightarrow> string \<Rightarrow> u32 \<times> string \<times> string" where
  "code_point_after code_point text error =
     (if 0xD800 \<le> code_point \<and> code_point \<le> 0xDBFF \<and> 2 \<le> length text \<and>
         text ! 0 = backslash \<and> text ! 1 = CHR ''u''
      then case parse_hex4 (drop 2 text) of
          Inl message \<Rightarrow> (code_point, text, fail message error)
        | Inr low \<Rightarrow>
            if 0xDC00 \<le> low \<and> low \<le> 0xDFFF
            then (0x10000 + push_bit 10 (code_point - 0xD800) + (low - 0xDC00), drop 6 text, error)
            else (code_point, text, error)
      else (code_point, text, error))"

lemma code_point_after_length: "length (fst (snd (code_point_after c t e))) \<le> length t"
  by (simp add: code_point_after_def split: sum.split)

lemma code_point_after_rest: "length (fst (snd (code_point_after c (drop 4 t) e))) \<le> Suc (length t)"
  using code_point_after_length [of c "drop 4 t" e] by simp

function string_loop :: "string \<Rightarrow> string \<Rightarrow> string \<Rightarrow> string outcome" where
  "string_loop out [] error = (None, [], fail ''unterminated string'' error)"
| "string_loop out (c # text) error =
     (if c = quote then (Some out, text, error)
      else if c \<noteq> backslash then string_loop (out @ [c]) text error
      else case text of
          [] \<Rightarrow> (None, [], fail ''unterminated escape'' error)
        | escape # text \<Rightarrow>
            (case simple_escape escape of
               Some ch \<Rightarrow> string_loop (out @ [ch]) text error
             | None \<Rightarrow>
                 if escape = CHR ''u'' then
                   (case parse_hex4 text of
                      Inl message \<Rightarrow> (None, text, fail message error)
                    | Inr code_point \<Rightarrow>
                        let r = code_point_after code_point (drop 4 text) error
                        in string_loop (append_utf8 out (fst r)) (fst (snd r)) (snd (snd r)))
                 else (None, text, fail ''invalid escape sequence'' error)))"
  by pat_completeness auto
termination
  by (relation "measure (\<lambda>a. length (fst (snd a)))")
    (auto simp: less_Suc_eq_le code_point_after_rest)

definition parse_string :: "string \<Rightarrow> string \<Rightarrow> string outcome" where
  "parse_string text error =
     (case text of
        c # text' \<Rightarrow> if c \<noteq> quote then (None, text, fail ''expected string'' error)
                    else string_loop [] text' error
      | [] \<Rightarrow> (None, [], fail ''expected string'' error))"

definition drop_sign :: "string \<Rightarrow> string" where
  "drop_sign text = (if text \<noteq> [] \<and> (hd text = CHR ''-'' \<or> hd text = CHR ''+'') then tl text else text)"

definition parse_number :: "string \<Rightarrow> string \<Rightarrow> JsonValue outcome" where
  "parse_number text error =
     (let t1 = drop_sign text;
          has_digits = (takeWhile is_digit t1 \<noteq> []);
          t2 = dropWhile is_digit t1;
          point = (t2 \<noteq> [] \<and> hd t2 = CHR ''.'');
          has_digits = (has_digits \<or> point \<and> takeWhile is_digit (tl t2) \<noteq> []);
          t3 = (if point then dropWhile is_digit (tl t2) else t2);
          t4 = (if has_digits \<and> t3 \<noteq> [] \<and> (hd t3 = CHR ''e'' \<or> hd t3 = CHR ''E'')
                then dropWhile is_digit (drop_sign (tl t3)) else t3)
      in if \<not> has_digits then (None, t4, fail ''invalid number'' error)
         else (Some (JNumber (strtod (take (length text - length t4) text))), t4, error))"

text \<open>The element loop of \<open>parse_array\<close> and the member loop of \<open>parse_object\<close>.\<close>

partial_function (option) array_loop ::
  "(string \<Rightarrow> string \<Rightarrow> JsonValue outcome option) \<Rightarrow> JsonValue list \<Rightarrow> string \<Rightarrow> string \<Rightarrow>
     JsonValue outcome option" where
  "array_loop element items text error =
     Option.bind (element text error) (\<lambda>(v, text, error).
       case v of
         None \<Rightarrow> Some (None, text, error)
       | Some x \<Rightarrow>
           (case skip_whitespace text of
              [] \<Rightarrow> Some (None, [], fail ''unterminated array'' error)
            | c # text' \<Rightarrow>
                if c = CHR '','' then array_loop element (items @ [x]) text' error
                else if c = CHR '']'' then Some (Some (JArray (items @ [x])), text', error)
                else Some (None, c # text', fail (''expected '' @ quoted (CHR '','') @ '' or '' @ quoted (CHR '']'') @ '' in array'') error)))"

partial_function (option) object_loop ::
  "(string \<Rightarrow> string \<Rightarrow> JsonValue outcome option) \<Rightarrow> (string \<times> JsonValue) list \<Rightarrow> string \<Rightarrow> string \<Rightarrow>
     JsonValue outcome option" where
  "object_loop element members text error =
     (case parse_string (skip_whitespace text) error of
        (None, text, error) \<Rightarrow> Some (None, text, error)
      | (Some key, text, error) \<Rightarrow>
          (case skip_whitespace text of
             [] \<Rightarrow> Some (None, [], fail (''expected '' @ quoted (CHR '':'') @ '' in object'') error)
           | c # text' \<Rightarrow>
               if c \<noteq> CHR '':'' then Some (None, c # text', fail (''expected '' @ quoted (CHR '':'') @ '' in object'') error)
               else Option.bind (element text' error) (\<lambda>(v, text, error).
                 case v of
                   None \<Rightarrow> Some (None, text, error)
                 | Some x \<Rightarrow>
                     (case skip_whitespace text of
                        [] \<Rightarrow> Some (None, [], fail ''unterminated object'' error)
                      | c # text' \<Rightarrow>
                          if c = CHR '','' then object_loop element (alist_insert key x members) text' error
                          else if c = CHR ''}'' then
                            Some (Some (JObject (alist_insert key x members)), text', error)
                          else Some (None, c # text', fail (''expected '' @ quoted (CHR '','') @ '' or '' @ quoted (CHR ''}'') @ '' in object'') error)))))"

declare array_loop.simps [code] object_loop.simps [code]

definition parse_array :: "(string \<Rightarrow> string \<Rightarrow> JsonValue outcome option) \<Rightarrow> string \<Rightarrow> string \<Rightarrow> JsonValue outcome option" where
  "parse_array element text error =
     (case skip_whitespace text of
        c # text' \<Rightarrow> if c = CHR '']'' then Some (Some (JArray []), text', error)
                    else array_loop element [] (c # text') error
      | [] \<Rightarrow> array_loop element [] [] error)"

definition parse_object :: "(string \<Rightarrow> string \<Rightarrow> JsonValue outcome option) \<Rightarrow> string \<Rightarrow> string \<Rightarrow> JsonValue outcome option" where
  "parse_object element text error =
     (case skip_whitespace text of
        c # text' \<Rightarrow> if c = CHR ''}'' then Some (Some (JObject []), text', error)
                    else object_loop element [] (c # text') error
      | [] \<Rightarrow> object_loop element [] [] error)"

definition parse_literal :: "string \<Rightarrow> JsonValue \<Rightarrow> string \<Rightarrow> string \<Rightarrow> JsonValue outcome" where
  "parse_literal word v text error =
     (case literal word text of
        None \<Rightarrow> (None, text, fail ''invalid literal'' error)
      | Some text' \<Rightarrow> (Some v, text', error))"

text \<open>\<open>parse_value\<close> at depth \<open>kMaxDepth + 1 - levels\<close>.\<close>

primrec parse_value :: "nat \<Rightarrow> string \<Rightarrow> string \<Rightarrow> JsonValue outcome option" where
  "parse_value 0 text error = Some (None, text, fail ''maximum nesting depth exceeded'' error)"
| "parse_value (Suc levels) text error =
     (case skip_whitespace text of
        [] \<Rightarrow> Some (None, [], fail ''unexpected end of input'' error)
      | c # text' \<Rightarrow>
          if c = CHR ''{'' then parse_object (parse_value levels) text' error
          else if c = CHR ''['' then parse_array (parse_value levels) text' error
          else if c = quote then
            (case parse_string (c # text') error of
               (None, t, e) \<Rightarrow> Some (None, t, e)
             | (Some s, t, e) \<Rightarrow> Some (Some (JString s), t, e))
          else if c = CHR ''t'' then Some (parse_literal ''true'' (JBool True) (c # text') error)
          else if c = CHR ''f'' then Some (parse_literal ''false'' (JBool False) (c # text') error)
          else if c = CHR ''n'' then Some (parse_literal ''null'' JNull (c # text') error)
          else Some (parse_number (c # text') error))"

text \<open>\<open>JsonValue::parse\<close>: the value, or the error text.\<close>

definition json_parse :: "string \<Rightarrow> (string + JsonValue) option" where
  "json_parse text =
     Option.bind (parse_value (kMaxDepth + 1) (skip_whitespace text) []) (\<lambda>(v, text, error).
       case v of
         None \<Rightarrow> Some (Inl error)
       | Some x \<Rightarrow>
           if skip_whitespace text \<noteq> [] then Some (Inl ''trailing characters after JSON value'')
           else Some (Inr x))"

definition argument_text :: "JsonValue \<Rightarrow> string" where
  "argument_text element =
     (case element of JString s \<Rightarrow> s | JNull \<Rightarrow> [] | v \<Rightarrow> dump v)"

definition decode_json_string_array :: "string \<Rightarrow> string list option" where
  "decode_json_string_array json =
     (case json_parse json of
        Some (Inr value) \<Rightarrow>
          if \<not> is_array value then None else Some (map argument_text (array_items value))
      | _ \<Rightarrow> None)"

section \<open>Every parse ends\<close>

text \<open>\<open>consumes f\<close>: \<open>f\<close> returns on every input, and a success leaves less text than it got.\<close>

definition consumes :: "(string \<Rightarrow> string \<Rightarrow> 'a outcome option) \<Rightarrow> bool" where
  "consumes f \<longleftrightarrow> (\<forall>text error. \<exists>v t e. f text error = Some (v, t, e) \<and> (v \<noteq> None \<longrightarrow> length t < length text))"

lemma consumesE:
  assumes "consumes f"
  obtains v t e where "f text error = Some (v, t, e)" "v \<noteq> None \<longrightarrow> length t < length text"
  using assms unfolding consumes_def by blast

lemma length_skip_whitespace: "length (skip_whitespace t) \<le> length t"
  by (simp add: skip_whitespace_def length_dropWhile_le)

lemma skip_whitespace_Cons: "skip_whitespace t = c # r \<Longrightarrow> length r < length t"
  using length_skip_whitespace [of t] by simp

lemma string_loop_length: "string_loop out t e = (Some s, r, e') \<Longrightarrow> length r < length t"
proof (induction out t e arbitrary: s r e' rule: string_loop.induct)
  case (2 out c t e)
  show ?case
  proof (cases "c = quote \<or> c \<noteq> backslash")
    case True
    then show ?thesis using "2.prems" "2.IH"(1) by (auto split: if_splits intro: less_SucI)
  next
    case False
    then obtain esc u where t: "t = esc # u" using "2.prems" by (auto split: list.splits)
    show ?thesis
    proof (cases "simple_escape esc")
      case (Some ch)
      then have "string_loop (out @ [ch]) u e = (Some s, r, e')" using False "2.prems" t by simp
      then have "length r < length u" using "2.IH"(3) [OF _ _ t Some] False by auto
      then show ?thesis using t by simp
    next
      case None
      then obtain cp where h: "esc = CHR ''u''" "parse_hex4 u = Inr cp"
        using False "2.prems" t by (auto split: if_splits sum.splits)
      define q where "q = code_point_after cp (drop 4 u) e"
      have "string_loop (append_utf8 out (fst q)) (fst (snd q)) (snd (snd q)) = (Some s, r, e')"
        using False "2.prems" t None h by (simp add: q_def Let_def)
      then have "length r < length (fst (snd q))" using "2.IH"(2) [OF _ _ t None h q_def] False by auto
      also have "\<dots> \<le> Suc (length u)" unfolding q_def by (rule code_point_after_rest)
      finally show ?thesis using t by simp
    qed
  qed
qed simp

lemma parse_string_length: "parse_string t e = (Some s, r, e') \<Longrightarrow> length r < length t"
  by (auto simp: parse_string_def split: list.splits if_splits dest!: string_loop_length)

lemma array_loop_total:
  assumes "consumes f"
  shows "\<exists>v t e. array_loop f items inp error = Some (v, t, e) \<and> (v \<noteq> None \<longrightarrow> length t < length inp)"
proof (induction inp arbitrary: items error rule: measure_induct_rule [where f = length])
  case (less inp)
  obtain v t e where f: "f inp error = Some (v, t, e)" "v \<noteq> None \<longrightarrow> length t < length inp"
    by (rule consumesE [OF assms, of inp error])
  show ?case
  proof (cases v)
    case None
    then show ?thesis using f(1) by (subst array_loop.simps) simp
  next
    case (Some x)
    then have t: "length t < length inp" using f(2) by simp
    show ?thesis
    proof (cases "skip_whitespace t")
      case Nil
      then show ?thesis using f(1) Some by (subst array_loop.simps) simp
    next
      case (Cons c r)
      then have r: "length r < length inp" using t skip_whitespace_Cons [of t c r] by simp
      show ?thesis
        using f(1) Some Cons r less.IH [OF r, of "items @ [x]" e]
        by (subst array_loop.simps) (auto intro: less_trans)
    qed
  qed
qed

lemma object_loop_total:
  assumes "consumes f"
  shows "\<exists>v t e. object_loop f members inp error = Some (v, t, e) \<and> (v \<noteq> None \<longrightarrow> length t < length inp)"
proof (induction inp arbitrary: members error rule: measure_induct_rule [where f = length])
  case (less inp)
  obtain k t1 e1 where k: "parse_string (skip_whitespace inp) error = (k, t1, e1)" using prod_cases3 by blast
  show ?case
  proof (cases k)
    case None
    then show ?thesis using k by (subst object_loop.simps) simp
  next
    case (Some key)
    then have l1: "length t1 < length inp"
      using parse_string_length [of "skip_whitespace inp" error] k length_skip_whitespace [of inp] by fastforce
    show ?thesis
    proof (cases "\<exists>t2. skip_whitespace t1 = CHR '':'' # t2")
      case False
      then show ?thesis using k Some
        by (subst object_loop.simps) (auto split: list.splits)
    next
      case True
      then obtain t2 where t2: "skip_whitespace t1 = CHR '':'' # t2" by blast
      then have l2: "length t2 < length inp" using l1 skip_whitespace_Cons [of t1] by fastforce
      obtain v t3 e3 where f: "f t2 e1 = Some (v, t3, e3)" "v \<noteq> None \<longrightarrow> length t3 < length t2"
        by (rule consumesE [OF assms, of t2 e1])
      show ?thesis
      proof (cases "v = None \<or> skip_whitespace t3 = []")
        case True
        then show ?thesis using k Some t2 f(1) by (subst object_loop.simps) (auto split: option.splits)
      next
        case False
        then obtain x c r where x: "v = Some x" "skip_whitespace t3 = c # r" by (auto simp: neq_Nil_conv)
        then have r: "length r < length inp" using f(2) l2 skip_whitespace_Cons [of t3 c r] by simp
        show ?thesis
          using k Some t2 f(1) x r less.IH [OF r, of "alist_insert key x members" e3]
          by (subst object_loop.simps) (auto intro: less_trans)
      qed
    qed
  qed
qed

lemma length_drop_sign: "length (drop_sign t) \<le> length t"
  by (simp add: drop_sign_def)

lemma parse_number_length: "parse_number t e = (Some v, r, e') \<Longrightarrow> length r < length t"
proof -
  define t1 where "t1 = drop_sign t"
  define t2 where "t2 = dropWhile is_digit t1"
  define point where "point \<longleftrightarrow> t2 \<noteq> [] \<and> hd t2 = CHR ''.''"
  define t3 where "t3 = (if point then dropWhile is_digit (tl t2) else t2)"
  define t4 where "t4 = (if t3 \<noteq> [] \<and> (hd t3 = CHR ''e'' \<or> hd t3 = CHR ''E'')
                then dropWhile is_digit (drop_sign (tl t3)) else t3)"
  assume p: "parse_number t e = (Some v, r, e')"
  then have d: "takeWhile is_digit t1 \<noteq> [] \<or> point \<and> takeWhile is_digit (tl t2) \<noteq> []" and r: "r = t4"
    unfolding parse_number_def Let_def t4_def t3_def point_def t2_def t1_def by (auto split: if_splits)
  have split: "length (takeWhile is_digit x) + length (dropWhile is_digit x) = length x" for x
    by (metis length_append takeWhile_dropWhile_id)
  have l4: "length t4 \<le> length t3"
    using length_drop_sign [of "tl t3"] length_dropWhile_le [of is_digit "drop_sign (tl t3)"]
    unfolding t4_def length_tl by (simp split: if_split) linarith
  have l1: "length t1 \<le> length t" by (simp add: t1_def length_drop_sign)
  have "length t3 < length t1"
    using d split [of t1] split [of "tl t2"]
    by (cases t2) (auto simp: t3_def t2_def [symmetric] point_def simp flip: length_greater_0_conv)
  then show "length r < length t" using r l4 l1 by simp
qed

lemma parse_literal_length: "word \<noteq> [] \<Longrightarrow> parse_literal word v t e = (Some w, r, e') \<Longrightarrow> length r < length t"
  by (cases t) (auto simp: parse_literal_def literal_def split: if_splits option.splits)

lemma parse_value_consumes: "consumes (parse_value levels)"
proof (induction levels)
  case 0
  show ?case by (simp add: consumes_def)
next
  case (Suc levels)
  show ?case unfolding consumes_def
  proof (intro allI)
    fix inp error :: string
    define good :: "JsonValue outcome option \<Rightarrow> bool" where
      "good res \<longleftrightarrow> (\<exists>v t e. res = Some (v, t, e) \<and> (v \<noteq> None \<longrightarrow> length t < length inp))" for res
    have branch: "good (if b then x else y)" if "good x" "good y" for b x y using that by simp
    have "good (parse_value (Suc levels) inp error)"
    proof (cases "skip_whitespace inp")
      case Nil
      then show ?thesis by (simp add: good_def)
    next
      case (Cons c r)
      note l = skip_whitespace_Cons [OF Cons]
      have arr: "good (parse_array (parse_value levels) r error)"
        using array_loop_total [OF Suc.IH, of "[]"] l length_skip_whitespace [of r]
        unfolding parse_array_def good_def by (fastforce split: list.split dest: skip_whitespace_Cons)
      have obj: "good (parse_object (parse_value levels) r error)"
        using object_loop_total [OF Suc.IH, of "[]"] l length_skip_whitespace [of r]
        unfolding parse_object_def good_def by (fastforce split: list.split dest: skip_whitespace_Cons)
      have cr: "length (c # r) \<le> length inp" using length_skip_whitespace [of inp] Cons by simp
      have some: "good (Some q)" if "\<And>w u x. q = (Some w, u, x) \<Longrightarrow> length u < length (c # r)" for q :: "JsonValue outcome"
        using that cr unfolding good_def by (cases q) (fastforce intro: less_le_trans)
      have lit: "good (Some (parse_literal word v (c # r) error))" if "word \<noteq> []" for word v
        using that by (intro some) (rule parse_literal_length)
      have num: "good (Some (parse_number (c # r) error))"
        by (intro some) (rule parse_number_length)
      have str: "good (case parse_string (c # r) error of (None, t, e) \<Rightarrow> Some (None, t, e)
          | (Some s, t, e) \<Rightarrow> Some (Some (JString s), t, e))"
      proof -
        obtain k t e where k: "parse_string (c # r) error = (k, t, e)" by (rule prod_cases3)
        then show ?thesis using parse_string_length [of "c # r" error] cr unfolding good_def by (cases k) fastforce+
      qed
      show ?thesis
        unfolding parse_value.simps Cons list.case by (intro branch arr obj str lit num) simp_all
    qed
    then show "\<exists>v t e. parse_value (Suc levels) inp error = Some (v, t, e) \<and> (v \<noteq> None \<longrightarrow> length t < length inp)"
      by (simp add: good_def)
  qed
qed

lemma json_parse_total: "json_parse text \<noteq> None"
proof -
  obtain v t e where "parse_value (kMaxDepth + 1) (skip_whitespace text) [] = Some (v, t, e)"
    by (rule consumesE [OF parse_value_consumes])
  then show ?thesis by (simp add: json_parse_def split: option.split)
qed

section \<open>What was encoded is decoded\<close>

lemma hex_digit_hex_char: "d < 16 \<Longrightarrow> hex_digit (hex_char d) = Some (word_of_nat d)"
  by (auto simp: hex_digit_def hex_char_def of_char_of Let_def)

lemma hex_join: "\<forall>n\<in>set [0..<32]. push_bit 4 (word_of_nat (n div 16) :: u32) OR word_of_nat (n mod 16) = word_of_nat n"
  by (simp add: upt_rec)

lemma control_escape:
  assumes "n < 32"
  shows "parse_hex4 ([CHR ''0'', CHR ''0'', hex_char (n div 16), hex_char (n mod 16)]) = Inr (word_of_nat n)"
    and "append_utf8 [] (word_of_nat n) = [char_of n]" and "word_of_nat n < (0xD800 :: u32)"
proof -
  have u: "unat (word_of_nat n :: u32) = n" using assms by (intro unat_word_of_nat) simp
  have z: "hex_digit (CHR ''0'') = Some 0" by code_simp
  show "parse_hex4 ([CHR ''0'', CHR ''0'', hex_char (n div 16), hex_char (n mod 16)]) = Inr (word_of_nat n)"
    using hex_digit_hex_char [of "n div 16"] hex_digit_hex_char [of "n mod 16"] assms hex_join
    by (simp add: parse_hex4_def z)
  show "word_of_nat n < (0xD800 :: u32)" using assms by (simp add: word_less_nat_alt u)
  have "word_of_nat n < (0x80 :: u32)" using assms by (simp add: word_less_nat_alt u)
  moreover have "unat (ucast (word_of_nat n :: u32) :: u8) = n"
    using assms by (simp add: unsigned_ucast_eq u take_bit_nat_eq_self unat_word_of_nat)
  ultimately show "append_utf8 [] (word_of_nat n) = [char_of n]"
    by (simp add: append_utf8_def char_of_byte_def Let_def)
qed

lemma append_utf8_out: "append_utf8 out c = out @ append_utf8 [] c"
  by (simp add: append_utf8_def Let_def)

lemma parse_hex4_prefix: "length d = 4 \<Longrightarrow> parse_hex4 (d @ t) = parse_hex4 d"
  by (simp add: parse_hex4_def)

lemma string_loop_control:
  assumes "n < 32"
  shows "string_loop out (unicode_escape n @ t) e = string_loop (out @ [char_of n]) t e"
proof -
  let ?d = "[CHR ''0'', CHR ''0'', hex_char (n div 16), hex_char (n mod 16)]"
  note c = control_escape [OF assms]
  have h: "parse_hex4 (?d @ t) = Inr (word_of_nat n)" using parse_hex4_prefix [of ?d t] c(1) by simp
  have a: "code_point_after (word_of_nat n) t e = (word_of_nat n, t, e)"
  proof -
    have "\<not> 0xD800 \<le> (word_of_nat n :: u32)" unfolding not_le by (rule c(3))
    then show ?thesis unfolding code_point_after_def by simp
  qed
  show ?thesis
    using h a c(2) append_utf8_out [of out "word_of_nat n"]
    by (simp add: unicode_escape_def simple_escape_def)
qed

lemma string_loop_char: "string_loop out (encode_json_char c @ t) e = string_loop (out @ [c]) t e"
  using string_loop_control [of "of_char c" out t e]
  by (auto simp: encode_json_char_def simple_escape_def)

lemma string_loop_string:
  "string_loop out (concat (map encode_json_char s) @ quote # t) e = (Some (out @ s), t, e)"
  by (induction s arbitrary: out) (simp_all add: string_loop_char)

lemma parse_string_encoded: "parse_string (encode_json_string s @ t) e = (Some s, t, e)"
  using string_loop_string [of "[]" s t e] by (simp add: parse_string_def encode_json_string_def)

lemma parse_value_encoded: "parse_value (Suc l) (encode_json_string s @ t) e = Some (Some (JString s), t, e)"
proof -
  obtain r where r: "encode_json_string s @ t = quote # r" by (simp add: encode_json_string_def)
  then have "skip_whitespace (encode_json_string s @ t) = quote # r"
    by (simp add: skip_whitespace_def is_whitespace_def)
  then show ?thesis using parse_string_encoded [of s t e] r by simp
qed

declare parse_value.simps(2) [simp del]

lemma array_loop_encoded:
  "vs \<noteq> [] \<Longrightarrow> array_loop (parse_value (Suc l)) items (encode_elements vs @ CHR '']'' # t) e =
     Some (Some (JArray (items @ map JString vs)), t, e)"
proof (induction vs arbitrary: items rule: encode_elements.induct)
  case 1
  then show ?case by simp
next
  case (2 v)
  show ?case
    by (subst array_loop.simps) (simp add: parse_value_encoded skip_whitespace_def is_whitespace_def)
next
  case (3 v w vs)
  then show ?case
    by (subst array_loop.simps) (simp add: parse_value_encoded skip_whitespace_def is_whitespace_def)
qed

lemma parse_array_encoded:
  "parse_array (parse_value (Suc l)) (encode_elements vs @ CHR '']'' # t) e =
     Some (Some (JArray (map JString vs)), t, e)"
proof (cases vs rule: encode_elements.cases)
  case 1
  then show ?thesis by (simp add: parse_array_def skip_whitespace_def is_whitespace_def)
next
  case (2 v)
  then show ?thesis using array_loop_encoded [of vs l "[]" t e]
    by (simp add: parse_array_def skip_whitespace_def is_whitespace_def encode_json_string_def)
next
  case (3 v w us)
  then show ?thesis using array_loop_encoded [of vs l "[]" t e]
    by (simp add: parse_array_def skip_whitespace_def is_whitespace_def encode_json_string_def)
qed

lemma parse_value_array:
  "parse_value (Suc (Suc l)) (CHR ''['' # encode_elements vs @ CHR '']'' # t) e =
     Some (Some (JArray (map JString vs)), t, e)"
  by (simp add: parse_value.simps(2) [of "Suc l"] skip_whitespace_def is_whitespace_def parse_array_encoded)

lemma json_parse_encoded: "json_parse (encode_json_string_array vs) = Some (Inr (JArray (map JString vs)))"
proof -
  have d: "kMaxDepth + 1 = Suc (Suc 63)" by (simp add: kMaxDepth_def)
  have w: "skip_whitespace (encode_json_string_array vs) = CHR ''['' # encode_elements vs @ CHR '']'' # []"
    by (simp add: encode_json_string_array_def skip_whitespace_def is_whitespace_def)
  show ?thesis
    unfolding json_parse_def d w parse_value_array by (simp add: skip_whitespace_def)
qed

lemma decode_encoded: "decode_json_string_array (encode_json_string_array vs) = Some vs"
  by (simp add: decode_json_string_array_def json_parse_encoded is_array_def array_items_def
      argument_text_def comp_def)

section \<open>Properties\<close>

text \<open>C20. The RPC argument codec is lossless on every list of byte strings, control characters, quotes,
  backslashes and arbitrary non-ASCII bytes included.\<close>

theorem rpc_arguments_roundtrip: "decode_json_string_array (encode_json_string_array arguments) = Some arguments"
  by (rule decode_encoded)

text \<open>C21. The parser terminates on every input: every text is either parsed or rejected, the array and
  object loops included, and the recursion never descends past depth 64.\<close>

theorem json_parser_terminates:
  "json_parse inp \<noteq> None \<and>
   (\<forall>levels error. \<exists>v t e. parse_value levels inp error = Some (v, t, e) \<and> (case v of None \<Rightarrow> True | Some _ \<Rightarrow> length t < length inp))"
proof (intro conjI allI)
  show "json_parse inp \<noteq> None" by (rule json_parse_total)
next
  fix levels error
  obtain v t e where "parse_value levels inp error = Some (v, t, e)" "v \<noteq> None \<longrightarrow> length t < length inp"
    using parse_value_consumes [of levels] unfolding consumes_def by blast
  then show "\<exists>v t e. parse_value levels inp error = Some (v, t, e) \<and>
      (case v of None \<Rightarrow> True | Some _ \<Rightarrow> length t < length inp)"
    by (cases v) auto
qed

text \<open>A leading plus sign, which is no JSON, is accepted, and a number argument is given back reformatted
  and not by its literal text.\<close>

lemma argument_number_reformatted: "decode_json_string_array ''[+1]'' = Some [''1'']"
  by code_simp

end
