(* ===== verification/Rpc_Manager.thy ===== *)
theory Rpc_Manager
  imports Control_Lane Json_Util
begin

text \<open>
  \<open>src/core/rpc_manager.*\<close>: outgoing RPCs with their sliding-window rate limit, the bounded queue used
  before the client is ready, the lifetime of queued calls and the per-tick flush. The state of a
  call is the manager and the state \<open>'w\<close> behind its callbacks. Sizes are far below \<open>2 ^ 31\<close>, so the
  casts of sizes to \<open>int\<close> are exact.
\<close>

section \<open>State and operations\<close>

record PendingRpc =
  pr_function_name :: string
  pr_arguments :: "string list"
  pr_target_client_nos :: "int list"
  pr_enqueued_at :: double

record RpcManager =
  rate_hits :: "double list"
  rpc_limit :: int
  window_seconds :: double
  warn_cooldown :: double
  last_warn_at :: double
  rpc_pending :: "PendingRpc list"
  dropped_rate_limited :: u64
  dropped_expired :: u64
  dropped_overflow :: u64

definition kDefaultRpcLimit :: int where "kDefaultRpcLimit = 30"
definition kDefaultWindowSeconds :: double where "kDefaultWindowSeconds = dlit 1"
definition kDefaultWarnCooldown :: double where "kDefaultWarnCooldown = dlit (1 / 2)"
definition kMaxPendingRpc :: nat where "kMaxPendingRpc = 100"
definition kRpcTtlSeconds :: double where "kRpcTtlSeconds = dlit 5"
definition kMaxFlushPerTick :: nat where "kMaxFlushPerTick = 10"

definition RpcManager_init :: RpcManager where
  "RpcManager_init = \<lparr>rate_hits = [], rpc_limit = kDefaultRpcLimit, window_seconds = kDefaultWindowSeconds,
     warn_cooldown = kDefaultWarnCooldown, last_warn_at = dlit (- 1000000000), rpc_pending = [],
     dropped_rate_limited = 0, dropped_expired = 0, dropped_overflow = 0\<rparr>"

definition configure_rate_limit :: "int \<Rightarrow> double \<Rightarrow> double \<Rightarrow> RpcManager \<Rightarrow> RpcManager" where
  "configure_rate_limit limit window cooldown m =
     m\<lparr>rpc_limit := max 0 limit, window_seconds := std_max (dlit (1 / 100)) window,
       warn_cooldown := std_max (dlit 0) cooldown\<rparr>"

text \<open>A hit that has left the window.\<close>

definition outside_window :: "double \<Rightarrow> double \<Rightarrow> double \<Rightarrow> bool" where
  "outside_window window now hit \<longleftrightarrow> flt window (fsub now hit)"

text \<open>Whether the quota was granted, \<open>retry_after\<close>, \<open>current_count\<close> and the manager.\<close>

definition try_consume_quota :: "double \<Rightarrow> RpcManager \<Rightarrow> bool \<times> double \<times> int \<times> RpcManager" where
  "try_consume_quota now m =
     (if rpc_limit m \<le> 0 then (True, dlit 0, 0, m)
      else
        let hits = dropWhile (outside_window (window_seconds m) now) (rate_hits m);
            m = m\<lparr>rate_hits := hits\<rparr>
        in if rpc_limit m \<le> int (length hits) then
             (False, std_max (dlit 0) (fsub (window_seconds m) (fsub now (hd hits))), int (length hits), m)
           else (True, dlit 0, int (length hits) + 1, m\<lparr>rate_hits := hits @ [now]\<rparr>))"

text \<open>The target loop: the first target out of range, or the targets at 16 bits.\<close>

fun collect_targets :: "int list \<Rightarrow> int + u16 list" where
  "collect_targets [] = Inr []"
| "collect_targets (target # targets) =
     (if target < 0 \<or> 0xFFFF < target then Inl target
      else case collect_targets targets of
          Inl bad \<Rightarrow> Inl bad
        | Inr ts \<Rightarrow> Inr (word_of_int target # ts))"

definition rate_limit_log :: "RpcManager \<Rightarrow> string \<Rightarrow> int \<Rightarrow> string" where
  "rate_limit_log m function_name current_count =
     ''RPC rate limited: dropped '' @ in_quotes function_name @ '' ('' @ dec_int current_count @ ''/'' @
     dec_int (rpc_limit m) @ '' per '' @ to_string_double (window_seconds m) @ ''s)''"

definition note_rate_limited ::
  "'w ManagerCallbacks \<Rightarrow> double \<Rightarrow> string \<Rightarrow> int \<Rightarrow> RpcManager \<times> 'w \<Rightarrow> RpcManager \<times> 'w" where
  "note_rate_limited cb now function_name current_count = (\<lambda>(m, w).
     let m = m\<lparr>dropped_rate_limited := dropped_rate_limited m + 1\<rparr>
     in if fle (warn_cooldown m) (fsub now (last_warn_at m)) then
          (m\<lparr>last_warn_at := now\<rparr>, log_message cb (rate_limit_log m function_name current_count) w)
        else (m, w))"

definition rpc_message :: "int \<Rightarrow> string \<Rightarrow> u16 list \<Rightarrow> string \<Rightarrow> string list \<Rightarrow> RpcMessage" where
  "rpc_message local_client_no device_id targets function_name arguments =
     \<lparr>rm_sender_client_no = word_of_int (if local_client_no < 0 then 0 else local_client_no),
      rm_device_id = device_id, rm_target_client_nos = targets, rm_function_name = function_name,
      rm_arguments_json = encode_json_string_array arguments\<rparr>"

definition try_send_now ::
  "'w ManagerCallbacks \<Rightarrow> double \<Rightarrow> int \<Rightarrow> string \<Rightarrow> int list \<Rightarrow> string \<Rightarrow> string list \<Rightarrow> RpcManager \<times> 'w \<Rightarrow>
     bool \<times> RpcManager \<times> 'w" where
  "try_send_now cb now local_client_no device_id target_client_nos function_name arguments = (\<lambda>(m, w).
     case try_consume_quota now m of
       (False, retry_after, current_count, m) \<Rightarrow> (False, note_rate_limited cb now function_name current_count (m, w))
     | (True, retry_after, current_count, m) \<Rightarrow>
         (case control_sender cb of
            None \<Rightarrow> (False, m, w)
          | Some send \<Rightarrow>
              (case collect_targets target_client_nos of
                 Inl target \<Rightarrow> (False, m, log_message cb (''RPC target client number out of range: '' @ dec_int target) w)
               | Inr targets \<Rightarrow>
                   if 255 < length targets then
                     (False, m, log_message cb (''RPC target list too long ('' @ dec_nat (length targets) @
                        ''); maximum is 255'') w)
                   else
                     let (ok, w) = send (serialize_rpc (rpc_message local_client_no device_id targets function_name arguments)) w
                     in (ok, m, w))))"

lemma try_consume_quota_pending: "try_consume_quota now m = (ok, r, c, m') \<Longrightarrow> rpc_pending m' = rpc_pending m"
  by (auto simp: try_consume_quota_def Let_def split: if_splits)

lemma note_rate_limited_pending: "rpc_pending (fst (note_rate_limited cb now f c (m, w))) = rpc_pending m"
  by (simp add: note_rate_limited_def Let_def)

lemma try_send_now_pending:
  assumes "try_send_now cb now l dev targets f args (m, w) = (ok, m', w')"
  shows "rpc_pending m' = rpc_pending m"
proof -
  obtain g r c m1 where q: "try_consume_quota now m = (g, r, c, m1)" by (metis prod_cases4)
  then show ?thesis using assms note_rate_limited_pending [of cb now f c m1 w] try_consume_quota_pending [OF q]
    by (cases g) (auto simp: try_send_now_def Let_def split: option.splits sum.splits if_splits prod.splits)
qed

text \<open>The overflow loop of \<open>send\<close>.\<close>

function drop_overflow :: "'w ManagerCallbacks \<Rightarrow> RpcManager \<times> 'w \<Rightarrow> RpcManager \<times> 'w" where
  "drop_overflow cb (m, w) =
     (if kMaxPendingRpc < length (rpc_pending m) then
        drop_overflow cb (m\<lparr>rpc_pending := tl (rpc_pending m), dropped_overflow := dropped_overflow m + 1\<rparr>,
          log_message cb (''RPC pending queue overflow: dropped '' @ in_quotes (pr_function_name (hd (rpc_pending m)))) w)
      else (m, w))"
  by pat_completeness auto
termination
  by (relation "measure (\<lambda>(cb, m, w). length (rpc_pending m))") auto

definition rpc_send ::
  "'w ManagerCallbacks \<Rightarrow> double \<Rightarrow> bool \<Rightarrow> int \<Rightarrow> string \<Rightarrow> int list \<Rightarrow> string \<Rightarrow> string list \<Rightarrow> RpcManager \<times> 'w \<Rightarrow>
     RpcManager \<times> 'w" where
  "rpc_send cb now is_ready local_client_no device_id target_client_nos function_name arguments = (\<lambda>(m, w).
     if \<not> is_ready then
       drop_overflow cb (m\<lparr>rpc_pending := rpc_pending m @ [\<lparr>pr_function_name = function_name,
         pr_arguments = arguments, pr_target_client_nos = target_client_nos, pr_enqueued_at = now\<rparr>]\<rparr>, w)
     else snd (try_send_now cb now local_client_no device_id target_client_nos function_name arguments (m, w)))"

definition rpc_expired :: "double \<Rightarrow> PendingRpc \<Rightarrow> bool" where
  "rpc_expired now entry \<longleftrightarrow> flt kRpcTtlSeconds (fsub now (pr_enqueued_at entry))"

text \<open>What happens to the head of the queue: it is dropped, or handed to \<open>try_send_now\<close>.\<close>

definition discard_rpc :: "'w ManagerCallbacks \<Rightarrow> PendingRpc \<Rightarrow> RpcManager \<times> 'w \<Rightarrow> RpcManager \<times> 'w" where
  "discard_rpc cb head = (\<lambda>(m, w).
     (m\<lparr>dropped_expired := dropped_expired m + 1\<rparr>,
      log_message cb (''dropped expired pending RPC '' @ in_quotes (pr_function_name head)) w))"

definition transmit_rpc ::
  "'w ManagerCallbacks \<Rightarrow> double \<Rightarrow> int \<Rightarrow> string \<Rightarrow> PendingRpc \<Rightarrow> RpcManager \<times> 'w \<Rightarrow> bool \<times> RpcManager \<times> 'w" where
  "transmit_rpc cb now local_client_no device_id head =
     try_send_now cb now local_client_no device_id (pr_target_client_nos head) (pr_function_name head) (pr_arguments head)"

function flush_loop ::
  "'w ManagerCallbacks \<Rightarrow> double \<Rightarrow> int \<Rightarrow> string \<Rightarrow> nat \<Rightarrow> RpcManager \<times> 'w \<Rightarrow> bool \<times> RpcManager \<times> 'w" where
  "flush_loop cb now local_client_no device_id sent_this_tick (m, w) =
     (if sent_this_tick < kMaxFlushPerTick \<and> rpc_pending m \<noteq> [] then
        let head = hd (rpc_pending m) in
        if rpc_expired now head then
          (case discard_rpc cb head (m, w) of (m, w) \<Rightarrow>
             flush_loop cb now local_client_no device_id sent_this_tick (m\<lparr>rpc_pending := tl (rpc_pending m)\<rparr>, w))
        else
          (case transmit_rpc cb now local_client_no device_id head (m, w) of
             (True, m, w) \<Rightarrow>
               flush_loop cb now local_client_no device_id (Suc sent_this_tick) (m\<lparr>rpc_pending := tl (rpc_pending m)\<rparr>, w)
           | (False, m, w) \<Rightarrow> (False, m, w))
      else (rpc_pending m = [], m, w))"
  by pat_completeness auto

lemma discard_rpc_pending: "discard_rpc cb head (m, w) = (m', w') \<Longrightarrow> rpc_pending m' = rpc_pending m"
  by (auto simp: discard_rpc_def)

termination flush_loop
proof (relation "measure (\<lambda>(cb, now, l, dev, sent, m, w). length (rpc_pending m))", goal_cases)
  case (2 cb now l dev sent m w x xa y)
  then show ?case using discard_rpc_pending [of cb x m w xa y] by simp
next
  case (3 cb now l dev sent m w x xa y xb ya)
  then show ?case using try_send_now_pending [of cb now l dev _ _ _ m w True xb ya]
    by (simp add: transmit_rpc_def)
qed simp

definition flush_pending ::
  "'w ManagerCallbacks \<Rightarrow> double \<Rightarrow> bool \<Rightarrow> int \<Rightarrow> string \<Rightarrow> RpcManager \<times> 'w \<Rightarrow> bool \<times> RpcManager \<times> 'w" where
  "flush_pending cb now is_ready local_client_no device_id s =
     (if \<not> is_ready then (True, s) else flush_loop cb now local_client_no device_id 0 s)"

definition clear_pending :: "RpcManager \<Rightarrow> RpcManager" where
  "clear_pending m = m\<lparr>rpc_pending := [], rate_hits := []\<rparr>"

section \<open>The flush is a drain of a lifetime-bounded queue\<close>

lemma collect_targets_Inr: "collect_targets targets = Inr ts \<Longrightarrow> ts = map word_of_int targets"
  by (induction targets arbitrary: ts) (auto split: if_splits sum.splits)

lemma collect_targets_valid: "list_all (\<lambda>t. 0 \<le> t \<and> t \<le> 0xFFFF) targets \<Longrightarrow> collect_targets targets = Inr (map word_of_int targets)"
  by (induction targets) auto

text \<open>The payload of a queued call.\<close>

definition rpc_payload :: "int \<Rightarrow> string \<Rightarrow> PendingRpc \<Rightarrow> bytes" where
  "rpc_payload local_client_no device_id entry =
     serialize_rpc (rpc_message local_client_no device_id (map word_of_int (pr_target_client_nos entry))
       (pr_function_name entry) (pr_arguments entry))"

context control_lane
begin

lemma lane_note_rate_limited: "lane (snd (note_rate_limited cb now f c (m, w))) = lane w"
  by (simp add: note_rate_limited_def Let_def)

lemma lane_transmit_rpc:
  assumes "transmit_rpc cb now l dev entry s = (ok, s')"
  shows "lane (snd s') = (if ok then lane (snd s) @ [rpc_payload l dev entry] else lane (snd s))"
proof -
  obtain m w where s: "s = (m, w)" by (cases s)
  obtain g r c m1 where q: "try_consume_quota now m = (g, r, c, m1)" by (metis prod_cases4)
  show ?thesis
  proof (cases g)
    case False
    then show ?thesis using assms lane_note_rate_limited [of now "pr_function_name entry" c m1 w]
      by (auto simp: s q transmit_rpc_def try_send_now_def)
  next
    case True
    then show ?thesis using assms
      by (auto simp: s q transmit_rpc_def try_send_now_def rpc_payload_def Let_def sender
          dest!: collect_targets_Inr split: option.splits sum.splits if_splits prod.splits)
  qed
qed

sublocale rpc: ttl_queue "rpc_expired now" "discard_rpc cb" "transmit_rpc cb now l dev" "rpc_payload l dev" "\<lambda>s. lane (snd s)"
  for now l dev
  by unfold_locales (auto simp: discard_rpc_def lane_transmit_rpc split: prod.splits)

end

text \<open>The manager without its queue.\<close>

definition unqueued_rpc :: "RpcManager \<Rightarrow> RpcManager" where
  "unqueued_rpc m = m\<lparr>rpc_pending := []\<rparr>"

lemma quota_unqueued:
  "try_consume_quota now m = (g, r, c, m') \<Longrightarrow> try_consume_quota now (unqueued_rpc m) = (g, r, c, unqueued_rpc m')"
  by (auto simp: try_consume_quota_def unqueued_rpc_def Let_def split: if_splits)

lemma note_unqueued:
  "note_rate_limited cb now f c (unqueued_rpc m, w) = (case note_rate_limited cb now f c (m, w) of (m, w) \<Rightarrow> (unqueued_rpc m, w))"
  by (simp add: note_rate_limited_def unqueued_rpc_def rate_limit_log_def Let_def)

lemma transmit_unqueued:
  assumes "transmit_rpc cb now l dev e (m, w) = (ok, m', w')"
  shows "transmit_rpc cb now l dev e (unqueued_rpc m, w) = (ok, unqueued_rpc m', w')"
proof -
  obtain g r c m1 where q: "try_consume_quota now m = (g, r, c, m1)" by (metis prod_cases4)
  show ?thesis using assms quota_unqueued [OF q] q note_unqueued [of cb now "pr_function_name e" c m1 w]
    by (cases g) (auto simp: transmit_rpc_def try_send_now_def Let_def split: option.splits sum.splits if_splits prod.splits)
qed

lemma discard_unqueued:
  "discard_rpc cb e (m, w) = (m', w') \<Longrightarrow> discard_rpc cb e (unqueued_rpc m, w) = (unqueued_rpc m', w')"
  by (auto simp: discard_rpc_def unqueued_rpc_def)

lemma unqueued_tl [simp]: "unqueued_rpc (m\<lparr>rpc_pending := q\<rparr>) = unqueued_rpc m"
  by (simp add: unqueued_rpc_def)

lemma flush_loop_drains:
  "flush_loop cb now l dev sent (m, w) = (b, m', w') \<Longrightarrow>
     drain (rpc_expired now) (discard_rpc cb) (transmit_rpc cb now l dev) (kMaxFlushPerTick - sent)
       (rpc_pending m) (unqueued_rpc m, w) = (rpc_pending m', unqueued_rpc m', w') \<and>
     (b \<longrightarrow> rpc_pending m' = [])"
proof (induction cb now l dev sent "(m, w)" arbitrary: m w rule: flush_loop.induct)
  case (1 cb now l dev sent m w)
  show ?case
  proof (cases "sent < kMaxFlushPerTick \<and> rpc_pending m \<noteq> []")
    case False
    then show ?thesis using "1.prems" by auto
  next
    case True
    then obtain b' where b: "kMaxFlushPerTick - sent = Suc b'" "kMaxFlushPerTick - Suc sent = b'"
      by (metis Suc_diff_Suc)
    obtain e q where q: "rpc_pending m = e # q" using True by (cases "rpc_pending m") auto
    then have hd: "e = hd (rpc_pending m)" by simp
    show ?thesis
    proof (cases "rpc_expired now e")
      case ex: True
      obtain m1 w1 where d: "discard_rpc cb e (m, w) = (m1, w1)" by fastforce
      have p: "rpc_pending m1 = e # q" using discard_rpc_pending [OF d] q by simp
      have "flush_loop cb now l dev sent (m1\<lparr>rpc_pending := tl (rpc_pending m1)\<rparr>, w1) = (b, m', w')"
        using "1.prems" True ex d q by simp
      from "1.hyps"(1) [OF True hd ex d [symmetric] this] p show ?thesis
        by (simp add: b q ex discard_unqueued [OF d])
    next
      case ex: False
      obtain ok m1 w1 where t: "transmit_rpc cb now l dev e (m, w) = (ok, m1, w1)" by (metis prod_cases3)
      have p: "rpc_pending m1 = e # q" using try_send_now_pending [OF t [unfolded transmit_rpc_def]] q by simp
      note tu = transmit_unqueued [OF t]
      show ?thesis
      proof (cases ok)
        case taken: True
        have "flush_loop cb now l dev (Suc sent) (m1\<lparr>rpc_pending := tl (rpc_pending m1)\<rparr>, w1) = (b, m', w')"
          using "1.prems" True ex t q taken by simp
        from "1.hyps"(2) [OF True hd ex t [symmetric] _ refl this] p taken tu show ?thesis
          by (simp add: b q ex)
      next
        case ok: False
        then have "m' = m1" "w' = w1" "\<not> b" using "1.prems" True ex t q by auto
        then show ?thesis using p tu ok by (simp add: b q ex)
      qed
    qed
  qed
qed

section \<open>The rate limiter is a sliding window\<close>

text \<open>A sequence of requests at the given times: the times granted, and the manager.\<close>

fun quota_run :: "double list \<Rightarrow> RpcManager \<Rightarrow> double list \<times> RpcManager" where
  "quota_run [] m = ([], m)"
| "quota_run (t # ts) m =
     (case try_consume_quota t m of (granted, _, _, m) \<Rightarrow>
       (case quota_run ts m of (gs, m) \<Rightarrow> (if granted then t # gs else gs, m)))"

lemma outside_window_mono:
  assumes "isfinite t" "isfinite t'" "isfinite g" "fle t t'" "outside_window window t g"
  shows "outside_window window t' g"
proof -
  have "fval t \<le> fval t'" using assms by (simp add: fle_fval)
  then have "okey (fsub t g) \<le> okey (fsub t' g)" using assms(1-3) by (simp add: fsub_finite rkey_mono)
  moreover have "\<not> isnan (fsub t' g)" using assms(2,3) by (simp add: fsub_finite)
  ultimately show ?thesis using assms(5) by (auto simp: outside_window_def flt_def)
qed

definition ascending_times :: "double list \<Rightarrow> bool" where
  "ascending_times ts \<longleftrightarrow> list_all isfinite ts \<and> sorted_wrt fle ts"

text \<open>What holds after each request at time \<open>t\<close>, given the times granted so far.\<close>

definition window_inv :: "double list \<Rightarrow> double \<Rightarrow> RpcManager \<Rightarrow> bool" where
  "window_inv grants t m \<longleftrightarrow> list_all isfinite grants \<and> int (length (rate_hits m)) \<le> rpc_limit m \<and>
     (\<exists>old. grants = old @ rate_hits m \<and> (\<forall>g \<in> set old. outside_window (window_seconds m) t g))"

lemma window_inv_step:
  assumes "window_inv grants t m" "0 < rpc_limit m" "isfinite t" "isfinite t'" "fle t t'"
    and "try_consume_quota t' m = (granted, r, c, m')"
  shows "window_inv (if granted then grants @ [t'] else grants) t' m' \<and> rpc_limit m' = rpc_limit m \<and>
    window_seconds m' = window_seconds m"
proof -
  obtain old where old: "grants = old @ rate_hits m" "\<forall>g \<in> set old. outside_window (window_seconds m) t g"
    and fin: "list_all isfinite grants" and len: "int (length (rate_hits m)) \<le> rpc_limit m"
    using assms(1) by (auto simp: window_inv_def)
  define gone hits where "gone = takeWhile (outside_window (window_seconds m) t') (rate_hits m)"
    and hits: "hits = dropWhile (outside_window (window_seconds m) t') (rate_hits m)"
  then have m: "rate_hits m = gone @ hits" by simp
  have all: "\<forall>g \<in> set (old @ gone). outside_window (window_seconds m) t' g"
  proof
    fix g assume g: "g \<in> set (old @ gone)"
    show "outside_window (window_seconds m) t' g"
    proof (cases "g \<in> set old")
      case True
      then have "isfinite g" using fin old(1) by (simp add: list_all_iff)
      then show ?thesis using True old(2) assms(3-5) outside_window_mono by blast
    next
      case False
      then show ?thesis using g by (auto simp: gone_def dest: set_takeWhileD)
    qed
  qed
  have r: "rpc_limit m' = rpc_limit m" "window_seconds m' = window_seconds m"
    "rate_hits m' = (if granted then hits @ [t'] else hits)" "int (length (rate_hits m')) \<le> rpc_limit m"
    using assms(2,6) len arg_cong [OF m, of length] by (auto simp: try_consume_quota_def Let_def hits [symmetric] split: if_splits)
  have "(if granted then grants @ [t'] else grants) = (old @ gone) @ rate_hits m'"
    using r(3) old(1) m by simp
  moreover have "list_all isfinite (if granted then grants @ [t'] else grants)" using fin assms(4) by simp
  ultimately show ?thesis using r all unfolding window_inv_def by metis
qed

lemma quota_run_inv:
  "window_inv grants t m \<Longrightarrow> 0 < rpc_limit m \<Longrightarrow> ascending_times (t # ts) \<Longrightarrow> quota_run ts m = (gs, m') \<Longrightarrow>
     window_inv (grants @ gs) (last (t # ts)) m' \<and> rpc_limit m' = rpc_limit m \<and> window_seconds m' = window_seconds m"
proof (induction ts arbitrary: grants t m gs)
  case (Cons t' ts)
  obtain granted r c m1 where q: "try_consume_quota t' m = (granted, r, c, m1)" by (metis prod_cases4)
  obtain gs1 where g: "quota_run ts m1 = (gs1, m')" "gs = (if granted then t' # gs1 else gs1)"
    using Cons.prems(4) q by (auto split: prod.splits)
  have step: "window_inv (if granted then grants @ [t'] else grants) t' m1 \<and> rpc_limit m1 = rpc_limit m \<and>
      window_seconds m1 = window_seconds m"
    using Cons.prems window_inv_step [OF Cons.prems(1,2) _ _ _ q] by (simp add: ascending_times_def)
  have "ascending_times (t' # ts)" using Cons.prems(3) by (simp add: ascending_times_def)
  from Cons.IH [OF conjunct1 [OF step] _ this g(1)] step Cons.prems(2) g(2) show ?case by auto
qed simp

section \<open>The queue before the client is ready\<close>

lemma drop_overflow_pending:
  "drop_overflow cb (m, w) = (m', w') \<Longrightarrow> rpc_pending m' = drop (length (rpc_pending m) - kMaxPendingRpc) (rpc_pending m)"
proof (induction cb "(m, w)" arbitrary: m w rule: drop_overflow.induct)
  case (1 cb m w)
  show ?case
  proof (cases "kMaxPendingRpc < length (rpc_pending m)")
    case True
    then obtain e q where q: "rpc_pending m = e # q" by (cases "rpc_pending m") auto
    have "length q - kMaxPendingRpc = length (rpc_pending m) - kMaxPendingRpc - 1" using q by simp
    then have "drop (length (rpc_pending m) - kMaxPendingRpc) (rpc_pending m) = drop (length q - kMaxPendingRpc) q"
      using True q by (simp add: drop_Cons' Suc_diff_le)
    then show ?thesis using 1 True q by simp
  qed (use 1 in simp)
qed

section \<open>Properties\<close>

text \<open>C30. The rate limit is a true sliding window: over any sequence of requests at ascending times, the
  grants that have not left the window at the time of the last request are never more than the limit.\<close>

theorem rpc_rate_limit_window:
  assumes "0 < rpc_limit m" "rate_hits m = []" "ts \<noteq> []" "ascending_times ts" "quota_run ts m = (grants, m')"
  shows "int (length (filter (\<lambda>g. \<not> outside_window (window_seconds m) (last ts) g) grants)) \<le> rpc_limit m"
proof -
  obtain t us where ts: "ts = t # us" using assms(3) by (cases ts) auto
  have asc: "ascending_times (t # t # us)"
    using assms(4) by (auto simp: ts ascending_times_def fle_def isfinite_iff list_all_iff)
  have "window_inv [] t m" using assms(1,2) by (simp add: window_inv_def)
  from quota_run_inv [OF this assms(1) asc assms(5) [unfolded ts]]
  obtain old where "grants = old @ rate_hits m'" "\<forall>g \<in> set old. outside_window (window_seconds m) (last ts) g"
    "int (length (rate_hits m')) \<le> rpc_limit m"
    by (auto simp: window_inv_def ts)
  then have "length (filter (\<lambda>g. \<not> outside_window (window_seconds m) (last ts) g) grants) \<le> length (rate_hits m')"
    by (simp add: filter_False)
  then show ?thesis using \<open>int (length (rate_hits m')) \<le> rpc_limit m\<close> by linarith
qed

theorem rpc_rate_limit_window_witness:
  "let m = RpcManager_init\<lparr>rpc_limit := 1\<rparr>; ts = [dlit 1, dlit 1]
   in int (length (filter (\<lambda>g. \<not> outside_window (window_seconds m) (last ts) g) (fst (quota_run ts m)))) \<le> 1"
proof -
  let ?m = "RpcManager_init\<lparr>rpc_limit := 1\<rparr>"
  have "isfinite (dlit 1)" by simp
  then have "ascending_times [dlit 1, dlit 1]" by (simp add: ascending_times_def fle_def isfinite_iff)
  moreover obtain gs m' where "quota_run [dlit 1, dlit 1] ?m = (gs, m')" by fastforce
  ultimately show ?thesis
    using rpc_rate_limit_window [of ?m "[dlit 1, dlit 1]" gs m'] by (simp add: RpcManager_init_def)
qed

text \<open>C31. A call before the client is ready is queued, nothing is sent, and the queue keeps the newest
  100 calls in their order.\<close>

theorem rpc_queue_keeps_newest:
  assumes "rpc_send client_callbacks now False l dev targets f args (m, w) = (m', w')"
  shows "rpc_pending m' = drop (length (rpc_pending m) + 1 - 100)
      (rpc_pending m @ [\<lparr>pr_function_name = f, pr_arguments = args, pr_target_client_nos = targets, pr_enqueued_at = now\<rparr>]) \<and>
    (length (rpc_pending m) \<le> 100 \<longrightarrow> length (rpc_pending m') \<le> 100) \<and> outbox w' = outbox w"
proof -
  let ?m = "m\<lparr>rpc_pending := rpc_pending m @ [\<lparr>pr_function_name = f, pr_arguments = args, pr_target_client_nos = targets, pr_enqueued_at = now\<rparr>]\<rparr>"
  have d: "drop_overflow client_callbacks (?m, w) = (m', w')" using assms by (simp add: rpc_send_def)
  have "drop_overflow client_callbacks s = s' \<Longrightarrow> outbox (snd s') = outbox (snd s)" for s s'
    by (induction client_callbacks s rule: drop_overflow.induct) (auto split: if_splits)
  from this [OF d] drop_overflow_pending [OF d] show ?thesis
    by (auto simp: kMaxPendingRpc_def)
qed

theorem rpc_queue_keeps_newest_witness:
  "let w = \<lparr>transport = running_transport, notifications = []\<rparr>
   in map pr_function_name (rpc_pending (fst (rpc_send client_callbacks (dlit 1) False 0 ''d'' [] ''f'' [] (RpcManager_init, w)))) = [''f'']"
proof -
  let ?w = "\<lparr>transport = running_transport, notifications = []\<rparr>"
  obtain m' w' where s: "rpc_send client_callbacks (dlit 1) False 0 ''d'' [] ''f'' [] (RpcManager_init, ?w) = (m', w')"
    by fastforce
  show ?thesis using rpc_queue_keeps_newest [OF s] s by (simp add: RpcManager_init_def)
qed

text \<open>C32. A flush takes queued calls from the front: those older than five seconds are dropped, the
  others are put on the control lane in the order they were made, at most ten of them, as the
  messages the receiver decodes; nothing else is put on the lane. It reports true only when the
  queue is empty, and stops early only at a call that has not expired.\<close>

theorem rpc_flush_fifo:
  assumes "flush_pending client_callbacks now True l dev (m, w) = (b, m', w')"
  shows "\<exists>taken. rpc_pending m = taken @ rpc_pending m' \<and>
    outbox w' = outbox w @ map (rpc_payload l dev) (live (rpc_expired now) taken) \<and>
    length (live (rpc_expired now) taken) \<le> 10 \<and> (b \<longrightarrow> rpc_pending m' = []) \<and>
    (rpc_pending m' = [] \<or> length (live (rpc_expired now) taken) = 10 \<or> \<not> rpc_expired now (hd (rpc_pending m')))"
proof -
  have "flush_loop client_callbacks now l dev 0 (m, w) = (b, m', w')"
    using assms by (simp add: flush_pending_def)
  from flush_loop_drains [OF this]
  have d: "drain (rpc_expired now) (discard_rpc client_callbacks) (transmit_rpc client_callbacks now l dev) 10
      (rpc_pending m) (unqueued_rpc m, w) = (rpc_pending m', unqueued_rpc m', w')" and "b \<longrightarrow> rpc_pending m' = []"
    by (simp_all add: kMaxFlushPerTick_def)
  with client_lane.rpc.drain_fifo [OF d] show ?thesis by auto
qed

theorem rpc_flush_fifo_witness:
  "let w = \<lparr>transport = running_transport, notifications = []\<rparr>;
       e = \<lparr>pr_function_name = ''f'', pr_arguments = [], pr_target_client_nos = [], pr_enqueued_at = dlit 1\<rparr>;
       r = flush_pending client_callbacks (dlit 1) True 0 ''d'' (RpcManager_init\<lparr>rpc_pending := [e]\<rparr>, w)
   in \<exists>taken. [e] = taken @ rpc_pending (fst (snd r)) \<and>
        outbox (snd (snd r)) = map (rpc_payload 0 ''d'') (live (rpc_expired (dlit 1)) taken)"
proof -
  let ?w = "\<lparr>transport = running_transport, notifications = []\<rparr>"
  let ?e = "\<lparr>pr_function_name = ''f'', pr_arguments = [], pr_target_client_nos = [], pr_enqueued_at = dlit 1\<rparr>"
  obtain b m' w' where f: "flush_pending client_callbacks (dlit 1) True 0 ''d'' (RpcManager_init\<lparr>rpc_pending := [?e]\<rparr>, ?w) = (b, m', w')"
    by (metis prod_cases3)
  have "outbox ?w = []" by (simp add: outbox_def running_outbox)
  then show ?thesis using rpc_flush_fifo [OF f] f by auto
qed

text \<open>C33. A queued call that can never be sent (a target that is no 16 bit client number, or more than 255
  targets) blocks the calls behind it: while it has not expired, a flush sends nothing, keeps the
  whole queue, and still uses up quota.\<close>

theorem rpc_unsendable_head_blocks:
  assumes "rpc_pending m = head # later" "\<not> rpc_expired now head"
    and "\<exists>t \<in> set (pr_target_client_nos head). t < 0 \<or> 0xFFFF < t"
  shows "case flush_pending client_callbacks now True l dev (m, w) of (b, m', w') \<Rightarrow>
    \<not> b \<and> rpc_pending m' = head # later \<and> outbox w' = outbox w \<and> rate_hits m' = rate_hits (snd (snd (snd (try_consume_quota now m))))"
proof -
  have bad: "\<exists>t. collect_targets (pr_target_client_nos head) = Inl t"
  proof (cases "collect_targets (pr_target_client_nos head)")
    case (Inr ts)
    have "collect_targets targets = Inr ts \<Longrightarrow> \<forall>t \<in> set targets. \<not> (t < 0 \<or> 0xFFFF < t)" for targets ts
      by (induction targets arbitrary: ts) (auto split: if_splits sum.splits)
    then show ?thesis using Inr assms(3) by blast
  qed simp
  obtain g r c m1 where q: "try_consume_quota now m = (g, r, c, m1)" by (metis prod_cases4)
  obtain ok m2 w2 where t: "transmit_rpc client_callbacks now l dev head (m, w) = (ok, m2, w2)" by (metis prod_cases3)
  have "\<not> ok \<and> rate_hits m2 = rate_hits m1"
    using t q bad by (cases g) (auto simp: transmit_rpc_def try_send_now_def note_rate_limited_def client_callbacks_def Let_def split: if_splits)
  moreover have "rpc_pending m2 = head # later"
    using try_send_now_pending [OF t [unfolded transmit_rpc_def]] assms(1) by simp
  moreover have "outbox w2 = outbox w" using client_lane.lane_transmit_rpc [OF t] calculation(1) by simp
  ultimately show ?thesis using assms(1,2) t q by (simp add: flush_pending_def kMaxFlushPerTick_def)
qed

theorem rpc_unsendable_head_blocks_witness:
  "let w = \<lparr>transport = running_transport, notifications = []\<rparr>;
       e = \<lparr>pr_function_name = ''f'', pr_arguments = [], pr_target_client_nos = [70000], pr_enqueued_at = dlit 1\<rparr>;
       r = flush_pending client_callbacks (dlit 1) True 0 ''d'' (RpcManager_init\<lparr>rpc_pending := [e]\<rparr>, w)
   in \<not> fst r \<and> rpc_pending (fst (snd r)) = [e] \<and> outbox (snd (snd r)) = outbox w"
proof -
  let ?w = "\<lparr>transport = running_transport, notifications = []\<rparr>"
  let ?e = "\<lparr>pr_function_name = ''f'', pr_arguments = [], pr_target_client_nos = [70000], pr_enqueued_at = dlit 1\<rparr>"
  have "\<not> flt (dlit 5) (fsub (dlit 1) (dlit 1))" by code_simp
  then have "\<not> rpc_expired (dlit 1) ?e" by (simp add: rpc_expired_def kRpcTtlSeconds_def)
  from rpc_unsendable_head_blocks [OF _ this, of "RpcManager_init\<lparr>rpc_pending := [?e]\<rparr>" "[]" ?w 0 "''d''"]
  show ?thesis by (auto split: prod.splits)
qed

end
