(* ===== verification/Network_Variables.thy ===== *)
theory Network_Variables
  imports Control_Lane
begin

text \<open>
  \<open>src/core/network_variable_manager.*\<close>: global and per-client variables. Both kinds are sent by the
  same discipline (the code writes it twice, once for names and once for pairs of a client number
  and a name): a leading-edge send, a cooldown of a tenth of a second, a trailing flush of the
  latest value, and no resend of the value last put on the wire. The four maps of that discipline
  are a record \<open>Outgoing\<close> over the type of the keys.
\<close>

section \<open>The debounced sender\<close>

record (overloaded) ('k :: linorder) Outgoing =
  last_sent :: "('k, string) omap"
  next_allowed :: "('k, double) omap"
  pending_value :: "('k, string) omap"
  due :: "('k, double) omap"

definition Outgoing_empty :: "('k :: linorder) Outgoing" where
  "Outgoing_empty = \<lparr>last_sent = om_empty, next_allowed = om_empty, pending_value = om_empty, due = om_empty\<rparr>"

definition kDebounceInterval :: double where "kDebounceInterval = dlit (1 / 10)"

definition try_send_value ::
  "('k :: linorder \<Rightarrow> string \<Rightarrow> bytes) \<Rightarrow> 'w ManagerCallbacks \<Rightarrow> 'k \<Rightarrow> string \<Rightarrow> 'k Outgoing \<times> 'w \<Rightarrow> bool \<times> 'k Outgoing \<times> 'w" where
  "try_send_value encode cb key val = (\<lambda>(s, w).
     case control_sender cb of
       None \<Rightarrow> (False, s, w)
     | Some send \<Rightarrow>
         let (ok, w) = send (encode key val) w
         in if \<not> ok then (False, s, w) else (True, s\<lparr>last_sent := om_insert key val (last_sent s)\<rparr>, w))"

definition settle :: "'k :: linorder \<Rightarrow> 'k Outgoing \<Rightarrow> 'k Outgoing" where
  "settle key s = s\<lparr>pending_value := om_erase key (pending_value s), due := om_erase key (due s)\<rparr>"

text \<open>\<open>set_global\<close> and \<open>set_client\<close> after their checks: outside the cooldown, then in general.\<close>

definition set_immediate ::
  "('k :: linorder \<Rightarrow> string \<Rightarrow> bytes) \<Rightarrow> 'w ManagerCallbacks \<Rightarrow> double \<Rightarrow> 'k \<Rightarrow> string \<Rightarrow> 'k Outgoing \<times> 'w \<Rightarrow> 'k Outgoing \<times> 'w" where
  "set_immediate encode cb now key val sw =
     (let (ok, s, w) = try_send_value encode cb key val sw;
          s = (if ok then s\<lparr>next_allowed := om_insert key (fadd now kDebounceInterval) (next_allowed s)\<rparr> else s)
      in (s\<lparr>pending_value := om_insert key val (pending_value s),
            due := (if om_find (due s) key = None then om_insert key (fadd now kDebounceInterval) (due s) else due s)\<rparr>, w))"

definition set_value ::
  "('k :: linorder \<Rightarrow> string \<Rightarrow> bytes) \<Rightarrow> 'w ManagerCallbacks \<Rightarrow> double \<Rightarrow> 'k \<Rightarrow> string \<Rightarrow> 'k Outgoing \<times> 'w \<Rightarrow> 'k Outgoing \<times> 'w" where
  "set_value encode cb now key val = (\<lambda>(s, w).
     if om_find (last_sent s) key = Some val then (settle key s, w)
     else
       case om_find (next_allowed s) key of
         None \<Rightarrow> set_immediate encode cb now key val (s, w)
       | Some allowed \<Rightarrow>
           if fle allowed now then set_immediate encode cb now key val (s, w)
           else (s\<lparr>pending_value := om_insert key val (pending_value s),
                   due := (if om_find (due s) key = None then om_insert key allowed (due s) else due s)\<rparr>, w))"

text \<open>\<open>flush_pending_global\<close> and \<open>flush_pending_client\<close>: the entries that are due, then the loop over them.\<close>

definition to_flush :: "double \<Rightarrow> 'k :: linorder Outgoing \<Rightarrow> ('k \<times> string) list" where
  "to_flush now s = List.map_filter (\<lambda>(key, deadline).
     if flt now deadline then None
     else case om_find (pending_value s) key of None \<Rightarrow> None | Some val \<Rightarrow> Some (key, val)) (om_entries (due s))"

fun flush_entries ::
  "('k :: linorder \<Rightarrow> string \<Rightarrow> bytes) \<Rightarrow> 'w ManagerCallbacks \<Rightarrow> double \<Rightarrow> ('k \<times> string) list \<Rightarrow> bool \<Rightarrow> 'k Outgoing \<times> 'w \<Rightarrow>
     bool \<times> 'k Outgoing \<times> 'w" where
  "flush_entries encode cb now [] all_flushed (s, w) = (all_flushed, s, w)"
| "flush_entries encode cb now ((key, val) # entries) all_flushed (s, w) =
     (if om_find (last_sent s) key = Some val then flush_entries encode cb now entries all_flushed (settle key s, w)
      else case try_send_value encode cb key val (s, w) of
          (True, s, w) \<Rightarrow>
            flush_entries encode cb now entries all_flushed
              ((settle key s)\<lparr>next_allowed := om_insert key (fadd now kDebounceInterval) (next_allowed s)\<rparr>, w)
        | (False, s, w) \<Rightarrow> flush_entries encode cb now entries False (s, w))"

definition flush_values ::
  "('k :: linorder \<Rightarrow> string \<Rightarrow> bytes) \<Rightarrow> 'w ManagerCallbacks \<Rightarrow> double \<Rightarrow> 'k Outgoing \<times> 'w \<Rightarrow> bool \<times> 'k Outgoing \<times> 'w" where
  "flush_values encode cb now = (\<lambda>(s, w). flush_entries encode cb now (to_flush now s) True (s, w))"

section \<open>The manager\<close>

record VariableChange =
  vc_client_no :: int
  vc_name :: string
  vc_old_value :: string
  vc_new_value :: string
  vc_had_old_value :: bool
  vc_removed :: bool

type_synonym ClientKey = "int \<times> string"

record NetworkVariableManager =
  nv_local_client_no :: int
  nv_local_device_id :: string
  globals :: "(string, string) omap"
  client_variables :: "(int, (string, string) omap) omap"
  global_out :: "string Outgoing"
  client_out :: "ClientKey Outgoing"
  has_received_initial_sync :: bool
  connection_established :: bool
  connection_established_at :: double

definition NetworkVariableManager_init :: NetworkVariableManager where
  "NetworkVariableManager_init = \<lparr>nv_local_client_no = 0, nv_local_device_id = [], globals = om_empty,
     client_variables = om_empty, global_out = Outgoing_empty, client_out = Outgoing_empty,
     has_received_initial_sync = False, connection_established = False, connection_established_at = dlit 0\<rparr>"

definition kMaxGlobalVars :: nat where "kMaxGlobalVars = 100"
definition kMaxClientVars :: nat where "kMaxClientVars = 100"
definition kInitialSyncTimeout :: double where "kInitialSyncTimeout = dlit 2"

definition set_variable_identity :: "int \<Rightarrow> string \<Rightarrow> NetworkVariableManager \<Rightarrow> NetworkVariableManager" where
  "set_variable_identity client_no device_id m = m\<lparr>nv_local_client_no := client_no, nv_local_device_id := device_id\<rparr>"

definition mark_initial_sync_complete :: "NetworkVariableManager \<Rightarrow> NetworkVariableManager" where
  "mark_initial_sync_complete m = m\<lparr>has_received_initial_sync := True\<rparr>"

definition reset_initial_sync :: "NetworkVariableManager \<Rightarrow> NetworkVariableManager" where
  "reset_initial_sync m = m\<lparr>has_received_initial_sync := False, connection_established := False,
     connection_established_at := dlit 0\<rparr>"

definition on_connection_established :: "double \<Rightarrow> NetworkVariableManager \<Rightarrow> NetworkVariableManager" where
  "on_connection_established now m = m\<lparr>connection_established := True, connection_established_at := now\<rparr>"

text \<open>The dash of the message is its three UTF-8 bytes.\<close>

definition check_initial_sync_timeout ::
  "'w ManagerCallbacks \<Rightarrow> double \<Rightarrow> NetworkVariableManager \<times> 'w \<Rightarrow> bool \<times> NetworkVariableManager \<times> 'w" where
  "check_initial_sync_timeout cb now = (\<lambda>(m, w).
     if has_received_initial_sync m \<or> \<not> connection_established m then (False, m, w)
     else if flt (fsub now (connection_established_at m)) kInitialSyncTimeout then (False, m, w)
     else (True, m\<lparr>has_received_initial_sync := True\<rparr>,
           log_message cb (''network variable initial sync timed out after '' @ to_string_double kInitialSyncTimeout @
             ''s '' @ [CHR 0xE2, CHR 0x80, CHR 0x94] @ '' proceeding without variables'') w))"

definition code_point_length :: "string \<Rightarrow> nat" where
  "code_point_length val = length (filter (\<lambda>c. \<not> is_continuation c) val)"

definition validate_name :: "string \<Rightarrow> bool" where
  "validate_name name \<longleftrightarrow> \<not> (name = [] \<or> kMaxVariableNameChars < code_point_length name)"

definition validate_value :: "string \<Rightarrow> bool" where
  "validate_value val \<longleftrightarrow> code_point_length val \<le> kMaxVariableValueChars"

definition sender_no :: "int \<Rightarrow> u16" where
  "sender_no client_no = word_of_int (if client_no < 0 then 0 else client_no)"

text \<open>The messages of \<open>try_send_global_now\<close> and \<open>try_send_client_now\<close>.\<close>

definition global_payload :: "NetworkVariableManager \<Rightarrow> string \<Rightarrow> string \<Rightarrow> bytes" where
  "global_payload m name val = serialize_global_var_set
     \<lparr>gs_sender_client_no = sender_no (nv_local_client_no m), gs_device_id = nv_local_device_id m,
      gs_variable_name = name, gs_variable_value = val\<rparr>"

definition client_payload :: "NetworkVariableManager \<Rightarrow> ClientKey \<Rightarrow> string \<Rightarrow> bytes" where
  "client_payload m = (\<lambda>(target_client_no, name) val. serialize_client_var_set
     \<lparr>cs_sender_client_no = sender_no (nv_local_client_no m), cs_device_id = nv_local_device_id m,
      cs_target_client_no = sender_no target_client_no, cs_variable_name = name, cs_variable_value = val\<rparr>)"

definition invalid_name_log :: "string \<Rightarrow> string" where
  "invalid_name_log kind = ''invalid '' @ kind @ '' variable name: must be 1-'' @ dec_nat kMaxVariableNameChars @ '' characters''"

definition invalid_value_log :: "string \<Rightarrow> string" where
  "invalid_value_log kind = ''invalid '' @ kind @ '' variable value: must be at most '' @ dec_nat kMaxVariableValueChars @ '' characters''"

definition set_global ::
  "'w ManagerCallbacks \<Rightarrow> double \<Rightarrow> string \<Rightarrow> string \<Rightarrow> NetworkVariableManager \<times> 'w \<Rightarrow> bool \<times> NetworkVariableManager \<times> 'w" where
  "set_global cb now name val = (\<lambda>(m, w).
     if \<not> validate_name name then (False, m, log_message cb (invalid_name_log ''global'') w)
     else if \<not> validate_value val then (False, m, log_message cb (invalid_value_log ''global'') w)
     else if kMaxGlobalVars \<le> om_size (globals m) \<and> om_find (globals m) name = None then
       (False, m, log_message cb (''global variable limit ('' @ dec_nat kMaxGlobalVars @ '') reached'') w)
     else let (s, w) = set_value (global_payload m) cb now name val (global_out m, w)
          in (True, m\<lparr>global_out := s\<rparr>, w))"

definition get_global :: "NetworkVariableManager \<Rightarrow> string \<Rightarrow> string option" where
  "get_global m name = om_find (globals m) name"

text \<open>\<open>operator[]\<close> creates the variable table of the target.\<close>

definition variables_of :: "NetworkVariableManager \<Rightarrow> int \<Rightarrow> (string, string) omap" where
  "variables_of m client_no = (case om_find (client_variables m) client_no of None \<Rightarrow> om_empty | Some vs \<Rightarrow> vs)"

definition set_client ::
  "'w ManagerCallbacks \<Rightarrow> double \<Rightarrow> int \<Rightarrow> string \<Rightarrow> string \<Rightarrow> NetworkVariableManager \<times> 'w \<Rightarrow> bool \<times> NetworkVariableManager \<times> 'w" where
  "set_client cb now target_client_no name val = (\<lambda>(m, w).
     if \<not> validate_name name then (False, m, log_message cb (invalid_name_log ''client'') w)
     else if \<not> validate_value val then (False, m, log_message cb (invalid_value_log ''client'') w)
     else
       let variables = variables_of m target_client_no;
           m = m\<lparr>client_variables := om_insert target_client_no variables (client_variables m)\<rparr>
       in if kMaxClientVars \<le> om_size variables \<and> om_find variables name = None then
            (False, m, log_message cb (''client variable limit ('' @ dec_nat kMaxClientVars @ '') reached for client '' @
               dec_int target_client_no) w)
          else let (s, w) = set_value (client_payload m) cb now (target_client_no, name) val (client_out m, w)
               in (True, m\<lparr>client_out := s\<rparr>, w))"

definition get_client :: "NetworkVariableManager \<Rightarrow> int \<Rightarrow> string \<Rightarrow> string option" where
  "get_client m client_no name =
     (case om_find (client_variables m) client_no of None \<Rightarrow> None | Some vs \<Rightarrow> om_find vs name)"

definition all_client_variables :: "NetworkVariableManager \<Rightarrow> int \<Rightarrow> (string, string) omap" where
  "all_client_variables m client_no = variables_of m client_no"

definition clear_pending_for_client :: "int \<Rightarrow> NetworkVariableManager \<Rightarrow> NetworkVariableManager" where
  "clear_pending_for_client client_no m =
     m\<lparr>client_out := \<lparr>last_sent = om_filter (\<lambda>k _. fst k \<noteq> client_no) (last_sent (client_out m)),
       next_allowed = om_filter (\<lambda>k _. fst k \<noteq> client_no) (next_allowed (client_out m)),
       pending_value = om_filter (\<lambda>k _. fst k \<noteq> client_no) (pending_value (client_out m)),
       due = om_filter (\<lambda>k _. fst k \<noteq> client_no) (due (client_out m))\<rparr>\<rparr>"

definition removal :: "int \<Rightarrow> string \<times> string \<Rightarrow> VariableChange" where
  "removal client_no = (\<lambda>(name, old). \<lparr>vc_client_no = client_no, vc_name = name, vc_old_value = old,
     vc_new_value = [], vc_had_old_value = True, vc_removed = True\<rparr>)"

definition clear_my_client_variables ::
  "'w ManagerCallbacks \<Rightarrow> NetworkVariableManager \<times> 'w \<Rightarrow> bool \<times> VariableChange list \<times> NetworkVariableManager \<times> 'w" where
  "clear_my_client_variables cb = (\<lambda>(m, w).
     case control_sender cb of
       None \<Rightarrow> (False, [], m, w)
     | Some send \<Rightarrow>
         if nv_local_client_no m \<le> 0 then (False, [], m, w)
         else
           let me = nv_local_client_no m;
               (ok, w) = send (serialize_client_var_clear \<lparr>cc_sender_client_no = word_of_int me,
                 cc_device_id = nv_local_device_id m\<rparr>) w
           in if \<not> ok then (False, [], m, w)
              else case om_find (client_variables m) me of
                  None \<Rightarrow> (True, [], clear_pending_for_client me m, w)
                | Some vs \<Rightarrow>
                    (True, map (removal me) (om_entries vs),
                     clear_pending_for_client me (m\<lparr>client_variables := om_insert me om_empty (client_variables m)\<rparr>), w))"

section \<open>Incoming snapshots\<close>

definition change :: "int \<Rightarrow> string \<Rightarrow> string option \<Rightarrow> string \<Rightarrow> VariableChange" where
  "change client_no name old new = \<lparr>vc_client_no = client_no, vc_name = name,
     vc_old_value = (case old of None \<Rightarrow> [] | Some v \<Rightarrow> v), vc_new_value = new,
     vc_had_old_value = (old \<noteq> None), vc_removed = False\<rparr>"

text \<open>The send-side reconciliation of an entry of a global snapshot.\<close>

definition reconcile_global :: "string \<Rightarrow> string \<Rightarrow> string Outgoing \<Rightarrow> string Outgoing" where
  "reconcile_global name val s =
     (case om_find (last_sent s) name of
        None \<Rightarrow> s
      | Some sent \<Rightarrow>
          let s = (if om_find (pending_value s) name = Some sent then settle name s else s)
          in if sent \<noteq> val then s\<lparr>last_sent := om_erase name (last_sent s)\<rparr> else s)"

definition sync_global_entry ::
  "NetworkVariableEntry \<Rightarrow> NetworkVariableManager \<times> VariableChange list \<Rightarrow> NetworkVariableManager \<times> VariableChange list" where
  "sync_global_entry entry = (\<lambda>(m, changes).
     if nv_name entry = [] then (m, changes)
     else
       let m = m\<lparr>global_out := reconcile_global (nv_name entry) (nv_value entry) (global_out m)\<rparr>;
           old = om_find (globals m) (nv_name entry)
       in if old = Some (nv_value entry) then (m, changes)
          else (m\<lparr>globals := om_insert (nv_name entry) (nv_value entry) (globals m)\<rparr>,
                changes @ [change 0 (nv_name entry) old (nv_value entry)]))"

definition handle_global_sync ::
  "GlobalVarSyncMessage \<Rightarrow> NetworkVariableManager \<Rightarrow> NetworkVariableManager \<times> VariableChange list" where
  "handle_global_sync message m = fold sync_global_entry message (m\<lparr>has_received_initial_sync := True\<rparr>, [])"

text \<open>The variables of a block: the last entry of a name wins, entries without a name are skipped.\<close>

definition block_variables :: "NetworkVariableEntry list \<Rightarrow> (string, string) omap" where
  "block_variables entries =
     fold (\<lambda>entry next. if nv_name entry = [] then next else om_insert (nv_name entry) (nv_value entry) next) entries om_empty"

definition forget_removed :: "ClientKey \<Rightarrow> ClientKey Outgoing \<Rightarrow> ClientKey Outgoing" where
  "forget_removed key s =
     (case om_find (last_sent s) key of
        None \<Rightarrow> s
      | Some sent \<Rightarrow>
          let s = (if om_find (pending_value s) key = Some sent then settle key s else s)
          in s\<lparr>last_sent := om_erase key (last_sent s)\<rparr>)"

definition remember_synced :: "ClientKey \<Rightarrow> string \<Rightarrow> ClientKey Outgoing \<Rightarrow> ClientKey Outgoing" where
  "remember_synced key val s =
     (let s = s\<lparr>last_sent := om_insert key val (last_sent s)\<rparr>
      in if om_find (pending_value s) key = Some val then settle key s else s)"

definition sync_removed ::
  "int \<Rightarrow> (string, string) omap \<Rightarrow> string \<times> string \<Rightarrow> ClientKey Outgoing \<times> VariableChange list \<Rightarrow> ClientKey Outgoing \<times> VariableChange list" where
  "sync_removed client_no next = (\<lambda>(name, old) (s, changes).
     if om_find next name \<noteq> None then (s, changes)
     else (forget_removed (client_no, name) s, changes @ [removal client_no (name, old)]))"

definition sync_present ::
  "int \<Rightarrow> (string, string) omap \<Rightarrow> string \<times> string \<Rightarrow> ClientKey Outgoing \<times> VariableChange list \<Rightarrow> ClientKey Outgoing \<times> VariableChange list" where
  "sync_present client_no old = (\<lambda>(name, val) (s, changes).
     let s = remember_synced (client_no, name) val s
     in if om_find old name = Some val then (s, changes)
        else (s, changes @ [change client_no name (om_find old name) val]))"

definition sync_client_block ::
  "u16 \<times> NetworkVariableEntry list \<Rightarrow> NetworkVariableManager \<times> VariableChange list \<Rightarrow> NetworkVariableManager \<times> VariableChange list" where
  "sync_client_block = (\<lambda>(client, entries) (m, changes).
     let client_no = uint client;
         next = block_variables entries;
         old = variables_of m client_no;
         (s, changes) = fold (sync_removed client_no next) (om_entries old) (client_out m, changes);
         (s, changes) = fold (sync_present client_no old) (om_entries next) (s, changes)
     in (m\<lparr>client_out := s, client_variables := om_insert client_no next (client_variables m)\<rparr>, changes))"

definition handle_client_sync ::
  "ClientVarSyncMessage \<Rightarrow> NetworkVariableManager \<Rightarrow> NetworkVariableManager \<times> VariableChange list" where
  "handle_client_sync message m = fold sync_client_block message (m\<lparr>has_received_initial_sync := True\<rparr>, [])"

section \<open>Flushing and clearing\<close>

definition flush_pending_global ::
  "'w ManagerCallbacks \<Rightarrow> double \<Rightarrow> NetworkVariableManager \<times> 'w \<Rightarrow> bool \<times> NetworkVariableManager \<times> 'w" where
  "flush_pending_global cb now = (\<lambda>(m, w).
     let (ok, s, w) = flush_values (global_payload m) cb now (global_out m, w) in (ok, m\<lparr>global_out := s\<rparr>, w))"

definition flush_pending_client ::
  "'w ManagerCallbacks \<Rightarrow> double \<Rightarrow> NetworkVariableManager \<times> 'w \<Rightarrow> bool \<times> NetworkVariableManager \<times> 'w" where
  "flush_pending_client cb now = (\<lambda>(m, w).
     let (ok, s, w) = flush_values (client_payload m) cb now (client_out m, w) in (ok, m\<lparr>client_out := s\<rparr>, w))"

definition variables_tick ::
  "'w ManagerCallbacks \<Rightarrow> double \<Rightarrow> NetworkVariableManager \<times> 'w \<Rightarrow> bool \<times> NetworkVariableManager \<times> 'w" where
  "variables_tick cb now s =
     (let (global_ok, s) = flush_pending_global cb now s;
          (client_ok, s) = flush_pending_client cb now s
      in (global_ok \<and> client_ok, s))"

definition clear_pending_sends :: "NetworkVariableManager \<Rightarrow> NetworkVariableManager" where
  "clear_pending_sends m = m\<lparr>global_out := Outgoing_empty, client_out := Outgoing_empty\<rparr>"

definition variables_clear_all :: "NetworkVariableManager \<Rightarrow> NetworkVariableManager" where
  "variables_clear_all m =
     reset_initial_sync ((clear_pending_sends m)\<lparr>globals := om_empty, client_variables := om_empty\<rparr>)"

section \<open>The debounced sender keeps the last value set\<close>

text \<open>A value is intended when it waits with a deadline, or is the last one sent and nothing else waits.\<close>

definition intends :: "'k :: linorder Outgoing \<Rightarrow> 'k \<Rightarrow> string \<Rightarrow> bool" where
  "intends s key val \<longleftrightarrow> om_find (pending_value s) key = Some val \<and> om_find (due s) key \<noteq> None \<or>
     om_find (last_sent s) key = Some val \<and> om_find (pending_value s) key = None"

lemma settle_simps [simp]:
  "last_sent (settle key s) = last_sent s" "next_allowed (settle key s) = next_allowed s"
  "om_find (pending_value (settle key s)) key' = (if key' = key then None else om_find (pending_value s) key')"
  "om_find (due (settle key s)) key' = (if key' = key then None else om_find (due s) key')"
  by (simp_all add: settle_def)

lemma try_send_value_frame:
  assumes "try_send_value encode cb key val (s, w) = (ok, s', w')"
  shows "pending_value s' = pending_value s" "due s' = due s" "next_allowed s' = next_allowed s"
    "last_sent s' = (if ok then om_insert key val (last_sent s) else last_sent s)"
  using assms by (auto simp: try_send_value_def Let_def split: option.splits prod.splits if_splits)

lemma set_immediate_intends:
  assumes "set_immediate encode cb now key val (s, w) = (s', w')"
  shows "intends s' key val" "key' \<noteq> key \<Longrightarrow> intends s' key' u = intends s key' u"
proof -
  obtain ok s1 w1 where t: "try_send_value encode cb key val (s, w) = (ok, s1, w1)" by (metis prod_cases3)
  note f = try_send_value_frame [OF t]
  show "intends s' key val" using assms t f by (auto simp: set_immediate_def intends_def Let_def split: if_splits)
  show "key' \<noteq> key \<Longrightarrow> intends s' key' u = intends s key' u"
    using assms t f by (auto simp: set_immediate_def intends_def Let_def split: if_splits)
qed

lemma set_value_intends:
  assumes "set_value encode cb now key val (s, w) = (s', w')"
  shows "intends s' key val" "key' \<noteq> key \<Longrightarrow> intends s' key' u = intends s key' u"
proof -
  consider "om_find (last_sent s) key = Some val" "s' = settle key s"
    | "set_immediate encode cb now key val (s, w) = (s', w')"
    | allowed where "s' = s\<lparr>pending_value := om_insert key val (pending_value s),
        due := (if om_find (due s) key = None then om_insert key allowed (due s) else due s)\<rparr>"
    using assms by (auto simp: set_value_def split: if_splits option.splits)
  then have "intends s' key val \<and> (key' \<noteq> key \<longrightarrow> intends s' key' u = intends s key' u)"
    by cases (auto simp: set_immediate_intends, auto simp: intends_def)
  then show "intends s' key val" "key' \<noteq> key \<Longrightarrow> intends s' key' u = intends s key' u" by simp_all
qed

text \<open>One entry of the flush loop.\<close>

definition flush_entry ::
  "('k :: linorder \<Rightarrow> string \<Rightarrow> bytes) \<Rightarrow> 'w ManagerCallbacks \<Rightarrow> double \<Rightarrow> 'k \<times> string \<Rightarrow> 'k Outgoing \<times> 'w \<Rightarrow> bool \<times> 'k Outgoing \<times> 'w" where
  "flush_entry encode cb now = (\<lambda>(key, val) (s, w).
     if om_find (last_sent s) key = Some val then (True, settle key s, w)
     else case try_send_value encode cb key val (s, w) of
         (True, s, w) \<Rightarrow> (True, (settle key s)\<lparr>next_allowed := om_insert key (fadd now kDebounceInterval) (next_allowed s)\<rparr>, w)
       | (False, s, w) \<Rightarrow> (False, s, w))"

lemma flush_entries_Cons:
  "flush_entries encode cb now (e # entries) b (s, w) =
     (case flush_entry encode cb now e (s, w) of (ok, s, w) \<Rightarrow> flush_entries encode cb now entries (b \<and> ok) (s, w))"
  by (cases e) (auto simp: flush_entry_def split: prod.splits bool.splits)

lemma flush_entry_spec:
  assumes "flush_entry encode cb now (key, val) (s, w) = (ok, s', w')"
  shows "key' \<noteq> key \<Longrightarrow> om_find (last_sent s') key' = om_find (last_sent s) key'"
    "key' \<noteq> key \<Longrightarrow> om_find (pending_value s') key' = om_find (pending_value s) key'"
    "key' \<noteq> key \<Longrightarrow> om_find (due s') key' = om_find (due s) key'"
    "ok \<Longrightarrow> om_find (last_sent s') key = Some val \<and> om_find (pending_value s') key = None"
    "\<not> ok \<Longrightarrow> last_sent s' = last_sent s \<and> pending_value s' = pending_value s \<and> due s' = due s"
proof -
  obtain k s1 w1 where t: "try_send_value encode cb key val (s, w) = (k, s1, w1)" by (metis prod_cases3)
  note f = try_send_value_frame [OF t]
  show "key' \<noteq> key \<Longrightarrow> om_find (last_sent s') key' = om_find (last_sent s) key'"
    "key' \<noteq> key \<Longrightarrow> om_find (pending_value s') key' = om_find (pending_value s) key'"
    "key' \<noteq> key \<Longrightarrow> om_find (due s') key' = om_find (due s) key'"
    "ok \<Longrightarrow> om_find (last_sent s') key = Some val \<and> om_find (pending_value s') key = None"
    "\<not> ok \<Longrightarrow> last_sent s' = last_sent s \<and> pending_value s' = pending_value s \<and> due s' = due s"
    using assms f by (auto simp: flush_entry_def t split: if_splits bool.splits)
qed

lemma flush_entries_spec:
  assumes "flush_entries encode cb now entries b (s, w) = (b', s', w')" "distinct (map fst entries)"
  shows "(b' \<longrightarrow> b) \<and> (key \<notin> fst ` set entries \<longrightarrow> om_find (last_sent s') key = om_find (last_sent s) key \<and>
      om_find (pending_value s') key = om_find (pending_value s) key \<and> om_find (due s') key = om_find (due s) key) \<and>
    ((key, val) \<in> set entries \<longrightarrow>
      om_find (last_sent s') key = Some val \<and> om_find (pending_value s') key = None \<or>
      \<not> b' \<and> om_find (last_sent s') key = om_find (last_sent s) key \<and>
      om_find (pending_value s') key = om_find (pending_value s) key \<and> om_find (due s') key = om_find (due s) key)"
  using assms
proof (induction entries arbitrary: b s w)
  case Nil
  then show ?case by simp
next
  case (Cons e entries)
  obtain k u where e: "e = (k, u)" by (cases e)
  obtain ok s1 w1 where t: "flush_entry encode cb now (k, u) (s, w) = (ok, s1, w1)" by (metis prod_cases3)
  note f = flush_entry_spec [OF t]
  have ih: "flush_entries encode cb now entries (b \<and> ok) (s1, w1) = (b', s', w')"
    using Cons.prems(1) t by (simp add: e flush_entries_Cons del: flush_entries.simps)
  have d: "k \<notin> fst ` set entries" "distinct (map fst entries)" using Cons.prems(2) by (auto simp: e)
  note i = Cons.IH [OF ih d(2)]
  show ?case
  proof (cases "key = k")
    case True
    then show ?thesis using i f(4,5) d(1) by (cases ok) (auto simp: e image_iff)
  next
    case False
    then show ?thesis using i f(1-3) [OF False] by (auto simp: e)
  qed
qed

lemma map_filter_keys:
  "distinct (map fst xs) \<Longrightarrow> (\<And>x y. x \<in> set xs \<Longrightarrow> f x = Some y \<Longrightarrow> fst y = fst x) \<Longrightarrow> distinct (map fst (List.map_filter f xs))"
proof (induction xs)
  case (Cons x xs)
  have "fst ` set (List.map_filter f xs) \<subseteq> fst ` set xs"
    using Cons.prems(2) by (force simp: List.map_filter_def image_iff)
  then have "fst x \<notin> fst ` set (List.map_filter f xs)" using Cons.prems(1) by auto
  moreover have "f x = Some y \<Longrightarrow> fst y = fst x" for y using Cons.prems(2) by simp
  moreover have "distinct (map fst (List.map_filter f xs))" using Cons by simp
  ultimately show ?case by (cases "f x") (simp_all add: List.map_filter_simps)
qed (simp add: List.map_filter_simps)

lemma to_flush_distinct: "distinct (map fst (to_flush now s))"
  unfolding to_flush_def
  by (rule map_filter_keys) (auto simp: ascending_distinct split: prod.splits if_splits option.splits)

lemma to_flush_iff:
  "(key, val) \<in> set (to_flush now s) \<longleftrightarrow>
     om_find (pending_value s) key = Some val \<and> (\<exists>d. om_find (due s) key = Some d \<and> \<not> flt now d)"
  by (force simp: to_flush_def List.map_filter_def om_entries_iff split: prod.splits if_splits option.splits)

lemma flush_values_intends:
  assumes "flush_values encode cb now (s, w) = (b, s', w')" "intends s key val"
  shows "intends s' key val \<and> (b \<longrightarrow> (\<forall>d. om_find (due s) key = Some d \<longrightarrow> \<not> flt now d) \<longrightarrow> om_find (last_sent s') key = Some val)"
proof -
  have f: "flush_entries encode cb now (to_flush now s) True (s, w) = (b, s', w')"
    using assms(1) by (simp add: flush_values_def)
  note sp = flush_entries_spec [OF f to_flush_distinct, of key val]
  show ?thesis
  proof (cases "(key, val) \<in> set (to_flush now s)")
    case True
    then show ?thesis using sp assms(2) by (auto simp: intends_def)
  next
    case False
    have "key \<notin> fst ` set (to_flush now s)"
    proof
      assume "key \<in> fst ` set (to_flush now s)"
      then obtain u where "(key, u) \<in> set (to_flush now s)" by auto
      then show False using False assms(2) by (auto simp: to_flush_iff intends_def)
    qed
    then show ?thesis using sp assms(2) False by (auto simp: intends_def to_flush_iff)
  qed
qed

section \<open>What is put on the lane\<close>

context control_lane
begin

text \<open>From one state to the next, the values in \<open>h\<close> were put on the lane in their order, and the last
  value of a key in \<open>h\<close> is its last value sent.\<close>

definition sends :: "('k :: linorder \<Rightarrow> string \<Rightarrow> bytes) \<Rightarrow> ('k \<times> string) list \<Rightarrow> 'k Outgoing \<times> 'w \<Rightarrow> 'k Outgoing \<times> 'w \<Rightarrow> bool" where
  "sends encode h = (\<lambda>(s, w) (s', w'). lane w' = lane w @ map (\<lambda>(k, v). encode k v) h \<and>
     (\<forall>k. om_find (last_sent s') k = (case map_of (rev h) k of None \<Rightarrow> om_find (last_sent s) k | Some v \<Rightarrow> Some v)))"

lemma sends_same: "lane w' = lane w \<Longrightarrow> last_sent s' = last_sent s \<Longrightarrow> sends encode [] (s, w) (s', w')"
  by (simp add: sends_def)

lemma sends_trans: "sends encode h a b \<Longrightarrow> sends encode h' b c \<Longrightarrow> sends encode (h @ h') a c"
  by (auto simp: sends_def map_add_def split: prod.splits option.splits)

lemma try_send_value_sends:
  assumes "try_send_value encode cb key val (s, w) = (ok, s', w')"
  shows "sends encode (if ok then [(key, val)] else []) (s, w) (s', w')"
  using assms by (auto simp: try_send_value_def sends_def Let_def sender split: option.splits prod.splits if_splits)

lemma set_immediate_sends:
  assumes "set_immediate encode cb now key val (s, w) = (s', w')"
  shows "\<exists>h. sends encode h (s, w) (s', w')"
proof -
  obtain ok s1 w1 where t: "try_send_value encode cb key val (s, w) = (ok, s1, w1)" by (metis prod_cases3)
  then have "sends encode [] (s1, w1) (s', w')" using assms by (intro sends_same) (auto simp: set_immediate_def Let_def)
  with try_send_value_sends [OF t] show ?thesis by (blast intro: sends_trans)
qed

lemma set_value_sends:
  assumes "set_value encode cb now key val (s, w) = (s', w')"
  shows "\<exists>h. sends encode h (s, w) (s', w')"
proof -
  have "w' = w \<and> last_sent s' = last_sent s \<or> set_immediate encode cb now key val (s, w) = (s', w')"
    using assms by (auto simp: set_value_def split: if_splits option.splits)
  then show ?thesis using set_immediate_sends sends_same by metis
qed

lemma flush_entry_sends:
  assumes "flush_entry encode cb now e (s, w) = (ok, s', w')"
  shows "\<exists>h. sends encode h (s, w) (s', w')"
proof -
  obtain k u where e: "e = (k, u)" by (cases e)
  obtain sent s1 w1 where t: "try_send_value encode cb k u (s, w) = (sent, s1, w1)" by (metis prod_cases3)
  show ?thesis
  proof (cases "om_find (last_sent s) k = Some u")
    case True
    then have "sends encode [] (s, w) (s', w')" using assms by (intro sends_same) (auto simp: e flush_entry_def)
    then show ?thesis by blast
  next
    case False
    then have "sends encode [] (s1, w1) (s', w')"
      using assms by (intro sends_same) (auto simp: e t flush_entry_def split: bool.splits)
    with try_send_value_sends [OF t] show ?thesis by (blast intro: sends_trans)
  qed
qed

lemma flush_entries_sends:
  "flush_entries encode cb now entries b (s, w) = (b', s', w') \<Longrightarrow> \<exists>h. sends encode h (s, w) (s', w')"
proof (induction entries arbitrary: b s w)
  case Nil
  then have "sends encode [] (s, w) (s', w')" by (intro sends_same) auto
  then show ?case by blast
next
  case (Cons e entries)
  obtain ok s1 w1 where t: "flush_entry encode cb now e (s, w) = (ok, s1, w1)" by (metis prod_cases3)
  have "flush_entries encode cb now entries (b \<and> ok) (s1, w1) = (b', s', w')"
    using Cons.prems t by (simp add: flush_entries_Cons del: flush_entries.simps)
  from Cons.IH [OF this] flush_entry_sends [OF t] show ?case by (blast intro: sends_trans)
qed

lemma flush_values_sends: "flush_values encode cb now (s, w) = (b, s', w') \<Longrightarrow> \<exists>h. sends encode h (s, w) (s', w')"
  by (simp add: flush_values_def flush_entries_sends)

end

section \<open>Sequences of calls\<close>

datatype variable_op =
  SetGlobal double string string | SetClient double int string string | Tick double

text \<open>The specification of the variables a client writes: the value of each is the one set last. The
  state also keeps what it has been told, for names and for pairs of a client and a name.\<close>

type_synonym intents = "(string \<rightharpoonup> string) \<times> (ClientKey \<rightharpoonup> string)"

fun variable_step ::
  "variable_op \<Rightarrow> (NetworkVariableManager \<times> Wires) \<times> intents \<Rightarrow> (NetworkVariableManager \<times> Wires) \<times> intents" where
  "variable_step (SetGlobal now name val) (s, g, c) =
     (case set_global client_callbacks now name val s of (ok, s) \<Rightarrow> (s, if ok then g(name \<mapsto> val) else g, c))"
| "variable_step (SetClient now client name val) (s, g, c) =
     (case set_client client_callbacks now client name val s of (ok, s) \<Rightarrow> (s, g, if ok then c((client, name) \<mapsto> val) else c))"
| "variable_step (Tick now) (s, g, c) = (snd (variables_tick client_callbacks now s), g, c)"

definition keeps_intents :: "NetworkVariableManager \<Rightarrow> intents \<Rightarrow> bool" where
  "keeps_intents m = (\<lambda>(g, c). (\<forall>k v. g k = Some v \<longrightarrow> intends (global_out m) k v) \<and>
     (\<forall>k v. c k = Some v \<longrightarrow> intends (client_out m) k v))"

text \<open>The messages of a sequence of global and client values.\<close>

definition variable_payload :: "NetworkVariableManager \<Rightarrow> (string + ClientKey) \<times> string \<Rightarrow> bytes" where
  "variable_payload m = (\<lambda>(key, val). case key of Inl name \<Rightarrow> global_payload m name val | Inr k \<Rightarrow> client_payload m k val)"

definition variables_sent ::
  "((string + ClientKey) \<times> string) list \<Rightarrow> NetworkVariableManager \<times> Wires \<Rightarrow> NetworkVariableManager \<times> Wires \<Rightarrow> bool" where
  "variables_sent h = (\<lambda>(m, w) (m', w').
     nv_local_client_no m' = nv_local_client_no m \<and> nv_local_device_id m' = nv_local_device_id m \<and>
     outbox w' = outbox w @ map (variable_payload m) h \<and>
     (\<forall>k. om_find (last_sent (global_out m')) k =
        (case map_of (rev h) (Inl k) of None \<Rightarrow> om_find (last_sent (global_out m)) k | Some v \<Rightarrow> Some v)) \<and>
     (\<forall>k. om_find (last_sent (client_out m')) k =
        (case map_of (rev h) (Inr k) of None \<Rightarrow> om_find (last_sent (client_out m)) k | Some v \<Rightarrow> Some v)))"

lemma variable_payload_cong:
  "nv_local_client_no m' = nv_local_client_no m \<Longrightarrow> nv_local_device_id m' = nv_local_device_id m \<Longrightarrow>
     variable_payload m' = variable_payload m \<and> global_payload m' = global_payload m \<and> client_payload m' = client_payload m"
proof -
  assume a: "nv_local_client_no m' = nv_local_client_no m" "nv_local_device_id m' = nv_local_device_id m"
  then have "global_payload m' = global_payload m" "client_payload m' = client_payload m"
    by (auto simp: global_payload_def client_payload_def fun_eq_iff)
  then show ?thesis by (auto simp: variable_payload_def fun_eq_iff split: sum.split)
qed

lemma variables_sent_trans:
  assumes "variables_sent h a b" "variables_sent h' b c"
  shows "variables_sent (h @ h') a c"
proof -
  obtain ma wa mb wb mc wc where p: "a = (ma, wa)" "b = (mb, wb)" "c = (mc, wc)" by (metis prod.exhaust)
  then have "variable_payload mb = variable_payload ma"
    using assms(1) variable_payload_cong [of mb ma] by (simp add: variables_sent_def)
  then show ?thesis using assms by (auto simp: p variables_sent_def map_add_def split: option.splits)
qed

lemma map_of_rev_Inl: "map_of (rev (map (\<lambda>(k, v). (Inl k, v)) h)) (Inl k) = map_of (rev h) k"
  "map_of (rev (map (\<lambda>(k, v). (Inl k, v)) h)) (Inr j) = None"
  by (induction h) (auto simp: map_add_def split: option.splits)

lemma map_of_rev_Inr: "map_of (rev (map (\<lambda>(k, v). (Inr k, v)) h)) (Inr k) = map_of (rev h) k"
  "map_of (rev (map (\<lambda>(k, v). (Inr k, v)) h)) (Inl j) = None"
  by (induction h) (auto simp: map_add_def split: option.splits)

lemma sends_global:
  assumes "client_lane.sends (global_payload m) h (global_out m, w) (s, w')"
  shows "variables_sent (map (\<lambda>(k, v). (Inl k, v)) h) (m, w) (m\<lparr>global_out := s\<rparr>, w')"
  using assms
  by (auto simp: variables_sent_def client_lane.sends_def map_of_rev_Inl variable_payload_def split: option.splits)

lemma sends_client:
  assumes "client_lane.sends (client_payload m) h (client_out m, w) (s, w')"
  shows "variables_sent (map (\<lambda>(k, v). (Inr k, v)) h) (m, w) (m\<lparr>client_out := s\<rparr>, w')"
  using assms
  by (auto simp: variables_sent_def client_lane.sends_def map_of_rev_Inr variable_payload_def split: option.splits)

lemma variables_sent_same:
  "outbox w' = outbox w \<Longrightarrow> nv_local_client_no m' = nv_local_client_no m \<Longrightarrow> nv_local_device_id m' = nv_local_device_id m \<Longrightarrow>
     last_sent (global_out m') = last_sent (global_out m) \<Longrightarrow> last_sent (client_out m') = last_sent (client_out m) \<Longrightarrow>
     variables_sent [] (m, w) (m', w')"
  by (simp add: variables_sent_def)

lemma set_global_step:
  assumes "set_global client_callbacks now name val (m, w) = (ok, m', w')"
  shows "\<exists>h. variables_sent h (m, w) (m', w')"
    and "keeps_intents m (g, c) \<Longrightarrow> keeps_intents m' (if ok then g(name \<mapsto> val) else g, c)"
proof -
  obtain s w1 where v: "set_value (global_payload m) client_callbacks now name val (global_out m, w) = (s, w1)" by fastforce
  consider "\<not> ok" "m' = m" "outbox w' = outbox w" | ok "m' = m\<lparr>global_out := s\<rparr>" "w' = w1"
    using assms v by (auto simp: set_global_def Let_def split: if_splits)
  then have "(\<exists>h. variables_sent h (m, w) (m', w')) \<and>
      (keeps_intents m (g, c) \<longrightarrow> keeps_intents m' (if ok then g(name \<mapsto> val) else g, c))"
  proof cases
    case 1
    then show ?thesis using variables_sent_same [of w' w m m] by auto
  next
    case 2
    then show ?thesis using client_lane.set_value_sends [OF v] sends_global set_value_intends [OF v]
      by (auto simp: keeps_intents_def) metis+
  qed
  then show "\<exists>h. variables_sent h (m, w) (m', w')"
    "keeps_intents m (g, c) \<Longrightarrow> keeps_intents m' (if ok then g(name \<mapsto> val) else g, c)" by simp_all
qed

lemma set_client_step:
  assumes "set_client client_callbacks now client name val (m, w) = (ok, m', w')"
  shows "\<exists>h. variables_sent h (m, w) (m', w')"
    and "keeps_intents m (g, c) \<Longrightarrow> keeps_intents m' (g, if ok then c((client, name) \<mapsto> val) else c)"
proof -
  let ?m = "m\<lparr>client_variables := om_insert client (variables_of m client) (client_variables m)\<rparr>"
  obtain s w1 where v: "set_value (client_payload ?m) client_callbacks now (client, name) val (client_out ?m, w) = (s, w1)" by fastforce
  have same: "variables_sent [] (m, w) (?m, w)" by (rule variables_sent_same) simp_all
  consider "\<not> ok" "m' = m \<or> m' = ?m" "outbox w' = outbox w" | ok "m' = ?m\<lparr>client_out := s\<rparr>" "w' = w1"
    using assms v by (auto simp: set_client_def Let_def split: if_splits)
  then have "(\<exists>h. variables_sent h (m, w) (m', w')) \<and>
      (keeps_intents m (g, c) \<longrightarrow> keeps_intents m' (g, if ok then c((client, name) \<mapsto> val) else c))"
  proof cases
    case 1
    then have "variables_sent [] (m, w) (m', w')" by (intro variables_sent_same) auto
    then show ?thesis using 1 by (auto simp: keeps_intents_def)
  next
    case 2
    obtain h where "client_lane.sends (client_payload ?m) h (client_out ?m, w) (s, w1)"
      using client_lane.set_value_sends [OF v] by blast
    from variables_sent_trans [OF same sends_client [OF this]] 2 have "\<exists>h. variables_sent h (m, w) (m', w')" by auto
    then show ?thesis using 2 set_value_intends [OF v] by (auto simp: keeps_intents_def)
  qed
  then show "\<exists>h. variables_sent h (m, w) (m', w')"
    "keeps_intents m (g, c) \<Longrightarrow> keeps_intents m' (g, if ok then c((client, name) \<mapsto> val) else c)" by simp_all
qed

lemma tick_step:
  assumes "variables_tick client_callbacks now (m, w) = (b, m', w')"
  shows "\<exists>h. variables_sent h (m, w) (m', w')"
    and "keeps_intents m (g, c) \<Longrightarrow> keeps_intents m' (g, c)"
    and "keeps_intents m (g, c) \<Longrightarrow> b \<Longrightarrow> g k = Some v \<Longrightarrow> (\<forall>d. om_find (due (global_out m)) k = Some d \<longrightarrow> \<not> flt now d) \<Longrightarrow>
      om_find (last_sent (global_out m')) k = Some v"
    and "keeps_intents m (g, c) \<Longrightarrow> b \<Longrightarrow> c j = Some v \<Longrightarrow> (\<forall>d. om_find (due (client_out m)) j = Some d \<longrightarrow> \<not> flt now d) \<Longrightarrow>
      om_find (last_sent (client_out m')) j = Some v"
proof -
  obtain b1 s1 w1 where f1: "flush_values (global_payload m) client_callbacks now (global_out m, w) = (b1, s1, w1)"
    by (metis prod_cases3)
  let ?m = "m\<lparr>global_out := s1\<rparr>"
  obtain b2 s2 w2 where f2: "flush_values (client_payload ?m) client_callbacks now (client_out ?m, w1) = (b2, s2, w2)"
    by (metis prod_cases3)
  have r: "b = (b1 \<and> b2)" "m' = ?m\<lparr>client_out := s2\<rparr>" "w' = w2"
    using assms f1 f2 by (auto simp: variables_tick_def flush_pending_global_def flush_pending_client_def Let_def)
  obtain h1 h2 where "client_lane.sends (global_payload m) h1 (global_out m, w) (s1, w1)"
    "client_lane.sends (client_payload ?m) h2 (client_out ?m, w1) (s2, w2)"
    using client_lane.flush_values_sends [OF f1] client_lane.flush_values_sends [OF f2] by blast
  from variables_sent_trans [OF sends_global [OF this(1)] sends_client [OF this(2)]] r
  show "\<exists>h. variables_sent h (m, w) (m', w')" by auto
  show "keeps_intents m (g, c) \<Longrightarrow> keeps_intents m' (g, c)"
    using flush_values_intends [OF f1] flush_values_intends [OF f2] r by (auto simp: keeps_intents_def)
  show "keeps_intents m (g, c) \<Longrightarrow> b \<Longrightarrow> g k = Some v \<Longrightarrow> (\<forall>d. om_find (due (global_out m)) k = Some d \<longrightarrow> \<not> flt now d) \<Longrightarrow>
      om_find (last_sent (global_out m')) k = Some v"
    using flush_values_intends [OF f1, of k v] r by (auto simp: keeps_intents_def)
  show "keeps_intents m (g, c) \<Longrightarrow> b \<Longrightarrow> c j = Some v \<Longrightarrow> (\<forall>d. om_find (due (client_out m)) j = Some d \<longrightarrow> \<not> flt now d) \<Longrightarrow>
      om_find (last_sent (client_out m')) j = Some v"
    using flush_values_intends [OF f2, of j v] r by (cases j) (auto simp: keeps_intents_def)
qed

lemma variable_run:
  "fold variable_step ops ((m, w), g, c) = ((m', w'), g', c') \<Longrightarrow> keeps_intents m (g, c) \<Longrightarrow>
     keeps_intents m' (g', c') \<and> (\<exists>h. variables_sent h (m, w) (m', w'))"
proof (induction ops arbitrary: m w g c)
  case Nil
  then have "variables_sent [] (m, w) (m', w')" by (intro variables_sent_same) auto
  then show ?case using Nil by auto
next
  case (Cons oper ops)
  obtain m1 w1 g1 c1 where st: "variable_step oper ((m, w), g, c) = ((m1, w1), g1, c1)" by (metis prod.exhaust)
  have "keeps_intents m1 (g1, c1) \<and> (\<exists>h. variables_sent h (m, w) (m1, w1))"
  proof (cases oper)
    case (SetGlobal now name val)
    then obtain ok where e: "set_global client_callbacks now name val (m, w) = (ok, m1, w1)" "g1 = (if ok then g(name \<mapsto> val) else g)" "c1 = c"
      using st by (auto split: prod.splits)
    show ?thesis using set_global_step(1) [OF e(1)] set_global_step(2) [OF e(1) Cons.prems(2)] e(2,3) by auto
  next
    case (SetClient now client name val)
    then obtain ok where e: "set_client client_callbacks now client name val (m, w) = (ok, m1, w1)" "g1 = g"
      "c1 = (if ok then c((client, name) \<mapsto> val) else c)"
      using st by (auto split: prod.splits)
    show ?thesis using set_client_step(1) [OF e(1)] set_client_step(2) [OF e(1) Cons.prems(2)] e(2,3) by auto
  next
    case (Tick now)
    then obtain ok where e: "variables_tick client_callbacks now (m, w) = (ok, m1, w1)" "g1 = g" "c1 = c"
      using st by (cases "variables_tick client_callbacks now (m, w)") auto
    show ?thesis using tick_step(1) [OF e(1)] tick_step(2) [OF e(1) Cons.prems(2)] e(2,3) by auto
  qed
  moreover have "fold variable_step ops ((m1, w1), g1, c1) = ((m', w'), g', c')" using Cons.prems(1) st by simp
  ultimately show ?case using Cons.IH by (meson variables_sent_trans)
qed

section \<open>Snapshots\<close>

lemma block_variables_find:
  "om_find (block_variables entries) name =
     map_of (rev (map (\<lambda>e. (nv_name e, nv_value e)) (filter (\<lambda>e. nv_name e \<noteq> []) entries))) name"
proof -
  have "om_find (fold (\<lambda>e next. if nv_name e = [] then next else om_insert (nv_name e) (nv_value e) next) entries t) name =
      (case map_of (rev (map (\<lambda>e. (nv_name e, nv_value e)) (filter (\<lambda>e. nv_name e \<noteq> []) entries))) name of
         None \<Rightarrow> om_find t name | Some v \<Rightarrow> Some v)" for t
    by (induction entries arbitrary: t) (auto simp: map_add_def split: option.splits)
  then show ?thesis by (simp add: block_variables_def split: option.splits)
qed

lemma sync_removed_changes:
  "snd (fold (sync_removed client_no next) entries (s, changes)) =
     changes @ map (removal client_no) (filter (\<lambda>(name, _). om_find next name = None) entries)"
proof (induction entries arbitrary: s changes)
  case (Cons e entries)
  then show ?case by (cases e) (auto simp: sync_removed_def)
qed simp

lemma sync_present_changes:
  "snd (fold (sync_present client_no old) entries (s, changes)) =
     changes @ map (\<lambda>(name, val). change client_no name (om_find old name) val) (filter (\<lambda>(name, val). om_find old name \<noteq> Some val) entries)"
proof (induction entries arbitrary: s changes)
  case (Cons e entries)
  then show ?case by (cases e) (auto simp: sync_present_def Let_def)
qed simp

text \<open>The changes from one table of variables to the next: the names gone, then the values new or different.\<close>

definition table_changes :: "int \<Rightarrow> (string, string) omap \<Rightarrow> (string, string) omap \<Rightarrow> VariableChange list" where
  "table_changes client_no old next =
     map (removal client_no) (filter (\<lambda>(name, _). om_find next name = None) (om_entries old)) @
     map (\<lambda>(name, val). change client_no name (om_find old name) val)
       (filter (\<lambda>(name, val). om_find old name \<noteq> Some val) (om_entries next))"

lemma sync_client_block_spec:
  "sync_client_block (client, entries) (m, changes) = (m', changes') \<Longrightarrow>
     changes' = changes @ table_changes (uint client) (variables_of m (uint client)) (block_variables entries) \<and>
     client_variables m' = om_insert (uint client) (block_variables entries) (client_variables m) \<and> globals m' = globals m"
proof -
  assume a: "sync_client_block (client, entries) (m, changes) = (m', changes')"
  obtain s1 ch1 where f1: "fold (sync_removed (uint client) (block_variables entries)) (om_entries (variables_of m (uint client)))
      (client_out m, changes) = (s1, ch1)" by fastforce
  obtain s2 ch2 where f2: "fold (sync_present (uint client) (variables_of m (uint client))) (om_entries (block_variables entries)) (s1, ch1) = (s2, ch2)"
    by fastforce
  have "ch1 = changes @ map (removal (uint client)) (filter (\<lambda>(name, _). om_find (block_variables entries) name = None) (om_entries (variables_of m (uint client))))"
    using sync_removed_changes [of "uint client" "block_variables entries" "om_entries (variables_of m (uint client))" "client_out m" changes] f1 by simp
  moreover have "ch2 = ch1 @ map (\<lambda>(name, val). change (uint client) name (om_find (variables_of m (uint client)) name) val)
      (filter (\<lambda>(name, val). om_find (variables_of m (uint client)) name \<noteq> Some val) (om_entries (block_variables entries)))"
    using sync_present_changes [of "uint client" "variables_of m (uint client)" "om_entries (block_variables entries)" s1 ch1] f2 by simp
  ultimately show ?thesis using a f1 f2 by (auto simp: sync_client_block_def Let_def table_changes_def)
qed

lemma handle_client_sync_run:
  "fold sync_client_block message (m, changes) = (m', changes') \<Longrightarrow> distinct (map fst message) \<Longrightarrow>
     changes' = changes @ concat (map (\<lambda>(client, entries).
       table_changes (uint client) (variables_of m (uint client)) (block_variables entries)) message) \<and>
     (\<forall>client_no. om_find (client_variables m') client_no =
       (case map_of (map (\<lambda>(client, entries). (uint client, block_variables entries)) message) client_no of
          None \<Rightarrow> om_find (client_variables m) client_no | Some vs \<Rightarrow> Some vs)) \<and> globals m' = globals m"
proof (induction message arbitrary: m changes)
  case (Cons b message)
  obtain client entries where b: "b = (client, entries)" by (cases b)
  obtain m1 ch1 where st: "sync_client_block (client, entries) (m, changes) = (m1, ch1)" by fastforce
  note sp = sync_client_block_spec [OF st]
  have "fold sync_client_block message (m1, ch1) = (m', changes')" using Cons.prems(1) st by (simp add: b)
  from Cons.IH [OF this] Cons.prems(2)
  have ih: "changes' = ch1 @ concat (map (\<lambda>(client, entries).
       table_changes (uint client) (variables_of m1 (uint client)) (block_variables entries)) message)"
    "\<forall>client_no. om_find (client_variables m') client_no =
       (case map_of (map (\<lambda>(client, entries). (uint client, block_variables entries)) message) client_no of
          None \<Rightarrow> om_find (client_variables m1) client_no | Some vs \<Rightarrow> Some vs)" "globals m' = globals m1"
    by simp_all
  have ne: "uint c \<noteq> uint client" if "(c, es) \<in> set message" for c es
    using that Cons.prems(2) by (auto simp: b word_uint_eq_iff [symmetric] image_iff)
  then have cong: "map (\<lambda>(client, entries). table_changes (uint client) (variables_of m1 (uint client)) (block_variables entries)) message =
      map (\<lambda>(client, entries). table_changes (uint client) (variables_of m (uint client)) (block_variables entries)) message"
    using sp by (auto simp: variables_of_def)
  have "map_of (map (\<lambda>(client, entries). (uint client, block_variables entries)) message) (uint client) = None"
    using ne by (force simp: map_of_eq_None_iff)
  then have "\<forall>client_no. om_find (client_variables m') client_no =
       (case map_of (map (\<lambda>(client, entries). (uint client, block_variables entries)) (b # message)) client_no of
          None \<Rightarrow> om_find (client_variables m) client_no | Some vs \<Rightarrow> Some vs)"
    using ih(2) sp by (auto simp: b split: option.splits)
  moreover have "changes' = changes @ concat (map (\<lambda>(client, entries).
       table_changes (uint client) (variables_of m (uint client)) (block_variables entries)) (b # message))"
    using ih(1) sp unfolding cong by (simp add: b)
  ultimately show ?case by (simp only: ih(3) sp simp_thms)
qed simp

lemma handle_global_sync_run:
  "fold sync_global_entry message (m, changes) = (m', changes') \<Longrightarrow>
     om_find (globals m') name =
       (case map_of (rev (map (\<lambda>e. (nv_name e, nv_value e)) (filter (\<lambda>e. nv_name e \<noteq> []) message))) name of
          None \<Rightarrow> om_find (globals m) name | Some v \<Rightarrow> Some v) \<and>
     client_variables m' = client_variables m"
proof (induction message arbitrary: m changes)
  case (Cons e message)
  obtain m1 ch1 where st: "sync_global_entry e (m, changes) = (m1, ch1)" by fastforce
  have "om_find (globals m1) n = (if nv_name e \<noteq> [] \<and> n = nv_name e then Some (nv_value e) else om_find (globals m) n)" for n
    using st by (auto simp: sync_global_entry_def Let_def split: if_splits)
  moreover have "client_variables m1 = client_variables m"
    using st by (auto simp: sync_global_entry_def Let_def split: if_splits)
  ultimately show ?case using Cons.IH [of m1 ch1] Cons.prems st by (auto simp: map_add_def split: option.splits)
qed simp

section \<open>Properties\<close>

text \<open>C34. Last value wins: whatever sequence of variable writes and ticks the application makes, once a tick
  at which every deadline has passed reports success, the messages put on the control lane are such
  that the last one for each variable carries the value that was set last.\<close>

theorem variables_last_value_wins:
  assumes "fold variable_step ops ((set_variable_identity client_no device_id NetworkVariableManager_init, w), Map.empty, Map.empty) =
      ((m, w1), g, c)"
    and "variables_tick client_callbacks now (m, w1) = (True, m', w')"
    and "\<forall>name d. om_find (due (global_out m)) name = Some d \<longrightarrow> \<not> flt now d"
    and "\<forall>key d. om_find (due (client_out m)) key = Some d \<longrightarrow> \<not> flt now d"
  shows "\<exists>h. outbox w' = outbox w @ map (variable_payload m) h \<and>
    (\<forall>name val. g name = Some val \<longrightarrow> map_of (rev h) (Inl name) = Some val) \<and>
    (\<forall>key val. c key = Some val \<longrightarrow> map_of (rev h) (Inr key) = Some val)"
proof -
  let ?m = "set_variable_identity client_no device_id NetworkVariableManager_init"
  have k0: "keeps_intents ?m (Map.empty, Map.empty)" by (simp add: keeps_intents_def)
  obtain h1 where k: "keeps_intents m (g, c)" and h1: "variables_sent h1 (?m, w) (m, w1)"
    using variable_run [OF assms(1) k0] by blast
  obtain h2 where h2: "variables_sent h2 (m, w1) (m', w')" using tick_step(1) [OF assms(2)] by blast
  obtain h where all: "variables_sent h (?m, w) (m', w')" using variables_sent_trans [OF h1 h2] by blast
  have "variable_payload m = variable_payload ?m"
    using h1 variable_payload_cong [of m ?m] by (simp add: variables_sent_def)
  then have out: "outbox w' = outbox w @ map (variable_payload m) h" using all by (simp add: variables_sent_def)
  have "om_find (last_sent (global_out ?m)) name = None" "om_find (last_sent (client_out ?m)) key = None" for name key
    by (simp_all add: set_variable_identity_def NetworkVariableManager_init_def Outgoing_empty_def)
  moreover have "om_find (last_sent (global_out m')) name =
      (case map_of (rev h) (Inl name) of None \<Rightarrow> om_find (last_sent (global_out ?m)) name | Some v \<Rightarrow> Some v)"
    "om_find (last_sent (client_out m')) key =
      (case map_of (rev h) (Inr key) of None \<Rightarrow> om_find (last_sent (client_out ?m)) key | Some v \<Rightarrow> Some v)" for name key
    using all by (simp_all only: variables_sent_def prod.case)
  ultimately have "om_find (last_sent (global_out m')) name = map_of (rev h) (Inl name)"
    "om_find (last_sent (client_out m')) key = map_of (rev h) (Inr key)" for name key
    by (simp_all split: option.split)
  then show ?thesis
    using out tick_step(3) [OF assms(2) k] tick_step(4) [OF assms(2) k] assms(3,4) by (intro exI [of _ h]) auto
qed

theorem variables_last_value_wins_witness:
  "let w = \<lparr>transport = running_transport, notifications = []\<rparr>;
       s0 = set_variable_identity 3 ''d'' NetworkVariableManager_init;
       ((m, w1), g, c) = fold variable_step [SetGlobal (dlit 1) ''x'' ''1''] ((s0, w), Map.empty, Map.empty);
       (b, m', w') = variables_tick client_callbacks (dlit 2) (m, w1)
   in \<exists>h. outbox w' = outbox w @ map (variable_payload m) h \<and> map_of (rev h) (Inl ''x'') = Some ''1''"
proof -
  let ?w = "\<lparr>transport = running_transport, notifications = []\<rparr>"
  let ?s = "set_variable_identity 3 ''d'' NetworkVariableManager_init"
  have late: "\<not> flt (dlit 2) (fadd (dlit 1) kDebounceInterval)" by code_simp
  have valid: "validate_name ''x''" "validate_value ''1''" by code_simp+
  have ok: "enqueue_control data ?w \<noteq> (False, x)" for data x
    by (simp add: enqueue_control_def try_enqueue_control_def running_usable running_outbox Let_def monotonic_seconds_def kControlOutboxMax_def)
  obtain m w1 g c where r: "fold variable_step [SetGlobal (dlit 1) ''x'' ''1''] ((?s, ?w), Map.empty, Map.empty) = ((m, w1), g, c)"
    by (metis prod.exhaust)
  have m: "om_entries (due (global_out m)) = [(''x'', fadd (dlit 1) kDebounceInterval)]" "om_entries (due (client_out m)) = []"
    "om_find (pending_value (global_out m)) ''x'' = Some ''1''" "om_find (last_sent (global_out m)) ''x'' = Some ''1''" "g ''x'' = Some ''1''"
    using r valid ok
    by (auto simp: set_global_def set_value_def set_immediate_def try_send_value_def client_callbacks_def kMaxGlobalVars_def
        set_variable_identity_def NetworkVariableManager_init_def Outgoing_empty_def Let_def om_insert.rep_eq split: prod.splits if_splits)
  obtain b m' w' where t: "variables_tick client_callbacks (dlit 2) (m, w1) = (b, m', w')" by (metis prod_cases3)
  have "b" using t m late
    by (auto simp: variables_tick_def flush_pending_global_def flush_pending_client_def flush_values_def to_flush_def map_filter_simps
        Let_def split: prod.splits)
  with t have t': "variables_tick client_callbacks (dlit 2) (m, w1) = (True, m', w')" by simp
  have d: "\<forall>name d. om_find (due (global_out m)) name = Some d \<longrightarrow> \<not> flt (dlit 2) d"
    "\<forall>key d. om_find (due (client_out m)) key = Some d \<longrightarrow> \<not> flt (dlit 2) d"
    using m(1,2) late by (auto simp: om_find_def split: if_splits)
  show ?thesis using variables_last_value_wins [OF r t' d] m(5) unfolding Let_def r prod.case t by blast
qed

text \<open>C35. Snapshots are authoritative: after a client variable snapshot each client of it has exactly the
  variables of its block (the last entry of a name wins), the other clients keep theirs, and the
  changes reported are, client by client, the variables gone, then those new or different; after a
  global snapshot each name of it has its last value and the other names keep theirs.\<close>

theorem snapshots_are_authoritative:
  assumes "distinct (map fst message)" "handle_client_sync message m = (m', changes)"
    and "handle_global_sync global_message m = (m'', global_changes)"
  shows "(\<forall>client_no. om_find (client_variables m') client_no =
       (case map_of (map (\<lambda>(client, entries). (uint client, block_variables entries)) message) client_no of
          None \<Rightarrow> om_find (client_variables m) client_no | Some vs \<Rightarrow> Some vs)) \<and>
    changes = concat (map (\<lambda>(client, entries).
       table_changes (uint client) (variables_of m (uint client)) (block_variables entries)) message) \<and>
    (\<forall>entries name. om_find (block_variables entries) name =
       map_of (rev (map (\<lambda>e. (nv_name e, nv_value e)) (filter (\<lambda>e. nv_name e \<noteq> []) entries))) name) \<and>
    (\<forall>name. get_global m'' name =
       (case map_of (rev (map (\<lambda>e. (nv_name e, nv_value e)) (filter (\<lambda>e. nv_name e \<noteq> []) global_message))) name of
          None \<Rightarrow> get_global m name | Some v \<Rightarrow> Some v))"
proof -
  have v: "variables_of (m\<lparr>has_received_initial_sync := True\<rparr>) = variables_of m"
    by (simp add: variables_of_def fun_eq_iff)
  have g: "get_global m'' name =
       (case map_of (rev (map (\<lambda>e. (nv_name e, nv_value e)) (filter (\<lambda>e. nv_name e \<noteq> []) global_message))) name of
          None \<Rightarrow> get_global m name | Some v \<Rightarrow> Some v)" for name
    using handle_global_sync_run [OF assms(3) [unfolded handle_global_sync_def], of name]
    by (auto simp: get_global_def split: option.splits)
  have c: "client_variables (m\<lparr>has_received_initial_sync := True\<rparr>) = client_variables m" by simp
  show ?thesis
    using handle_client_sync_run [OF assms(2) [unfolded handle_client_sync_def] assms(1)] block_variables_find g
    unfolding v c by simp
qed

theorem snapshots_are_authoritative_witness:
  "let e = \<lparr>nv_name = ''x'', nv_value = ''1'', nv_last_writer_client_no = 2\<rparr>;
       m = fst (handle_client_sync [(2, [e])] NetworkVariableManager_init)
   in om_find (client_variables m) 2 = Some (block_variables [e]) \<and> om_find (block_variables [e]) ''x'' = Some ''1''"
proof -
  let ?e = "\<lparr>nv_name = ''x'', nv_value = ''1'', nv_last_writer_client_no = 2\<rparr>"
  obtain m ch where a: "handle_client_sync [(2, [?e])] NetworkVariableManager_init = (m, ch)" by fastforce
  obtain m2 ch2 where b: "handle_global_sync [] NetworkVariableManager_init = (m2, ch2)" by fastforce
  show ?thesis using snapshots_are_authoritative [OF _ a b] a by simp
qed

end
