(* ===== verification/Object_Sync.thy ===== *)
theory Object_Sync
  imports Control_Lane
begin

text \<open>
  \<open>src/core/object_sync_manager.*\<close>: the synchronised objects. Poses of owned objects are published at
  most at the send rate, only on change or as a heartbeat, each with the next sequence number of the
  object; ownership follows the server's messages.
\<close>

section \<open>State\<close>

record ObjectState =
  os_object_id :: u32
  os_owner_client_no :: int
  os_pose_seq :: u16
  os_pose_time :: double
  os_broadcast_time :: double
  os_pose :: PoseTransform
  os_has_pose :: bool

definition ObjectState_default :: ObjectState where
  "ObjectState_default = \<lparr>os_object_id = 0, os_owner_client_no = 0, os_pose_seq = 0, os_pose_time = dlit 0,
     os_broadcast_time = dlit 0, os_pose = PoseTransform_default, os_has_pose = False\<rparr>"

record OwnershipChange =
  ow_object_id :: u32
  ow_new_owner_client_no :: int
  ow_previous_owner_client_no :: int

record OwnershipRejection =
  oe_object_id :: u32
  oe_current_owner_client_no :: int
  oe_reason_code :: int

record Entry =
  en_state :: ObjectState
  en_has_local_pose :: bool
  en_local_pose :: PoseTransform
  en_last_send_time :: double
  en_send_pose_seq :: u16
  en_has_last_sent_pose :: bool
  en_last_sent_pose :: PoseTransform

definition Entry_default :: Entry where
  "Entry_default = \<lparr>en_state = ObjectState_default, en_has_local_pose = False, en_local_pose = PoseTransform_default,
     en_last_send_time = dlit (- 1000000000), en_send_pose_seq = 0, en_has_last_sent_pose = False,
     en_last_sent_pose = PoseTransform_default\<rparr>"

record ObjectSyncManager =
  ob_local_client_no :: int
  ob_local_device_id :: string
  objects :: "(u32, Entry) omap"

definition ObjectSyncManager_init :: ObjectSyncManager where
  "ObjectSyncManager_init = \<lparr>ob_local_client_no = 0, ob_local_device_id = [], objects = om_empty\<rparr>"

text \<open>The callbacks of a manager and the hand-off to the pose lane.\<close>

record 'w ObjectCallbacks =
  manager_callbacks :: "'w ManagerCallbacks"
  object_transform_sender :: "(u32 \<Rightarrow> bytes \<Rightarrow> 'w \<Rightarrow> 'w) option"

definition kHeartbeatIntervalSeconds :: double where "kHeartbeatIntervalSeconds = dlit 1"

section \<open>Operations\<close>

definition vec3_eq :: "Vec3 \<Rightarrow> Vec3 \<Rightarrow> bool" where
  "vec3_eq a b \<longleftrightarrow> feq (x_of a) (x_of b) \<and> feq (y_of a) (y_of b) \<and> feq (z_of a) (z_of b)"

definition poses_equal :: "PoseTransform \<Rightarrow> PoseTransform \<Rightarrow> bool" where
  "poses_equal a b \<longleftrightarrow> vec3_eq (pt_position a) (pt_position b) \<and>
     feq (qx (pt_rotation a)) (qx (pt_rotation b)) \<and> feq (qy (pt_rotation a)) (qy (pt_rotation b)) \<and>
     feq (qz (pt_rotation a)) (qz (pt_rotation b)) \<and> feq (qw (pt_rotation a)) (qw (pt_rotation b))"

definition set_object_identity :: "int \<Rightarrow> string \<Rightarrow> ObjectSyncManager \<Rightarrow> ObjectSyncManager" where
  "set_object_identity client_no device_id m = m\<lparr>ob_local_client_no := client_no, ob_local_device_id := device_id\<rparr>"

definition register_object ::
  "'w ObjectCallbacks \<Rightarrow> u32 \<Rightarrow> ObjectSyncManager \<times> 'w \<Rightarrow> bool \<times> ObjectSyncManager \<times> 'w" where
  "register_object cb object_id = (\<lambda>(m, w).
     if object_id = 0 then
       (False, m, log_message (manager_callbacks cb) ''NetSyncObject has no object id assigned; skipping registration'' w)
     else
       let entry = (case om_find (objects m) object_id of None \<Rightarrow> Entry_default | Some e \<Rightarrow> e);
           entry = entry\<lparr>en_state := (en_state entry)\<lparr>os_object_id := object_id\<rparr>\<rparr>
       in (True, m\<lparr>objects := om_insert object_id entry (objects m)\<rparr>, w))"

definition unregister_object :: "u32 \<Rightarrow> ObjectSyncManager \<Rightarrow> ObjectSyncManager" where
  "unregister_object object_id m = m\<lparr>objects := om_erase object_id (objects m)\<rparr>"

definition is_registered :: "ObjectSyncManager \<Rightarrow> u32 \<Rightarrow> bool" where
  "is_registered m object_id \<longleftrightarrow> om_find (objects m) object_id \<noteq> None"

definition registered_object_ids :: "ObjectSyncManager \<Rightarrow> u32 list" where
  "registered_object_ids m = om_keys (objects m)"

definition submit_local_pose :: "u32 \<Rightarrow> PoseTransform \<Rightarrow> ObjectSyncManager \<Rightarrow> ObjectSyncManager" where
  "submit_local_pose object_id pose m =
     (case om_find (objects m) object_id of
        None \<Rightarrow> m
      | Some e \<Rightarrow> m\<lparr>objects := om_insert object_id (e\<lparr>en_local_pose := pose, en_has_local_pose := True\<rparr>) (objects m)\<rparr>)"

text \<open>The four tests of \<open>tick\<close>, the update of a published entry and its message.\<close>

definition object_due :: "int \<Rightarrow> double \<Rightarrow> double \<Rightarrow> Entry \<Rightarrow> bool" where
  "object_due client_no now send_interval entry \<longleftrightarrow>
     os_owner_client_no (en_state entry) = client_no \<and> en_has_local_pose entry \<and>
     \<not> flt (fsub now (en_last_send_time entry)) send_interval \<and>
     \<not> (en_has_last_sent_pose entry \<and> poses_equal (en_local_pose entry) (en_last_sent_pose entry) \<and>
        flt (fsub now (en_last_send_time entry)) kHeartbeatIntervalSeconds)"

definition mark_published :: "double \<Rightarrow> Entry \<Rightarrow> Entry" where
  "mark_published now entry = entry\<lparr>en_send_pose_seq := en_send_pose_seq entry + 1, en_last_send_time := now,
     en_last_sent_pose := en_local_pose entry, en_has_last_sent_pose := True\<rparr>"

definition pose_message :: "string \<Rightarrow> u32 \<Rightarrow> u16 \<Rightarrow> PoseTransform \<Rightarrow> ObjectPoseMessage" where
  "pose_message device_id object_id seq pose = \<lparr>op_device_id = device_id, op_object_id = object_id,
     op_pose_seq = seq, op_position = pt_position pose, op_rotation = pt_rotation pose\<rparr>"

definition tick_object ::
  "(u32 \<Rightarrow> bytes \<Rightarrow> 'w \<Rightarrow> 'w) \<Rightarrow> double \<Rightarrow> double \<Rightarrow> u32 \<times> Entry \<Rightarrow> ObjectSyncManager \<times> 'w \<Rightarrow> ObjectSyncManager \<times> 'w" where
  "tick_object send now send_interval = (\<lambda>(object_id, entry) (m, w).
     if \<not> object_due (ob_local_client_no m) now send_interval entry then (m, w)
     else
       let entry = mark_published now entry
       in (m\<lparr>objects := om_insert object_id entry (objects m)\<rparr>,
           send object_id (serialize_object_pose
             (pose_message (ob_local_device_id m) object_id (en_send_pose_seq entry) (en_local_pose entry))) w))"

definition send_interval_of :: "double \<Rightarrow> double" where
  "send_interval_of rate = fdiv (dlit 1) (std_max (dlit (1 / 2)) rate)"

definition objects_tick :: "'w ObjectCallbacks \<Rightarrow> double \<Rightarrow> double \<Rightarrow> ObjectSyncManager \<times> 'w \<Rightarrow> ObjectSyncManager \<times> 'w" where
  "objects_tick cb now rate = (\<lambda>(m, w).
     case object_transform_sender cb of
       None \<Rightarrow> (m, w)
     | Some send \<Rightarrow>
         if ob_local_client_no m = 0 then (m, w)
         else fold (tick_object send now (send_interval_of rate)) (om_entries (objects m)) (m, w))"

definition send_ownership_request ::
  "'w ObjectCallbacks \<Rightarrow> u32 \<Rightarrow> u8 \<Rightarrow> ObjectSyncManager \<times> 'w \<Rightarrow> bool \<times> 'w" where
  "send_ownership_request cb object_id operation_type = (\<lambda>(m, w).
     if object_id = 0 then (False, w)
     else case control_sender (manager_callbacks cb) of
         None \<Rightarrow> (False, w)
       | Some send \<Rightarrow> send (serialize_object_ownership_request \<lparr>or_device_id = ob_local_device_id m,
           or_operation_type = operation_type, or_object_id = object_id\<rparr>) w)"

definition request_ownership :: "'w ObjectCallbacks \<Rightarrow> u32 \<Rightarrow> ObjectSyncManager \<times> 'w \<Rightarrow> bool \<times> 'w" where
  "request_ownership cb object_id = send_ownership_request cb object_id OWNERSHIP_OP_REQUEST"

definition release_ownership :: "'w ObjectCallbacks \<Rightarrow> u32 \<Rightarrow> ObjectSyncManager \<times> 'w \<Rightarrow> bool \<times> 'w" where
  "release_ownership cb object_id = send_ownership_request cb object_id OWNERSHIP_OP_RELEASE"

text \<open>The pose a broadcast gives to an object that is not owned by this client.\<close>

definition take_broadcast :: "double \<Rightarrow> RoomObjectState \<Rightarrow> ObjectState \<Rightarrow> ObjectState" where
  "take_broadcast broadcast_time state s = s\<lparr>os_pose_seq := ro_pose_seq state, os_pose_time := ro_pose_time state,
     os_broadcast_time := broadcast_time,
     os_pose := \<lparr>pt_position = ro_position state, pt_rotation = ro_rotation state\<rparr>, os_has_pose := True\<rparr>"

definition room_object ::
  "double \<Rightarrow> RoomObjectState \<Rightarrow> ObjectSyncManager \<times> OwnershipChange list \<Rightarrow> ObjectSyncManager \<times> OwnershipChange list" where
  "room_object broadcast_time state = (\<lambda>(m, changes).
     case om_find (objects m) (ro_object_id state) of
       None \<Rightarrow> (m, changes)
     | Some entry \<Rightarrow>
         let previous_owner = os_owner_client_no (en_state entry);
             new_owner = uint (ro_owner_client_no state);
             s = (en_state entry)\<lparr>os_owner_client_no := new_owner\<rparr>;
             changes = (if previous_owner \<noteq> new_owner
               then changes @ [\<lparr>ow_object_id = ro_object_id state, ow_new_owner_client_no = new_owner,
                 ow_previous_owner_client_no = previous_owner\<rparr>] else changes);
             s = (if new_owner \<noteq> ob_local_client_no m \<or> ob_local_client_no m = 0
               then take_broadcast broadcast_time state s else s)
         in (m\<lparr>objects := om_insert (ro_object_id state) (entry\<lparr>en_state := s\<rparr>) (objects m)\<rparr>, changes))"

definition handle_room_objects ::
  "RoomObjectsMessage \<Rightarrow> ObjectSyncManager \<Rightarrow> ObjectSyncManager \<times> OwnershipChange list" where
  "handle_room_objects message m = fold (room_object (rom_broadcast_time message)) (rom_objects message) (m, [])"

definition handle_ownership_changed ::
  "ObjectOwnershipChangedMessage \<Rightarrow> ObjectSyncManager \<Rightarrow> ObjectSyncManager \<times> OwnershipChange" where
  "handle_ownership_changed message m =
     (let new_owner = uint (oc_new_owner_client_no message);
          change = \<lparr>ow_object_id = oc_object_id message, ow_new_owner_client_no = new_owner,
            ow_previous_owner_client_no = uint (oc_previous_owner_client_no message)\<rparr>
      in case om_find (objects m) (oc_object_id message) of
          None \<Rightarrow> (m, change)
        | Some entry \<Rightarrow>
            let entry = entry\<lparr>en_state := (en_state entry)\<lparr>os_owner_client_no := new_owner\<rparr>\<rparr>;
                entry = (if new_owner = ob_local_client_no m \<and> ob_local_client_no m \<noteq> 0
                  then entry\<lparr>en_has_last_sent_pose := False, en_last_send_time := dlit (- 1000000000)\<rparr> else entry)
            in (m\<lparr>objects := om_insert (oc_object_id message) entry (objects m)\<rparr>, change))"

definition handle_ownership_rejected :: "ObjectOwnershipRejectedMessage \<Rightarrow> OwnershipRejection" where
  "handle_ownership_rejected message = \<lparr>oe_object_id = oj_object_id message,
     oe_current_owner_client_no = uint (oj_current_owner_client_no message), oe_reason_code = uint (oj_reason_code message)\<rparr>"

definition get_state :: "ObjectSyncManager \<Rightarrow> u32 \<Rightarrow> ObjectState option" where
  "get_state m object_id = map_option en_state (om_find (objects m) object_id)"

definition owner_of :: "ObjectSyncManager \<Rightarrow> u32 \<Rightarrow> int" where
  "owner_of m object_id = (case om_find (objects m) object_id of None \<Rightarrow> 0 | Some e \<Rightarrow> os_owner_client_no (en_state e))"

definition is_owned_by_local :: "ObjectSyncManager \<Rightarrow> u32 \<Rightarrow> bool" where
  "is_owned_by_local m object_id \<longleftrightarrow> (let owner = owner_of m object_id in owner \<noteq> 0 \<and> owner = ob_local_client_no m)"

definition clear_entry :: "Entry \<Rightarrow> Entry" where
  "clear_entry e = e\<lparr>en_state := (en_state e)\<lparr>os_owner_client_no := 0, os_has_pose := False, os_pose_seq := 0,
       os_pose_time := dlit 0, os_broadcast_time := dlit 0\<rparr>,
     en_has_last_sent_pose := False, en_last_send_time := dlit (- 1000000000), en_send_pose_seq := 0\<rparr>"

definition clear_room_scoped_state :: "ObjectSyncManager \<Rightarrow> ObjectSyncManager" where
  "clear_room_scoped_state m = m\<lparr>objects := om_map (\<lambda>_. clear_entry) (objects m)\<rparr>"

section \<open>One tick\<close>

definition published_message :: "ObjectSyncManager \<Rightarrow> u32 \<times> Entry \<Rightarrow> u32 \<times> bytes" where
  "published_message m = (\<lambda>(i, e). (i, serialize_object_pose
     (pose_message (ob_local_device_id m) i (en_send_pose_seq e + 1) (en_local_pose e))))"

lemma mark_published_simps [simp]:
  "en_send_pose_seq (mark_published now e) = en_send_pose_seq e + 1" "en_last_send_time (mark_published now e) = now"
  "en_last_sent_pose (mark_published now e) = en_local_pose e" "en_has_last_sent_pose (mark_published now e)"
  "en_local_pose (mark_published now e) = en_local_pose e" "en_has_local_pose (mark_published now e) = en_has_local_pose e"
  "en_state (mark_published now e) = en_state e"
  by (simp_all add: mark_published_def)

text \<open>A tick over a list of entries with distinct keys, through a sender that records.\<close>

lemma tick_objects_run:
  assumes "fold (tick_object (\<lambda>i p w. w @ [(i, p)]) now ival) entries (m, w) = (m', w')" "distinct (map fst entries)"
  shows "w' = w @ map (published_message m) (filter (\<lambda>(i, e). object_due (ob_local_client_no m) now ival e) entries) \<and>
    ob_local_client_no m' = ob_local_client_no m \<and> ob_local_device_id m' = ob_local_device_id m \<and>
    (\<forall>i. om_find (objects m') i = (case map_of entries i of
        None \<Rightarrow> om_find (objects m) i
      | Some e \<Rightarrow> if object_due (ob_local_client_no m) now ival e then Some (mark_published now e) else om_find (objects m) i))"
  using assms
proof (induction entries arbitrary: m w)
  case (Cons x entries)
  obtain i e where x: "x = (i, e)" by (cases x)
  obtain m1 w1 where st: "tick_object (\<lambda>i p w. w @ [(i, p)]) now ival (i, e) (m, w) = (m1, w1)" by fastforce
  from st have m1: "ob_local_client_no m1 = ob_local_client_no m" "ob_local_device_id m1 = ob_local_device_id m"
    "w1 = w @ (if object_due (ob_local_client_no m) now ival e then [published_message m (i, e)] else [])"
    "om_find (objects m1) j = (if j = i \<and> object_due (ob_local_client_no m) now ival e then Some (mark_published now e) else om_find (objects m) j)" for j
    by (auto simp: tick_object_def published_message_def Let_def split: if_splits)
  have "fold (tick_object (\<lambda>i p w. w @ [(i, p)]) now ival) entries (m1, w1) = (m', w')"
    using Cons.prems(1) st by (simp add: x)
  moreover have "(i, y) \<notin> set entries" for y using Cons.prems(2) by (force simp: x)
  ultimately show ?case using Cons.IH [of m1 w1] Cons.prems(2) m1
    by (auto simp: x published_message_def split: option.splits)
qed simp

text \<open>Sequences of submissions and ticks, at one send rate, the publications recorded.\<close>

datatype object_op = Submit u32 PoseTransform | ObjectTick double

definition recording :: "(u32 \<times> bytes) list ObjectCallbacks" where
  "recording = \<lparr>manager_callbacks = \<lparr>control_sender = None, log_callback = None\<rparr>,
     object_transform_sender = Some (\<lambda>i p w. w @ [(i, p)])\<rparr>"

fun object_step :: "double \<Rightarrow> object_op \<Rightarrow> ObjectSyncManager \<times> (u32 \<times> bytes) list \<Rightarrow> ObjectSyncManager \<times> (u32 \<times> bytes) list" where
  "object_step rate (Submit i pose) (m, w) = (submit_local_pose i pose m, w)"
| "object_step rate (ObjectTick now) (m, w) = objects_tick recording now rate (m, w)"

text \<open>The specification of the publications of one owned object: the times and poses of a list that
  keeps the send interval, and the heartbeat interval between equal poses, after the last one sent.\<close>

fun paced :: "double \<Rightarrow> double \<Rightarrow> PoseTransform option \<Rightarrow> (double \<times> PoseTransform) list \<Rightarrow> bool" where
  "paced ival last_time last_pose [] \<longleftrightarrow> True"
| "paced ival last_time last_pose ((now, pose) # pubs) \<longleftrightarrow> \<not> flt (fsub now last_time) ival \<and>
     (case last_pose of None \<Rightarrow> True
      | Some p \<Rightarrow> poses_equal pose p \<longrightarrow> \<not> flt (fsub now last_time) kHeartbeatIntervalSeconds) \<and>
     paced ival now (Some pose) pubs"

definition last_pose_of :: "Entry \<Rightarrow> PoseTransform option" where
  "last_pose_of e = (if en_has_last_sent_pose e then Some (en_last_sent_pose e) else None)"

definition messages_of :: "u32 \<Rightarrow> (u32 \<times> bytes) list \<Rightarrow> bytes list" where
  "messages_of i w = map snd (filter (\<lambda>x. fst x = i) w)"

fun numbered :: "string \<Rightarrow> u32 \<Rightarrow> u16 \<Rightarrow> (double \<times> PoseTransform) list \<Rightarrow> bytes list" where
  "numbered dev i seq [] = []"
| "numbered dev i seq ((now, pose) # pubs) = serialize_object_pose (pose_message dev i (seq + 1) pose) # numbered dev i (seq + 1) pubs"

lemma objects_tick_run:
  assumes "objects_tick recording now rate (m, w) = (m', w')" "ob_local_client_no m \<noteq> 0"
    and "om_find (objects m) i = Some e"
  shows "ob_local_client_no m' = ob_local_client_no m" "ob_local_device_id m' = ob_local_device_id m"
    "om_find (objects m') i = Some (if object_due (ob_local_client_no m) now (send_interval_of rate) e then mark_published now e else e)"
    "messages_of i w' = messages_of i w @ (if object_due (ob_local_client_no m) now (send_interval_of rate) e
       then numbered (ob_local_device_id m) i (en_send_pose_seq e) [(now, en_local_pose e)] else [])"
proof -
  let ?due = "object_due (ob_local_client_no m) now (send_interval_of rate)"
  have "fold (tick_object (\<lambda>i p w. w @ [(i, p)]) now (send_interval_of rate)) (om_entries (objects m)) (m, w) = (m', w')"
    using assms(1,2) by (simp add: objects_tick_def recording_def)
  note r = tick_objects_run [OF this ascending_distinct [OF ascending_entries]]
  show "ob_local_client_no m' = ob_local_client_no m" "ob_local_device_id m' = ob_local_device_id m"
    "om_find (objects m') i = Some (if ?due e then mark_published now e else e)"
    using r assms(3) by (auto simp: om_find_def split: option.splits)
  have "filter (\<lambda>x. fst x = i) es = (case map_of es i of None \<Rightarrow> [] | Some e \<Rightarrow> [(i, e)])" if "distinct (map fst es)" for es :: "(u32 \<times> Entry) list"
    using that by (induction es) (auto simp: filter_empty_conv rev_image_eqI split: option.splits)
  from this [OF ascending_distinct [OF ascending_entries]] assms(3)
  have f: "filter (\<lambda>x. fst x = i) (om_entries (objects m)) = [(i, e)]" by (simp add: om_find_def)
  have "messages_of i (map (published_message m) (filter (\<lambda>(i, e). ?due e) es)) =
      map (snd \<circ> published_message m) (filter (\<lambda>(i, e). ?due e) (filter (\<lambda>x. fst x = i) es))" for es
    by (induction es) (auto simp: messages_of_def published_message_def)
  from this [of "om_entries (objects m)"]
  have "messages_of i (map (published_message m) (filter (\<lambda>(i, e). ?due e) (om_entries (objects m)))) =
      (if ?due e then numbered (ob_local_device_id m) i (en_send_pose_seq e) [(now, en_local_pose e)] else [])"
    unfolding f by (simp add: published_message_def)
  moreover have "messages_of i (a @ b) = messages_of i a @ messages_of i b" for a b by (simp add: messages_of_def)
  ultimately show "messages_of i w' = messages_of i w @ (if ?due e then numbered (ob_local_device_id m) i (en_send_pose_seq e) [(now, en_local_pose e)] else [])"
    using r by simp
qed

lemma object_run_paced:
  assumes "fold (object_step rate) ops (m, w) = (m', w')" "ob_local_client_no m \<noteq> 0"
    and "om_find (objects m) i = Some e" "os_owner_client_no (en_state e) = ob_local_client_no m"
  shows "\<exists>pubs. messages_of i w' = messages_of i w @ numbered (ob_local_device_id m) i (en_send_pose_seq e) pubs \<and>
    paced (send_interval_of rate) (en_last_send_time e) (last_pose_of e) pubs \<and>
    (\<forall>(now, pose) \<in> set pubs. ObjectTick now \<in> set ops \<and> (Submit i pose \<in> set ops \<or> en_has_local_pose e \<and> pose = en_local_pose e))"
  using assms
proof (induction ops arbitrary: m w e)
  case Nil
  then show ?case by (intro exI [of _ "[]"]) simp
next
  case (Cons oper ops)
  obtain m1 w1 where st: "object_step rate oper (m, w) = (m1, w1)" by fastforce
  have run: "fold (object_step rate) ops (m1, w1) = (m', w')" using Cons.prems(1) st by simp
  show ?case
  proof (cases oper)
    case (Submit j pose)
    then have w: "w1 = w" and m1: "m1 = submit_local_pose j pose m" using st by auto
    let ?e = "if j = i then e\<lparr>en_local_pose := pose, en_has_local_pose := True\<rparr> else e"
    have f: "ob_local_client_no m1 = ob_local_client_no m" "ob_local_device_id m1 = ob_local_device_id m"
      "om_find (objects m1) i = Some ?e"
      using Cons.prems(3) by (auto simp: m1 submit_local_pose_def split: option.splits)
    have "os_owner_client_no (en_state ?e) = ob_local_client_no m1" using Cons.prems(4) f(1) by simp
    from Cons.IH [OF run _ f(3) this] Cons.prems(2) f(1,2) show ?thesis
      by (auto simp: w Submit last_pose_of_def split: if_splits)
  next
    case (ObjectTick now)
    then have t: "objects_tick recording now rate (m, w) = (m1, w1)" using st by simp
    note f = objects_tick_run [OF t Cons.prems(2,3)]
    show ?thesis
    proof (cases "object_due (ob_local_client_no m) now (send_interval_of rate) e")
      case True
      from Cons.IH [OF run, of "mark_published now e"] f Cons.prems(2,4) True
      obtain pubs where p: "messages_of i w' = messages_of i w1 @ numbered (ob_local_device_id m) i (en_send_pose_seq e + 1) pubs"
        "paced (send_interval_of rate) now (Some (en_local_pose e)) pubs"
        "\<forall>(now, pose) \<in> set pubs. ObjectTick now \<in> set ops \<and> (Submit i pose \<in> set ops \<or> en_has_local_pose e \<and> pose = en_local_pose e)"
        by (auto simp: last_pose_of_def)
      then show ?thesis using True f(4)
        by (intro exI [of _ "(now, en_local_pose e) # pubs"])
          (auto simp: object_due_def last_pose_of_def ObjectTick split: option.splits if_splits)
    next
      case False
      from Cons.IH [OF run, of e] f Cons.prems(2,4) False show ?thesis by (auto simp: ObjectTick)
    qed
  qed
qed

lemma object_run_silent:
  assumes "fold (object_step rate) ops (m, w) = (m', w')" "om_find (objects m) i = Some e"
    and "\<not> (ob_local_client_no m \<noteq> 0 \<and> os_owner_client_no (en_state e) = ob_local_client_no m)"
  shows "messages_of i w' = messages_of i w"
  using assms
proof (induction ops arbitrary: m w e)
  case (Cons oper ops)
  obtain m1 w1 where st: "object_step rate oper (m, w) = (m1, w1)" by fastforce
  have "ob_local_client_no m1 = ob_local_client_no m \<and> messages_of i w1 = messages_of i w \<and>
      (\<exists>e'. om_find (objects m1) i = Some e' \<and> en_state e' = en_state e)"
  proof (cases oper)
    case (Submit j pose)
    then show ?thesis using st Cons.prems(2) by (auto simp: submit_local_pose_def split: option.splits)
  next
    case (ObjectTick now)
    then have t: "objects_tick recording now rate (m, w) = (m1, w1)" using st by simp
    show ?thesis
    proof (cases "ob_local_client_no m = 0")
      case True
      then show ?thesis using t Cons.prems(2) by (simp add: objects_tick_def recording_def)
    next
      case False
      then show ?thesis using objects_tick_run [OF t _ Cons.prems(2)] Cons.prems(3) by (simp add: object_due_def)
    qed
  qed
  then show ?case using Cons.IH [of m1 w1] Cons.prems st by auto
qed simp

section \<open>Properties\<close>



end
