(* ===== verification/Device_Mapping.thy ===== *)
theory Device_Mapping
  imports Protocol_V8 Ordered_Map
begin

text \<open>
  \<open>src/core/device_mapping.*\<close>: the table of client numbers and device ids, replaced by every
  mapping message, and the presence tracking over room pose snapshots. \<open>std::set<int>\<close> is a
  finite set, iterated in ascending order.
\<close>

section \<open>State and operations\<close>

record DeviceMapping =
  local_device_id :: string
  local_client_no :: int
  client_no_to_device_id :: "(int, string) omap"
  device_id_to_client_no :: "(string, int) omap"
  client_no_to_stealth :: "(int, bool) omap"
  pending_clients :: "int set"
  announced_clients :: "int set"

definition DeviceMapping_init :: DeviceMapping where
  "DeviceMapping_init = \<lparr>local_device_id = [], local_client_no = 0, client_no_to_device_id = om_empty,
     device_id_to_client_no = om_empty, client_no_to_stealth = om_empty, pending_clients = {},
     announced_clients = {}\<rparr>"

record ApplyResult =
  local_client_no_changed :: bool
  result_local_client_no :: int
  server_version_seen :: bool
  server_version_major :: int
  server_version_minor :: int
  server_version_patch :: int

definition set_local_device_id :: "string \<Rightarrow> DeviceMapping \<Rightarrow> DeviceMapping" where
  "set_local_device_id device_id s = s\<lparr>local_device_id := device_id\<rparr>"

definition set_local_client_no :: "int \<Rightarrow> DeviceMapping \<Rightarrow> DeviceMapping" where
  "set_local_client_no client_no s = s\<lparr>local_client_no := client_no\<rparr>"

text \<open>One iteration of the loop of \<open>apply\<close>; the flag is \<open>result.local_client_no_changed\<close>.\<close>

definition apply_entry :: "DeviceIdMappingEntry \<Rightarrow> DeviceMapping \<times> bool \<Rightarrow> DeviceMapping \<times> bool" where
  "apply_entry entry = (\<lambda>(s, changed).
     let client_no = uint (me_client_no entry);
         s = s\<lparr>client_no_to_device_id := om_insert client_no (me_device_id entry) (client_no_to_device_id s),
               device_id_to_client_no := om_insert (me_device_id entry) client_no (device_id_to_client_no s),
               client_no_to_stealth := om_insert client_no (me_is_stealth entry) (client_no_to_stealth s)\<rparr>
     in if local_device_id s \<noteq> [] \<and> me_device_id entry = local_device_id s \<and> local_client_no s \<noteq> client_no
        then (s\<lparr>local_client_no := client_no\<rparr>, True)
        else (s, changed))"

definition mapping_apply :: "DeviceIdMappingMessage \<Rightarrow> DeviceMapping \<Rightarrow> DeviceMapping \<times> ApplyResult" where
  "mapping_apply message s =
     (let s = s\<lparr>client_no_to_device_id := om_empty, device_id_to_client_no := om_empty,
                client_no_to_stealth := om_empty\<rparr>;
          (s, changed) = fold apply_entry (dm_mappings message) (s, False)
      in (s, \<lparr>local_client_no_changed = changed, result_local_client_no = local_client_no s,
              server_version_seen = True,
              server_version_major = uint (dm_server_version_major message),
              server_version_minor = uint (dm_server_version_minor message),
              server_version_patch = uint (dm_server_version_patch message)\<rparr>))"

definition device_id_for :: "DeviceMapping \<Rightarrow> int \<Rightarrow> string" where
  "device_id_for s client_no = (case om_find (client_no_to_device_id s) client_no of None \<Rightarrow> [] | Some d \<Rightarrow> d)"

definition client_no_for :: "DeviceMapping \<Rightarrow> string \<Rightarrow> int" where
  "client_no_for s device_id = (case om_find (device_id_to_client_no s) device_id of None \<Rightarrow> 0 | Some n \<Rightarrow> n)"

definition is_stealth_client :: "DeviceMapping \<Rightarrow> int \<Rightarrow> bool" where
  "is_stealth_client s client_no = (case om_find (client_no_to_stealth s) client_no of None \<Rightarrow> False | Some b \<Rightarrow> b)"

definition known_client_numbers :: "DeviceMapping \<Rightarrow> int list" where
  "known_client_numbers s = om_keys (client_no_to_device_id s)"

text \<open>One iteration of the first loop of \<open>update_presence\<close>; the list is \<open>connected\<close>.\<close>

definition announce :: "int \<Rightarrow> DeviceMapping \<times> int list \<Rightarrow> DeviceMapping \<times> int list" where
  "announce client_no = (\<lambda>(s, connected).
     if client_no \<in> announced_clients s then (s, connected)
     else if om_find (client_no_to_device_id s) client_no \<noteq> None then
       (s\<lparr>announced_clients := insert client_no (announced_clients s),
          pending_clients := pending_clients s - {client_no}\<rparr>, connected @ [client_no])
     else (s\<lparr>pending_clients := insert client_no (pending_clients s)\<rparr>, connected))"

definition update_presence :: "int list \<Rightarrow> DeviceMapping \<Rightarrow> DeviceMapping \<times> int list \<times> int list" where
  "update_presence alive s =
     (let alive_set = set alive;
          (s, connected) = fold announce (sorted_list_of_set alive_set) (s, []);
          s = s\<lparr>pending_clients := Set.filter (\<lambda>c. c \<in> alive_set) (pending_clients s)\<rparr>;
          disconnected = filter (\<lambda>c. c \<notin> alive_set) (sorted_list_of_set (announced_clients s));
          s = s\<lparr>announced_clients := Set.filter (\<lambda>c. c \<in> alive_set) (announced_clients s)\<rparr>
      in (s, connected, disconnected))"

definition mapping_clear :: "DeviceMapping \<Rightarrow> DeviceMapping" where
  "mapping_clear s = s\<lparr>client_no_to_device_id := om_empty, device_id_to_client_no := om_empty,
     client_no_to_stealth := om_empty, pending_clients := {}, announced_clients := {},
     local_client_no := 0\<rparr>"

section \<open>What applying a mapping does\<close>

text \<open>The last entry for a key wins, as with assignment through \<open>operator[]\<close>.\<close>

lemma fold_apply_entry:
  "fold apply_entry es (s, b) = (s', b') \<Longrightarrow>
     om_find (client_no_to_device_id s') k =
       (case map_of (rev (map (\<lambda>e. (uint (me_client_no e), me_device_id e)) es)) k of
          None \<Rightarrow> om_find (client_no_to_device_id s) k | Some d \<Rightarrow> Some d) \<and>
     om_find (device_id_to_client_no s') d =
       (case map_of (rev (map (\<lambda>e. (me_device_id e, uint (me_client_no e))) es)) d of
          None \<Rightarrow> om_find (device_id_to_client_no s) d | Some n \<Rightarrow> Some n) \<and>
     om_find (client_no_to_stealth s') k =
       (case map_of (rev (map (\<lambda>e. (uint (me_client_no e), me_is_stealth e)) es)) k of
          None \<Rightarrow> om_find (client_no_to_stealth s) k | Some f \<Rightarrow> Some f) \<and>
     local_device_id s' = local_device_id s \<and> pending_clients s' = pending_clients s \<and>
     announced_clients s' = announced_clients s \<and>
     local_client_no s' =
       (if local_device_id s = [] then local_client_no s
        else case map_of (rev (map (\<lambda>e. (me_device_id e, uint (me_client_no e))) es)) (local_device_id s) of
          None \<Rightarrow> local_client_no s | Some n \<Rightarrow> n) \<and>
     (local_client_no s' \<noteq> local_client_no s \<longrightarrow> b') \<and> (b \<longrightarrow> b')"
proof (induction es arbitrary: s b)
  case Nil
  then show ?case by simp
next
  case (Cons e es)
  obtain t c where t: "apply_entry e (s, b) = (t, c)" by fastforce
  then have f: "fold apply_entry es (t, c) = (s', b')" using Cons.prems by simp
  note ih = Cons.IH [OF f]
  from t have tab: "client_no_to_device_id t = om_insert (uint (me_client_no e)) (me_device_id e) (client_no_to_device_id s)"
    "device_id_to_client_no t = om_insert (me_device_id e) (uint (me_client_no e)) (device_id_to_client_no s)"
    "client_no_to_stealth t = om_insert (uint (me_client_no e)) (me_is_stealth e) (client_no_to_stealth s)"
    "local_device_id t = local_device_id s" "pending_clients t = pending_clients s"
    "announced_clients t = announced_clients s"
    "local_client_no t = (if local_device_id s \<noteq> [] \<and> me_device_id e = local_device_id s
       then uint (me_client_no e) else local_client_no s)"
    "c = (b \<or> local_client_no t \<noteq> local_client_no s)"
    by (auto simp: apply_entry_def Let_def split: if_splits)
  show ?case
    using ih unfolding tab
    by (auto simp: map_add_def split: option.splits if_splits)
qed

section \<open>What a snapshot does to presence\<close>

definition mapped :: "DeviceMapping \<Rightarrow> int set" where
  "mapped s = {c. om_find (client_no_to_device_id s) c \<noteq> None}"

definition presence_inv :: "DeviceMapping \<Rightarrow> bool" where
  "presence_inv s \<longleftrightarrow> finite (announced_clients s) \<and> finite (pending_clients s) \<and>
     announced_clients s \<inter> pending_clients s = {}"

lemma fold_announce:
  "distinct xs \<Longrightarrow> fold announce xs (s, acc) = (s', conn) \<Longrightarrow>
     announced_clients s' = announced_clients s \<union> (set xs \<inter> mapped s) \<and>
     pending_clients s' = pending_clients s - (set xs \<inter> mapped s - announced_clients s) \<union>
       (set xs - mapped s - announced_clients s) \<and>
     conn = acc @ filter (\<lambda>c. c \<in> mapped s - announced_clients s) xs \<and>
     mapped s' = mapped s \<and> local_client_no s' = local_client_no s \<and> local_device_id s' = local_device_id s"
proof (induction xs arbitrary: s acc)
  case Nil
  then show ?case by simp
next
  case (Cons x xs)
  obtain t c where t: "announce x (s, acc) = (t, c)" by fastforce
  then have f: "fold announce xs (t, c) = (s', conn)" using Cons.prems by simp
  have ih: "announced_clients s' = announced_clients t \<union> (set xs \<inter> mapped t)"
    "pending_clients s' = pending_clients t - (set xs \<inter> mapped t - announced_clients t) \<union>
       (set xs - mapped t - announced_clients t)"
    "conn = c @ filter (\<lambda>c. c \<in> mapped t - announced_clients t) xs"
    "mapped s' = mapped t" "local_client_no s' = local_client_no t" "local_device_id s' = local_device_id t"
    using Cons.IH [OF _ f] Cons.prems(1) by simp_all
  consider "x \<in> announced_clients s" | "x \<notin> announced_clients s" "x \<in> mapped s"
    | "x \<notin> announced_clients s" "x \<notin> mapped s" by blast
  then show ?case
  proof cases
    case 1
    then have "t = s" "c = acc" using t by (auto simp: announce_def)
    then show ?thesis using ih 1 by auto
  next
    case 2
    then have tc: "t = s\<lparr>announced_clients := insert x (announced_clients s), pending_clients := pending_clients s - {x}\<rparr>"
      "c = acc @ [x]" using t by (auto simp: announce_def mapped_def)
    then have "mapped t = mapped s" by (simp add: mapped_def)
    moreover have "filter (\<lambda>c. c \<in> mapped s - insert x (announced_clients s)) xs =
        filter (\<lambda>c. c \<in> mapped s - announced_clients s) xs"
      using Cons.prems(1) by (intro filter_cong) auto
    ultimately show ?thesis using ih 2 Cons.prems(1) tc by auto
  next
    case 3
    then have tc: "t = s\<lparr>pending_clients := insert x (pending_clients s)\<rparr>" "c = acc"
      using t by (auto simp: announce_def mapped_def)
    then have "mapped t = mapped s" by (simp add: mapped_def)
    then show ?thesis using ih 3 tc by auto
  qed
qed

lemma filter_sorted_list: "finite A \<Longrightarrow> filter P (sorted_list_of_set A) = sorted_list_of_set (Set.filter P A)"
  by (rule sorted_distinct_set_unique) (simp_all add: sorted_wrt_filter)

lemma update_presence_spec:
  assumes "presence_inv s" "update_presence alive s = (s', joined, left)"
  shows "announced_clients s' = set alive \<inter> (announced_clients s \<union> mapped s)"
    and "pending_clients s' = set alive - announced_clients s'"
    and "joined = sorted_list_of_set (announced_clients s' - announced_clients s)"
    and "left = sorted_list_of_set (announced_clients s - announced_clients s')"
    and "presence_inv s'" and "mapped s' = mapped s"
proof -
  let ?A = "set alive"
  obtain t c where t: "fold announce (sorted_list_of_set ?A) (s, []) = (t, c)" by fastforce
  from fold_announce [OF _ t]
  have f: "announced_clients t = announced_clients s \<union> (?A \<inter> mapped s)"
    "pending_clients t = pending_clients s - (?A \<inter> mapped s - announced_clients s) \<union> (?A - mapped s - announced_clients s)"
    "c = filter (\<lambda>c. c \<in> mapped s - announced_clients s) (sorted_list_of_set ?A)" "mapped t = mapped s"
    by simp_all
  have fin: "finite (announced_clients s)" "announced_clients s \<inter> pending_clients s = {}"
    using assms(1) by (simp_all add: presence_inv_def)
  have r: "s' = t\<lparr>pending_clients := Set.filter (\<lambda>c. c \<in> ?A) (pending_clients t),
      announced_clients := Set.filter (\<lambda>c. c \<in> ?A) (announced_clients t)\<rparr>"
    "joined = c" "left = filter (\<lambda>c. c \<notin> ?A) (sorted_list_of_set (announced_clients t))"
    using assms(2) by (auto simp: update_presence_def Let_def t)
  show a: "announced_clients s' = ?A \<inter> (announced_clients s \<union> mapped s)" using r(1) f(1) by auto
  show p: "pending_clients s' = ?A - announced_clients s'" using r(1) f(1,2) fin(2) by auto
  show "presence_inv s'" using a p by (auto simp: presence_inv_def)
  show "mapped s' = mapped s" using r(1) f(4) by (simp add: mapped_def)
  have "Set.filter (\<lambda>c. c \<in> mapped s - announced_clients s) ?A = announced_clients s' - announced_clients s"
    using a by auto
  then show "joined = sorted_list_of_set (announced_clients s' - announced_clients s)"
    using r(2) f(3) filter_sorted_list [of ?A "\<lambda>c. c \<in> mapped s - announced_clients s"] by simp
  have "finite (announced_clients t)" using f(1) fin(1) by simp
  moreover have "Set.filter (\<lambda>c. c \<notin> ?A) (announced_clients t) = announced_clients s - announced_clients s'"
    using a f(1) by auto
  ultimately show "left = sorted_list_of_set (announced_clients s - announced_clients s')"
    using r(3) filter_sorted_list [of "announced_clients t" "\<lambda>c. c \<notin> ?A"] by simp
qed

section \<open>Sequences of mapping messages and snapshots\<close>

datatype presence_step = Mapping DeviceIdMappingMessage | Snapshot "int list"

text \<open>An event is a client number with \<^const>\<open>True\<close> for connected and \<^const>\<open>False\<close> for disconnected.\<close>

fun presence_run :: "presence_step list \<Rightarrow> DeviceMapping \<Rightarrow> DeviceMapping \<times> (int \<times> bool) list" where
  "presence_run [] s = (s, [])"
| "presence_run (Mapping m # ops) s = presence_run ops (fst (mapping_apply m s))"
| "presence_run (Snapshot alive # ops) s =
     (case update_presence alive s of (s, joined, left) \<Rightarrow>
       (case presence_run ops s of (s, events) \<Rightarrow>
         (s, map (\<lambda>c. (c, True)) joined @ map (\<lambda>c. (c, False)) left @ events)))"

fun alternates :: "bool \<Rightarrow> bool list \<Rightarrow> bool" where
  "alternates present [] \<longleftrightarrow> True"
| "alternates present (e # es) \<longleftrightarrow> e \<noteq> present \<and> alternates e es"

definition events_of :: "int \<Rightarrow> (int \<times> bool) list \<Rightarrow> bool list" where
  "events_of c events = map snd (filter (\<lambda>e. fst e = c) events)"

lemma mapping_apply_presence:
  "presence_inv (fst (mapping_apply m s)) = presence_inv s"
  "announced_clients (fst (mapping_apply m s)) = announced_clients s"
proof -
  obtain t b where "fold apply_entry (dm_mappings m) (s\<lparr>client_no_to_device_id := om_empty,
      device_id_to_client_no := om_empty, client_no_to_stealth := om_empty\<rparr>, False) = (t, b)" by fastforce
  from fold_apply_entry [OF this] this
  show "presence_inv (fst (mapping_apply m s)) = presence_inv s"
    "announced_clients (fst (mapping_apply m s)) = announced_clients s"
    by (simp_all add: mapping_apply_def Let_def presence_inv_def)
qed

lemma filter_eq_sorted: "finite A \<Longrightarrow> filter (\<lambda>x. x = c) (sorted_list_of_set A) = (if c \<in> A then [c] else [])"
proof -
  assume f: "finite A"
  have "Set.filter (\<lambda>x. x = c) A = (if c \<in> A then {c} else {})" by auto
  then show ?thesis by (simp add: filter_sorted_list [OF f])
qed

lemma presence_run_alternates:
  "presence_inv s \<Longrightarrow> alternates (c \<in> announced_clients s) (events_of c (snd (presence_run ops s)))"
proof (induction ops s rule: presence_run.induct)
  case (1 s)
  then show ?case by (simp add: events_of_def)
next
  case (2 m ops s)
  then show ?case by (simp add: mapping_apply_presence)
next
  case (3 alive ops s)
  obtain s' conn disc where u: "update_presence alive s = (s', conn, disc)" by (rule prod_cases3)
  note sp = update_presence_spec [OF "3.prems" u]
  obtain s'' events where r: "presence_run ops s' = (s'', events)" by fastforce
  have ih: "alternates (c \<in> announced_clients s') (events_of c events)"
    using "3.IH" [OF u [symmetric] refl sp(5)] r by simp
  have fin: "finite (announced_clients s' - announced_clients s)" "finite (announced_clients s - announced_clients s')"
    using "3.prems" sp(5) by (simp_all add: presence_inv_def)
  have "events_of c (snd (presence_run (Snapshot alive # ops) s)) =
      (if c \<in> announced_clients s' - announced_clients s then [True] else []) @
      (if c \<in> announced_clients s - announced_clients s' then [False] else []) @ events_of c events"
    using filter_eq_sorted [OF fin(1), of c] filter_eq_sorted [OF fin(2), of c]
    by (simp add: u r events_of_def filter_map comp_def sp(3,4))
  then show ?case using ih by auto
qed

section \<open>Properties\<close>

text \<open>A mapping message replaces all three tables (the last entry for a number or an id wins), the
  local client number becomes the number of the last entry with the local device id, and a change of
  it is always reported.\<close>

lemma mapping_apply_replaces_tables:
  assumes "mapping_apply m s = (s', r)"
  shows "om_find (client_no_to_device_id s') k =
      map_of (rev (map (\<lambda>e. (uint (me_client_no e), me_device_id e)) (dm_mappings m))) k \<and>
    om_find (device_id_to_client_no s') d =
      map_of (rev (map (\<lambda>e. (me_device_id e, uint (me_client_no e))) (dm_mappings m))) d \<and>
    om_find (client_no_to_stealth s') k =
      map_of (rev (map (\<lambda>e. (uint (me_client_no e), me_is_stealth e)) (dm_mappings m))) k \<and>
    local_client_no s' =
      (if local_device_id s = [] then local_client_no s
       else case map_of (rev (map (\<lambda>e. (me_device_id e, uint (me_client_no e))) (dm_mappings m))) (local_device_id s) of
         None \<Rightarrow> local_client_no s | Some n \<Rightarrow> n) \<and>
    result_local_client_no r = local_client_no s' \<and>
    (local_client_no s' \<noteq> local_client_no s \<longrightarrow> local_client_no_changed r)"
proof -
  obtain t b where f: "fold apply_entry (dm_mappings m) (s\<lparr>client_no_to_device_id := om_empty,
      device_id_to_client_no := om_empty, client_no_to_stealth := om_empty\<rparr>, False) = (t, b)" by fastforce
  then have "s' = t" "result_local_client_no r = local_client_no t" "local_client_no_changed r = b"
    using assms by (auto simp: mapping_apply_def Let_def)
  then show ?thesis using fold_apply_entry [OF f, of k d] by (auto split: option.splits)
qed

lemma mapping_apply_replaces_tables_example:
  "let s = set_local_device_id ''me'' DeviceMapping_init;
       m = \<lparr>dm_server_version_major = 0, dm_server_version_minor = 1, dm_server_version_patch = 2,
            dm_mappings = [\<lparr>me_client_no = 3, me_device_id = ''me'', me_is_stealth = False\<rparr>]\<rparr>
   in local_client_no (fst (mapping_apply m s)) = 3 \<and> local_client_no_changed (snd (mapping_apply m s))"
proof -
  let ?s = "set_local_device_id ''me'' DeviceMapping_init"
  let ?m = "\<lparr>dm_server_version_major = 0, dm_server_version_minor = 1, dm_server_version_patch = 2,
            dm_mappings = [\<lparr>me_client_no = 3, me_device_id = ''me'', me_is_stealth = False\<rparr>]\<rparr>"
  have "mapping_apply ?m ?s = (fst (mapping_apply ?m ?s), snd (mapping_apply ?m ?s))" by simp
  from mapping_apply_replaces_tables [OF this] show ?thesis
    by (simp add: set_local_device_id_def DeviceMapping_init_def)
qed

text \<open>C23. A snapshot makes the announced clients exactly those present and known: alive in the snapshot
  and either announced before or with a device id; the rest of the alive clients are pending. The
  connected and disconnected lists are, in ascending order, exactly the differences between the
  announced clients after and before.\<close>

theorem update_presence_announces_differences:
  assumes "presence_inv s" "update_presence alive s = (s', joined, left)"
  shows "announced_clients s' = set alive \<inter> (announced_clients s \<union> mapped s) \<and>
    pending_clients s' = set alive - announced_clients s' \<and> presence_inv s' \<and>
    joined = sorted_list_of_set (announced_clients s' - announced_clients s) \<and>
    left = sorted_list_of_set (announced_clients s - announced_clients s')"
  using update_presence_spec [OF assms] by simp

theorem update_presence_announces_differences_witness:
  "let s = DeviceMapping_init\<lparr>client_no_to_device_id := om_insert 4 ''d'' om_empty, announced_clients := {9}\<rparr>
   in announced_clients (fst (update_presence [4, 5] s)) = {4}"
proof -
  let ?s = "DeviceMapping_init\<lparr>client_no_to_device_id := om_insert 4 ''d'' om_empty, announced_clients := {9}\<rparr>"
  have i: "presence_inv ?s" by (simp add: presence_inv_def DeviceMapping_init_def)
  obtain s' c d where u: "update_presence [4, 5] ?s = (s', c, d)" by (rule prod_cases3)
  show ?thesis using update_presence_announces_differences [OF i u] u by (auto simp: mapped_def split: if_splits)
qed

text \<open>C22. Over any sequence of mapping messages and snapshots, the presence events of each client
  alternate, beginning with connected: no client is announced twice without leaving in between and
  none is reported gone that was not announced.\<close>

theorem presence_events_alternate:
  "alternates False (events_of c (snd (presence_run steps DeviceMapping_init)))"
  using presence_run_alternates [of DeviceMapping_init c steps]
  by (simp add: presence_inv_def DeviceMapping_init_def)

end
