(* ===== verification/NetSync_Client.thy ===== *)
theory NetSync_Client
  imports Rpc_Manager Network_Variables Object_Sync Device_Mapping
begin

text \<open>
  \<open>src/core/netsync_client.*\<close>: the client that owns the transport, the discovery and the managers.
  The network and the discovery thread only enqueue; decoding, state changes and events happen in
  \<open>poll\<close>. The transport and the notification queue are the \<open>Wires\<close> of \<open>Control_Lane\<close>, which the
  managers' callbacks act on.
\<close>

section \<open>Data\<close>

datatype ConnectionState = Disconnected | Connecting | Connected | Synchronizing | Ready | Error

fun connection_state_name :: "ConnectionState \<Rightarrow> string" where
  "connection_state_name Disconnected = ''disconnected''"
| "connection_state_name Connecting = ''connecting''"
| "connection_state_name Connected = ''connected''"
| "connection_state_name Synchronizing = ''synchronizing''"
| "connection_state_name Ready = ''ready''"
| "connection_state_name Error = ''error''"

fun state_code :: "ConnectionState \<Rightarrow> int" where
  "state_code Disconnected = 0"
| "state_code Connecting = 1"
| "state_code Connected = 2"
| "state_code Synchronizing = 3"
| "state_code Ready = 4"
| "state_code Error = 5"

datatype EventType =
    EvConnectionStateChanged | EvReady | EvConnectionError | EvServerDiscovered | EvClientNoAssigned
  | EvAvatarConnected | EvAvatarDisconnected | EvRpcReceived | EvGlobalVariableChanged | EvClientVariableChanged
  | EvObjectOwnershipChanged | EvObjectOwnershipRejected | EvServerVersion | EvLog

record Event =
  ev_type :: EventType
  ev_client_no :: int
  ev_value_a :: int
  ev_value_b :: int
  ev_value_c :: int
  ev_object_id :: u32
  ev_name :: string
  ev_old_value :: string
  ev_new_value :: string
  ev_had_old_value :: bool
  ev_removed :: bool
  ev_args :: "string list"

definition Event_of :: "EventType \<Rightarrow> Event" where
  "Event_of type = \<lparr>ev_type = type, ev_client_no = 0, ev_value_a = 0, ev_value_b = 0, ev_value_c = 0, ev_object_id = 0,
     ev_name = [], ev_old_value = [], ev_new_value = [], ev_had_old_value = False, ev_removed = False, ev_args = []\<rparr>"

record ClientConfig =
  cfg_server_address :: string
  cfg_control_port :: int
  cfg_transform_port :: int
  cfg_sub_port :: int
  cfg_discovery_port :: int
  cfg_room_id :: string
  cfg_device_id :: string
  cfg_stealth_mode :: bool
  cfg_transform_send_rate :: double
  cfg_enable_discovery :: bool

definition ClientConfig_default :: ClientConfig where
  "ClientConfig_default = \<lparr>cfg_server_address = [], cfg_control_port = 5555, cfg_transform_port = 5557, cfg_sub_port = 5556,
     cfg_discovery_port = 9999, cfg_room_id = ''default_room'', cfg_device_id = [], cfg_stealth_mode = False,
     cfg_transform_send_rate = dlit 10, cfg_enable_discovery = True\<rparr>"

record RemoteClientPose =
  rc_client_no :: int
  rc_pose_time :: double
  rc_broadcast_time :: double
  rc_body :: ClientPoseBody

definition ClientPoseBody_default :: ClientPoseBody where
  "ClientPoseBody_default = \<lparr>pb_pose_seq = 0, pb_flags = 0, pb_encoding_flags = 0, pb_xr_origin_delta_position = Vec3_default,
     pb_xr_origin_delta_yaw = dlit 0, pb_physical = PoseTransform_default, pb_head = PoseTransform_default,
     pb_right_hand = PoseTransform_default, pb_left_hand = PoseTransform_default, pb_virtuals = []\<rparr>"

record NetSyncClient =
  config :: ClientConfig
  resolved_address :: string
  discovered_rest_api_port :: int
  wires :: Wires
  discovery :: ServerDiscovery
  device_mapping :: DeviceMapping
  rpc_manager :: RpcManager
  variables :: NetworkVariableManager
  object_sync :: ObjectSyncManager
  conn_state :: ConnectionState
  ready_fired :: bool
  version_checked :: bool
  hello_enqueued :: bool
  control_inbox :: "bytes list"
  latest_room_pose :: bytes
  has_room_pose :: bool
  latest_room_objects :: bytes
  has_room_objects :: bool
  control_inbox_dropped :: u64
  has_local_pose :: bool
  local_pose :: ClientPoseBody
  local_pose_seq :: u16
  last_pose_send_time :: double
  last_pose_change_send_time :: double
  has_last_pose_signature :: bool
  last_pose_signature :: bytes
  remote_poses :: "(int, RemoteClientPose) omap"
  last_room_broadcast_time :: double

definition NetSyncClient_init :: "(nat \<Rightarrow> double) \<Rightarrow> NetSyncClient" where
  "NetSyncClient_init clock = \<lparr>config = ClientConfig_default, resolved_address = [], discovered_rest_api_port = 0,
     wires = \<lparr>transport = ZmqTransport_init clock, notifications = []\<rparr>, discovery = ServerDiscovery_init,
     device_mapping = DeviceMapping_init, rpc_manager = RpcManager_init, variables = NetworkVariableManager_init,
     object_sync = ObjectSyncManager_init, conn_state = Disconnected, ready_fired = False, version_checked = False,
     hello_enqueued = False, control_inbox = [], latest_room_pose = [], has_room_pose = False,
     latest_room_objects = [], has_room_objects = False, control_inbox_dropped = 0, has_local_pose = False,
     local_pose = ClientPoseBody_default, local_pose_seq = 0, last_pose_send_time = dlit (- 1000000000),
     last_pose_change_send_time = dlit (- 1000000000), has_last_pose_signature = False, last_pose_signature = [],
     remote_poses = om_empty, last_room_broadcast_time = dlit 0\<rparr>"

definition kControlInboxMax :: nat where "kControlInboxMax = 4096"
definition kPoseHeartbeatSeconds :: double where "kPoseHeartbeatSeconds = dlit 1"

section \<open>What the other threads do\<close>

definition notify :: "PendingNotification \<Rightarrow> NetSyncClient \<Rightarrow> NetSyncClient" where
  "notify x c = c\<lparr>wires := (wires c)\<lparr>notifications := notifications (wires c) @ [x]\<rparr>\<rparr>"

definition client_log :: "string \<Rightarrow> NetSyncClient \<Rightarrow> NetSyncClient" where
  "client_log message c = c\<lparr>wires := push_log message (wires c)\<rparr>"

definition handle_payload :: "TransportLane \<Rightarrow> bytes \<Rightarrow> NetSyncClient \<Rightarrow> NetSyncClient" where
  "handle_payload lane data c =
     (case lane of
        LaneControl \<Rightarrow>
          let c = (if kControlInboxMax \<le> length (control_inbox c)
            then c\<lparr>control_inbox := tl (control_inbox c), control_inbox_dropped := control_inbox_dropped c + 1\<rparr> else c)
          in c\<lparr>control_inbox := control_inbox c @ [data]\<rparr>
      | LaneRoomPose \<Rightarrow> c\<lparr>latest_room_pose := data, has_room_pose := True\<rparr>
      | LaneRoomObjects \<Rightarrow> c\<lparr>latest_room_objects := data, has_room_objects := True\<rparr>)"

definition transport_callbacks :: "NetSyncClient TransportCallbacks" where
  "transport_callbacks = \<lparr>on_payload = Some handle_payload, on_connected = Some (notify (notification KindConnected [])),
     on_error = Some (\<lambda>message. notify (notification KindError message)), on_log = Some client_log\<rparr>"

definition discovery_callbacks :: "NetSyncClient DiscoveryCallbacks" where
  "discovery_callbacks =
     \<lparr>on_found = Some (\<lambda>server. notify \<lparr>pn_kind = KindDiscovered, pn_text = [], pn_server = server\<rparr>),
      discovery_on_log = Some client_log, cache_reader = None, cache_writer = None\<rparr>"

definition object_callbacks :: "Wires ObjectCallbacks" where
  "object_callbacks = \<lparr>manager_callbacks = client_callbacks,
     object_transform_sender = Some (\<lambda>object_id data w. w\<lparr>transport := set_latest_object_transform object_id data (transport w)\<rparr>)\<rparr>"

definition set_transport :: "ZmqTransport \<Rightarrow> NetSyncClient \<Rightarrow> NetSyncClient" where
  "set_transport t c = c\<lparr>wires := (wires c)\<lparr>transport := t\<rparr>\<rparr>"

section \<open>Lifecycle\<close>

definition reset_session_state :: "NetSyncClient \<Rightarrow> NetSyncClient" where
  "reset_session_state c = c\<lparr>control_inbox := [], latest_room_pose := [], has_room_pose := False,
     latest_room_objects := [], has_room_objects := False, wires := (wires c)\<lparr>notifications := []\<rparr>,
     device_mapping := set_local_device_id (cfg_device_id (config c)) (mapping_clear (device_mapping c)),
     rpc_manager := clear_pending (rpc_manager c), variables := variables_clear_all (variables c),
     object_sync := clear_room_scoped_state (object_sync c), remote_poses := om_empty,
     last_room_broadcast_time := dlit 0, ready_fired := False, version_checked := False, hello_enqueued := False,
     has_local_pose := False, local_pose := ClientPoseBody_default, local_pose_seq := 0,
     last_pose_send_time := dlit (- 1000000000), last_pose_change_send_time := dlit (- 1000000000),
     has_last_pose_signature := False, last_pose_signature := [], discovered_rest_api_port := 0\<rparr>"

definition is_connected :: "NetSyncClient \<Rightarrow> bool" where
  "is_connected c \<longleftrightarrow> running (transport (wires c)) \<and> \<not> connection_error (transport (wires c))"

definition has_handshake :: "NetSyncClient \<Rightarrow> bool" where
  "has_handshake c \<longleftrightarrow> 0 < local_client_no (device_mapping c)"

definition is_ready :: "NetSyncClient \<Rightarrow> bool" where
  "is_ready c \<longleftrightarrow> is_connected c \<and> has_handshake c \<and> has_received_initial_sync (variables c)"

definition start_transport ::
  "'n Zmq \<Rightarrow> string \<Rightarrow> int \<Rightarrow> int \<Rightarrow> int \<Rightarrow> NetSyncClient \<times> 'n \<Rightarrow> NetSyncClient \<times> 'n" where
  "start_transport z address control_port transform_port sub_port = (\<lambda>(c, n).
     let transport_config = \<lparr>tc_server_address = address, tc_control_port = control_port,
           tc_transform_port = transform_port, tc_sub_port = sub_port, tc_room_id = cfg_room_id (config c)\<rparr>;
         c = c\<lparr>hello_enqueued := False\<rparr>;
         (ok, t, c, n) = transport_start z transport_callbacks transport_config (transport (wires c), c, n);
         c = set_transport t c
     in (if \<not> ok then client_log ''transport is already running'' c else c, n))"

definition clamp_rate :: "double \<Rightarrow> double" where
  "clamp_rate rate = std_min (dlit 60) (std_max (dlit (1 / 2)) rate)"

definition stop_threads :: "NetSyncClient \<Rightarrow> NetSyncClient" where
  "stop_threads c = set_transport (transport_stop (transport (wires c))) (c\<lparr>discovery := discovery_stop (discovery c)\<rparr>)"

text \<open>\<open>connect\<close> up to the state \<open>Connecting\<close>, then all of it.\<close>

definition begin_session :: "ClientConfig \<Rightarrow> NetSyncClient \<Rightarrow> NetSyncClient" where
  "begin_session new_config c =
     (let c = stop_threads c;
          c = c\<lparr>config := new_config\<lparr>cfg_transform_send_rate := clamp_rate (cfg_transform_send_rate new_config),
                cfg_room_id := (if cfg_room_id new_config = [] then ''default_room'' else cfg_room_id new_config)\<rparr>\<rparr>;
          c = reset_session_state c;
          device_id = cfg_device_id (config c)
      in c\<lparr>device_mapping := set_local_device_id device_id (device_mapping c),
           variables := set_variable_identity 0 device_id (variables c),
           object_sync := set_object_identity 0 device_id (object_sync c), conn_state := Connecting\<rparr>)"

definition client_connect :: "'n Zmq \<Rightarrow> ClientConfig \<Rightarrow> NetSyncClient \<times> 'n \<Rightarrow> bool \<times> NetSyncClient \<times> 'n" where
  "client_connect z new_config = (\<lambda>(c, n).
     if conn_state c \<noteq> Disconnected \<and> conn_state c \<noteq> Error then (False, c, n)
     else
       let c = begin_session new_config c
       in if cfg_server_address (config c) \<noteq> [] then
            let c = c\<lparr>resolved_address := cfg_server_address (config c)\<rparr>
            in (True, start_transport z (resolved_address c) (cfg_control_port (config c)) (cfg_transform_port (config c))
                        (cfg_sub_port (config c)) (c, n))
          else if \<not> cfg_enable_discovery (config c) then
            (False, client_log ''no server address configured and discovery is disabled'' (c\<lparr>conn_state := Error\<rparr>), n)
          else
            let (ok, d) = discovery_start (set_port (cfg_discovery_port (config c)) (discovery c));
                c = c\<lparr>discovery := d\<rparr>
            in if \<not> ok then (False, client_log ''failed to start server discovery'' (c\<lparr>conn_state := Error\<rparr>), n)
               else (True, c, n))"

definition client_disconnect :: "NetSyncClient \<Rightarrow> NetSyncClient" where
  "client_disconnect c = (reset_session_state (stop_threads c))\<lparr>conn_state := Disconnected\<rparr>"

definition set_transform_send_rate :: "double \<Rightarrow> NetSyncClient \<Rightarrow> NetSyncClient" where
  "set_transform_send_rate rate c = c\<lparr>config := (config c)\<lparr>cfg_transform_send_rate := clamp_rate rate\<rparr>\<rparr>"

definition set_state :: "ConnectionState \<Rightarrow> NetSyncClient \<times> Event list \<Rightarrow> NetSyncClient \<times> Event list" where
  "set_state s = (\<lambda>(c, events).
     if conn_state c = s then (c, events)
     else (c\<lparr>conn_state := s\<rparr>, events @ [(Event_of EvConnectionStateChanged)\<lparr>ev_value_a := state_code s,
             ev_name := connection_state_name s\<rparr>]))"

definition enqueue_hello :: "NetSyncClient \<Rightarrow> NetSyncClient" where
  "enqueue_hello c =
     (let (ok, t) = try_enqueue_control (serialize_client_hello (cfg_device_id (config c)) (cfg_stealth_mode (config c)))
            (transport (wires c));
          c = set_transport t c
      in if ok then c\<lparr>hello_enqueued := True\<rparr> else c)"

section \<open>Notifications\<close>

definition discovered_event :: "DiscoveredServer \<Rightarrow> Event" where
  "discovered_event server = (Event_of EvServerDiscovered)\<lparr>ev_name := ds_address server, ev_new_value := ds_server_name server,
     ev_value_a := ds_control_port server, ev_value_b := ds_transform_port server, ev_value_c := ds_sub_port server\<rparr>"

definition drain_notification ::
  "'n Zmq \<Rightarrow> PendingNotification \<Rightarrow> (NetSyncClient \<times> Event list) \<times> 'n \<Rightarrow> (NetSyncClient \<times> Event list) \<times> 'n" where
  "drain_notification z x = (\<lambda>((c, events), n).
     case pn_kind x of
       KindConnected \<Rightarrow> (set_state Connected (c, events), n)
     | KindError \<Rightarrow>
         let (c, events) = set_state Error (c, events)
         in ((c, events @ [(Event_of EvConnectionError)\<lparr>ev_name := pn_text x\<rparr>]), n)
     | KindLog \<Rightarrow> ((c, events @ [(Event_of EvLog)\<lparr>ev_name := pn_text x\<rparr>]), n)
     | KindDiscovered \<Rightarrow>
         let server = pn_server x;
             c = c\<lparr>resolved_address := ds_address server, discovered_rest_api_port := ds_rest_api_port server\<rparr>;
             events = events @ [discovered_event server];
             (c, n) = start_transport z (ds_address server) (ds_control_port server) (ds_transform_port server)
               (ds_sub_port server) (c, n)
         in ((c, events), n))"

definition drain_internal_events ::
  "'n Zmq \<Rightarrow> (NetSyncClient \<times> Event list) \<times> 'n \<Rightarrow> (NetSyncClient \<times> Event list) \<times> 'n" where
  "drain_internal_events z = (\<lambda>((c, events), n).
     fold (drain_notification z) (notifications (wires c)) ((c\<lparr>wires := (wires c)\<lparr>notifications := []\<rparr>\<rparr>, events), n))"

section \<open>Incoming messages\<close>

text \<open>One definition per case of \<open>process_control_payload\<close>.\<close>

definition version_event :: "ApplyResult \<Rightarrow> Event" where
  "version_event result = (Event_of EvServerVersion)\<lparr>ev_value_a := server_version_major result,
     ev_value_b := server_version_minor result, ev_value_c := server_version_patch result,
     ev_name := dec_int (server_version_major result) @ ''.'' @ dec_int (server_version_minor result) @ ''.'' @
       dec_int (server_version_patch result)\<rparr>"

definition on_device_id_mapping :: "bytes \<Rightarrow> NetSyncClient \<times> Event list \<Rightarrow> NetSyncClient \<times> Event list" where
  "on_device_id_mapping data = (\<lambda>(c, events).
     case deserialize_device_id_mapping data of
       None \<Rightarrow> (client_log ''malformed device id mapping message'' c, events)
     | Some message \<Rightarrow>
         let (m, result) = mapping_apply message (device_mapping c);
             device_id = cfg_device_id (config c);
             c = c\<lparr>device_mapping := m, variables := set_variable_identity (local_client_no m) device_id (variables c),
                   object_sync := set_object_identity (local_client_no m) device_id (object_sync c)\<rparr>;
             (c, events) = (if \<not> version_checked c then (c\<lparr>version_checked := True\<rparr>, events @ [version_event result]) else (c, events))
         in (c, if local_client_no_changed result
                then events @ [(Event_of EvClientNoAssigned)\<lparr>ev_client_no := result_local_client_no result\<rparr>] else events))"

definition on_rpc :: "bytes \<Rightarrow> NetSyncClient \<times> Event list \<Rightarrow> NetSyncClient \<times> Event list" where
  "on_rpc data = (\<lambda>(c, events).
     case deserialize_rpc data of
       None \<Rightarrow> (client_log ''malformed RPC message'' c, events)
     | Some message \<Rightarrow>
         let event = (Event_of EvRpcReceived)\<lparr>ev_client_no := uint (rm_sender_client_no message), ev_name := rm_function_name message\<rparr>
         in case decode_json_string_array (rm_arguments_json message) of
             None \<Rightarrow> (client_log (''RPC '' @ in_quotes (rm_function_name message) @
                 '' carried arguments that are not a JSON array; delivering none'') c, events @ [event])
           | Some args \<Rightarrow> (c, events @ [event\<lparr>ev_args := args\<rparr>]))"

definition variable_event :: "EventType \<Rightarrow> VariableChange \<Rightarrow> Event" where
  "variable_event type v = (Event_of type)\<lparr>ev_name := vc_name v, ev_old_value := vc_old_value v,
     ev_new_value := vc_new_value v, ev_had_old_value := vc_had_old_value v, ev_removed := vc_removed v\<rparr>"

definition on_global_var_sync :: "bytes \<Rightarrow> NetSyncClient \<times> Event list \<Rightarrow> NetSyncClient \<times> Event list" where
  "on_global_var_sync data = (\<lambda>(c, events).
     case deserialize_global_var_sync data of
       None \<Rightarrow> (client_log ''malformed global variable sync message'' c, events)
     | Some message \<Rightarrow>
         let (m, changes) = handle_global_sync message (variables c)
         in (c\<lparr>variables := m\<rparr>, events @ map (variable_event EvGlobalVariableChanged) changes))"

definition on_client_var_sync :: "bytes \<Rightarrow> NetSyncClient \<times> Event list \<Rightarrow> NetSyncClient \<times> Event list" where
  "on_client_var_sync data = (\<lambda>(c, events).
     case deserialize_client_var_sync data of
       None \<Rightarrow> (client_log ''malformed client variable sync message'' c, events)
     | Some message \<Rightarrow>
         let (m, changes) = handle_client_sync message (variables c)
         in (c\<lparr>variables := m\<rparr>, events @ map (\<lambda>v. (variable_event EvClientVariableChanged v)\<lparr>ev_client_no := vc_client_no v\<rparr>) changes))"

definition ownership_event :: "OwnershipChange \<Rightarrow> Event" where
  "ownership_event own = (Event_of EvObjectOwnershipChanged)\<lparr>ev_object_id := ow_object_id own,
     ev_value_a := ow_new_owner_client_no own, ev_value_b := ow_previous_owner_client_no own\<rparr>"

definition on_ownership_changed :: "bytes \<Rightarrow> NetSyncClient \<times> Event list \<Rightarrow> NetSyncClient \<times> Event list" where
  "on_ownership_changed data = (\<lambda>(c, events).
     case deserialize_object_ownership_changed data of
       None \<Rightarrow> (client_log ''malformed object ownership changed message'' c, events)
     | Some message \<Rightarrow>
         let (m, own) = handle_ownership_changed message (object_sync c)
         in (c\<lparr>object_sync := m\<rparr>, events @ [ownership_event own]))"

definition on_ownership_rejected :: "bytes \<Rightarrow> NetSyncClient \<times> Event list \<Rightarrow> NetSyncClient \<times> Event list" where
  "on_ownership_rejected data = (\<lambda>(c, events).
     case deserialize_object_ownership_rejected data of
       None \<Rightarrow> (client_log ''malformed object ownership rejected message'' c, events)
     | Some message \<Rightarrow>
         let rejection = handle_ownership_rejected message
         in (c, events @ [(Event_of EvObjectOwnershipRejected)\<lparr>ev_object_id := oe_object_id rejection,
                ev_value_a := oe_current_owner_client_no rejection, ev_value_b := oe_reason_code rejection\<rparr>]))"

definition process_control_payload :: "bytes \<Rightarrow> NetSyncClient \<times> Event list \<Rightarrow> NetSyncClient \<times> Event list" where
  "process_control_payload data =
     (let type = peek_message_type data
      in if type = MSG_DEVICE_ID_MAPPING then on_device_id_mapping data
         else if type = MSG_RPC then on_rpc data
         else if type = MSG_GLOBAL_VAR_SYNC then on_global_var_sync data
         else if type = MSG_CLIENT_VAR_SYNC then on_client_var_sync data
         else if type = MSG_OBJECT_OWNERSHIP_CHANGED then on_ownership_changed data
         else if type = MSG_OBJECT_OWNERSHIP_REJECTED then on_ownership_rejected data
         else id)"

text \<open>The loop of \<open>process_room_pose\<close>: the clients alive and their poses, the local one left out.\<close>

definition room_pose_client ::
  "int \<Rightarrow> double \<Rightarrow> RoomPoseClient \<Rightarrow> int list \<times> (int, RemoteClientPose) omap \<Rightarrow> int list \<times> (int, RemoteClientPose) omap" where
  "room_pose_client local_no broadcast_time client = (\<lambda>(alive, next_poses).
     let client_no = uint (rpc_client_no client)
     in if client_no = local_no \<and> local_no \<noteq> 0 then (alive, next_poses)
        else (alive @ [client_no], om_insert client_no \<lparr>rc_client_no = client_no, rc_pose_time = rpc_pose_time client,
                rc_broadcast_time = broadcast_time, rc_body = rpc_body client\<rparr> next_poses))"

definition process_room_pose :: "libm \<Rightarrow> bytes \<Rightarrow> NetSyncClient \<times> Event list \<Rightarrow> NetSyncClient \<times> Event list" where
  "process_room_pose lm data = (\<lambda>(c, events).
     case deserialize_room_pose lm data of
       None \<Rightarrow> (client_log ''malformed room pose message'' c, events)
     | Some message \<Rightarrow>
         if rp_room_id message \<noteq> cfg_room_id (config c) then (c, events)
         else
           let c = c\<lparr>last_room_broadcast_time := rp_broadcast_time message\<rparr>;
               (alive, next_poses) = fold (room_pose_client (local_client_no (device_mapping c)) (rp_broadcast_time message))
                 (rp_clients message) ([], om_empty);
               (m, joined, left) = update_presence alive (device_mapping c);
               c = c\<lparr>remote_poses := next_poses, device_mapping := m\<rparr>
           in (c, events @ map (\<lambda>client_no. (Event_of EvAvatarConnected)\<lparr>ev_client_no := client_no, ev_name := device_id_for m client_no\<rparr>) joined
                 @ map (\<lambda>client_no. (Event_of EvAvatarDisconnected)\<lparr>ev_client_no := client_no\<rparr>) left))"

definition process_room_objects :: "bytes \<Rightarrow> NetSyncClient \<times> Event list \<Rightarrow> NetSyncClient \<times> Event list" where
  "process_room_objects data = (\<lambda>(c, events).
     case deserialize_room_objects data of
       None \<Rightarrow> (client_log ''malformed room objects message'' c, events)
     | Some message \<Rightarrow>
         let (m, changes) = handle_room_objects message (object_sync c)
         in (c\<lparr>object_sync := m\<rparr>, events @ map ownership_event changes))"

section \<open>The local pose\<close>

definition pose_signature :: "libm \<Rightarrow> ClientPoseBody \<Rightarrow> bytes" where
  "pose_signature lm body = serialize_client_pose lm \<lparr>cp_device_id = [], cp_body = body\<lparr>pb_pose_seq := 0\<rparr>\<rparr>"

definition set_local_pose :: "ClientPoseBody \<Rightarrow> NetSyncClient \<Rightarrow> NetSyncClient" where
  "set_local_pose body c = c\<lparr>local_pose := body, has_local_pose := True\<rparr>"

definition clear_local_pose :: "NetSyncClient \<Rightarrow> NetSyncClient" where
  "clear_local_pose c = c\<lparr>has_local_pose := False, has_last_pose_signature := False, last_pose_signature := []\<rparr>"

definition pose_to_send :: "NetSyncClient \<Rightarrow> ClientPoseBody option" where
  "pose_to_send c =
     (if cfg_stealth_mode (config c) then Some (ClientPoseBody_default\<lparr>pb_flags := POSE_FLAG_STEALTH\<rparr>)
      else if has_local_pose c then Some (local_pose c) else None)"

definition send_local_pose_if_due :: "libm \<Rightarrow> double \<Rightarrow> NetSyncClient \<Rightarrow> NetSyncClient" where
  "send_local_pose_if_due lm now c =
     (if \<not> is_connected c then c
      else case pose_to_send c of
        None \<Rightarrow> c
      | Some body \<Rightarrow>
          if flt (fsub now (last_pose_send_time c)) (send_interval_of (cfg_transform_send_rate (config c))) then c
          else
            let signature = pose_signature lm body
            in if has_last_pose_signature c \<and> signature = last_pose_signature c \<and>
                  flt (fsub now (last_pose_change_send_time c)) kPoseHeartbeatSeconds
               then c\<lparr>last_pose_send_time := now\<rparr>
               else
                 let seq = local_pose_seq c + 1;
                     data = serialize_client_pose lm \<lparr>cp_device_id = cfg_device_id (config c), cp_body = body\<lparr>pb_pose_seq := seq\<rparr>\<rparr>
                 in (set_transport (set_latest_transform data (transport (wires c))) c)
                      \<lparr>local_pose_seq := seq, last_pose_send_time := now, last_pose_change_send_time := now,
                       last_pose_signature := signature, has_last_pose_signature := True\<rparr>)"

section \<open>Polling\<close>

definition update_ready :: "NetSyncClient \<times> Event list \<Rightarrow> NetSyncClient \<times> Event list" where
  "update_ready = (\<lambda>(c, events).
     if conn_state c = Error \<or> conn_state c = Disconnected then (c, events)
     else if is_ready c then
       let (c, events) = set_state Ready (c, events)
       in if \<not> ready_fired c
          then (c\<lparr>ready_fired := True\<rparr>, events @ [(Event_of EvReady)\<lparr>ev_client_no := local_client_no (device_mapping c)\<rparr>])
          else (c, events)
     else if conn_state c = Ready then
       let (c, events) = set_state Synchronizing (c, events) in (c\<lparr>ready_fired := False\<rparr>, events)
     else (c, events))"

text \<open>The four parts of \<open>poll\<close> between draining the notifications and \<open>update_ready\<close>.\<close>

definition poll_hello :: "double \<Rightarrow> NetSyncClient \<times> Event list \<Rightarrow> NetSyncClient \<times> Event list" where
  "poll_hello now = (\<lambda>(c, events).
     if conn_state c = Connected \<and> \<not> hello_enqueued c then
       let c = enqueue_hello (c\<lparr>variables := on_connection_established now (variables c)\<rparr>)
       in if hello_enqueued c then set_state Synchronizing (c, events) else (c, events)
     else (c, events))"

definition poll_inbound :: "libm \<Rightarrow> NetSyncClient \<times> Event list \<Rightarrow> NetSyncClient \<times> Event list" where
  "poll_inbound lm = (\<lambda>(c, events).
     let control = control_inbox c;
         room_pose = (if has_room_pose c then Some (latest_room_pose c) else None);
         room_objects = (if has_room_objects c then Some (latest_room_objects c) else None);
         c = c\<lparr>control_inbox := [], has_room_pose := False, latest_room_pose := (if has_room_pose c then [] else latest_room_pose c),
               has_room_objects := False, latest_room_objects := (if has_room_objects c then [] else latest_room_objects c)\<rparr>;
         s = (case room_pose of None \<Rightarrow> (c, events) | Some data \<Rightarrow> process_room_pose lm data (c, events));
         s = fold process_control_payload control s
     in case room_objects of None \<Rightarrow> s | Some data \<Rightarrow> process_room_objects data s)"

definition tick_variables :: "double \<Rightarrow> NetSyncClient \<Rightarrow> NetSyncClient" where
  "tick_variables now c = (let (_, m, w) = variables_tick client_callbacks now (variables c, wires c) in c\<lparr>variables := m, wires := w\<rparr>)"

definition flush_rpc :: "double \<Rightarrow> NetSyncClient \<Rightarrow> NetSyncClient" where
  "flush_rpc now c = (let (_, m, w) = flush_pending client_callbacks now (is_ready c) (local_client_no (device_mapping c))
     (cfg_device_id (config c)) (rpc_manager c, wires c) in c\<lparr>rpc_manager := m, wires := w\<rparr>)"

definition tick_objects :: "double \<Rightarrow> NetSyncClient \<Rightarrow> NetSyncClient" where
  "tick_objects now c = (let (m, w) = objects_tick object_callbacks now (cfg_transform_send_rate (config c)) (object_sync c, wires c)
     in c\<lparr>object_sync := m, wires := w\<rparr>)"

definition time_out_sync :: "double \<Rightarrow> NetSyncClient \<Rightarrow> NetSyncClient" where
  "time_out_sync now c = (let (_, m, w) = check_initial_sync_timeout client_callbacks now (variables c, wires c)
     in c\<lparr>variables := m, wires := w\<rparr>)"

definition poll_outbound :: "libm \<Rightarrow> double \<Rightarrow> NetSyncClient \<Rightarrow> NetSyncClient" where
  "poll_outbound lm now c = time_out_sync now (tick_objects now (send_local_pose_if_due lm now (flush_rpc now (tick_variables now c))))"

definition poll :: "'n Zmq \<Rightarrow> libm \<Rightarrow> double \<Rightarrow> NetSyncClient \<times> 'n \<Rightarrow> (NetSyncClient \<times> Event list) \<times> 'n" where
  "poll z lm now = (\<lambda>(c, n).
     if conn_state c = Disconnected then ((c, []), n)
     else
       let (s, n) = drain_internal_events z ((c, []), n);
           (c, events) = poll_inbound lm (poll_hello now s)
       in (update_ready (poll_outbound lm now c, events), n))"

section \<open>The rest of the interface\<close>

definition get_remote_pose :: "NetSyncClient \<Rightarrow> int \<Rightarrow> RemoteClientPose option" where
  "get_remote_pose c client_no = om_find (remote_poses c) client_no"

definition remote_client_numbers :: "NetSyncClient \<Rightarrow> int list" where
  "remote_client_numbers c = om_keys (remote_poses c)"

definition rpc_to_many :: "int list \<Rightarrow> string \<Rightarrow> string list \<Rightarrow> NetSyncClient \<Rightarrow> NetSyncClient" where
  "rpc_to_many target_client_nos function_name args c =
     (let (now, t) = monotonic_seconds (transport (wires c));
          c = set_transport t c;
          (m, w) = rpc_send client_callbacks now (is_ready c) (local_client_no (device_mapping c)) (cfg_device_id (config c))
            target_client_nos function_name args (rpc_manager c, wires c)
      in c\<lparr>rpc_manager := m, wires := w\<rparr>)"

definition rpc :: "string \<Rightarrow> string list \<Rightarrow> NetSyncClient \<Rightarrow> NetSyncClient" where
  "rpc function_name args = rpc_to_many [] function_name args"

definition rpc_to :: "int \<Rightarrow> string \<Rightarrow> string list \<Rightarrow> NetSyncClient \<Rightarrow> NetSyncClient" where
  "rpc_to target_client_no function_name args = rpc_to_many [target_client_no] function_name args"

definition configure_rpc_rate_limit :: "int \<Rightarrow> double \<Rightarrow> double \<Rightarrow> NetSyncClient \<Rightarrow> NetSyncClient" where
  "configure_rpc_rate_limit limit window cooldown c = c\<lparr>rpc_manager := configure_rate_limit limit window cooldown (rpc_manager c)\<rparr>"

definition set_global_variable :: "string \<Rightarrow> string \<Rightarrow> NetSyncClient \<Rightarrow> bool \<times> NetSyncClient" where
  "set_global_variable name val c =
     (let (now, t) = monotonic_seconds (transport (wires c));
          c = set_transport t c;
          (ok, m, w) = set_global client_callbacks now name val (variables c, wires c)
      in (ok, c\<lparr>variables := m, wires := w\<rparr>))"

definition get_global_variable :: "NetSyncClient \<Rightarrow> string \<Rightarrow> string \<Rightarrow> string" where
  "get_global_variable c name fallback = (case get_global (variables c) name of None \<Rightarrow> fallback | Some v \<Rightarrow> v)"

definition get_all_global_variables :: "NetSyncClient \<Rightarrow> (string, string) omap" where
  "get_all_global_variables c = globals (variables c)"

definition set_client_variable_for :: "int \<Rightarrow> string \<Rightarrow> string \<Rightarrow> NetSyncClient \<Rightarrow> bool \<times> NetSyncClient" where
  "set_client_variable_for target_client_no name val c =
     (let (now, t) = monotonic_seconds (transport (wires c));
          c = set_transport t c;
          (ok, m, w) = set_client client_callbacks now target_client_no name val (variables c, wires c)
      in (ok, c\<lparr>variables := m, wires := w\<rparr>))"

definition set_client_variable :: "string \<Rightarrow> string \<Rightarrow> NetSyncClient \<Rightarrow> bool \<times> NetSyncClient" where
  "set_client_variable name val c = set_client_variable_for (local_client_no (device_mapping c)) name val c"

definition get_client_variable :: "NetSyncClient \<Rightarrow> int \<Rightarrow> string \<Rightarrow> string \<Rightarrow> string" where
  "get_client_variable c client_no name fallback = (case get_client (variables c) client_no name of None \<Rightarrow> fallback | Some v \<Rightarrow> v)"

definition get_all_client_variables :: "NetSyncClient \<Rightarrow> int \<Rightarrow> (string, string) omap" where
  "get_all_client_variables c client_no = all_client_variables (variables c) client_no"

text \<open>The list of changes is dropped.\<close>

definition client_clear_my_client_variables :: "NetSyncClient \<Rightarrow> bool \<times> NetSyncClient" where
  "client_clear_my_client_variables c =
     (let (ok, changes, m, w) = clear_my_client_variables client_callbacks (variables c, wires c)
      in (ok, c\<lparr>variables := m, wires := w\<rparr>))"

definition client_register_object :: "u32 \<Rightarrow> NetSyncClient \<Rightarrow> bool \<times> NetSyncClient" where
  "client_register_object object_id c =
     (let (ok, m, w) = register_object object_callbacks object_id (object_sync c, wires c)
      in (ok, c\<lparr>object_sync := m, wires := w\<rparr>))"

definition client_unregister_object :: "u32 \<Rightarrow> NetSyncClient \<Rightarrow> NetSyncClient" where
  "client_unregister_object object_id c = c\<lparr>object_sync := unregister_object object_id (object_sync c)\<rparr>"

definition submit_object_pose :: "u32 \<Rightarrow> PoseTransform \<Rightarrow> NetSyncClient \<Rightarrow> NetSyncClient" where
  "submit_object_pose object_id pose c = c\<lparr>object_sync := submit_local_pose object_id pose (object_sync c)\<rparr>"

definition get_object_state :: "NetSyncClient \<Rightarrow> u32 \<Rightarrow> ObjectState option" where
  "get_object_state c object_id = get_state (object_sync c) object_id"

definition request_object_ownership :: "u32 \<Rightarrow> NetSyncClient \<Rightarrow> bool \<times> NetSyncClient" where
  "request_object_ownership object_id c =
     (let (ok, w) = request_ownership object_callbacks object_id (object_sync c, wires c) in (ok, c\<lparr>wires := w\<rparr>))"

definition release_object_ownership :: "u32 \<Rightarrow> NetSyncClient \<Rightarrow> bool \<times> NetSyncClient" where
  "release_object_ownership object_id c =
     (let (ok, w) = release_ownership object_callbacks object_id (object_sync c, wires c) in (ok, c\<lparr>wires := w\<rparr>))"

end
