(* ===== verification/Client_Invariant.thy ===== *)
theory Client_Invariant
  imports NetSync_Client
begin

text \<open>
  What holds of the client in every reachable state: the device mapping and the managers agree on the
  identity, the client number and the send rate stay in range, the inbox is bounded, and a disconnected
  client is idle.
\<close>

section \<open>The managers keep their identity\<close>

lemma sync_global_entries_identity:
  "fold sync_global_entry es (m, ch) = (m', ch') \<Longrightarrow>
     nv_local_client_no m' = nv_local_client_no m \<and> nv_local_device_id m' = nv_local_device_id m"
proof (induction es arbitrary: m ch)
  case (Cons e es)
  obtain m1 ch1 where st: "sync_global_entry e (m, ch) = (m1, ch1)" by fastforce
  then have "nv_local_client_no m1 = nv_local_client_no m" "nv_local_device_id m1 = nv_local_device_id m"
    by (auto simp: sync_global_entry_def Let_def split: if_splits)
  then show ?case using Cons.IH [of m1 ch1] Cons.prems st by simp
qed simp

lemma sync_client_blocks_identity:
  "fold sync_client_block bs (m, ch) = (m', ch') \<Longrightarrow>
     nv_local_client_no m' = nv_local_client_no m \<and> nv_local_device_id m' = nv_local_device_id m"
proof (induction bs arbitrary: m ch)
  case (Cons b bs)
  obtain m1 ch1 where st: "sync_client_block b (m, ch) = (m1, ch1)" by fastforce
  then have "nv_local_client_no m1 = nv_local_client_no m" "nv_local_device_id m1 = nv_local_device_id m"
    by (auto simp: sync_client_block_def Let_def split: prod.splits)
  then show ?case using Cons.IH [of m1 ch1] Cons.prems st by simp
qed simp

lemma variables_handlers_identity:
  "handle_global_sync gs m = (m', ch) \<Longrightarrow> nv_local_client_no m' = nv_local_client_no m \<and> nv_local_device_id m' = nv_local_device_id m"
  "handle_client_sync cs m = (m', ch) \<Longrightarrow> nv_local_client_no m' = nv_local_client_no m \<and> nv_local_device_id m' = nv_local_device_id m"
  unfolding handle_global_sync_def handle_client_sync_def
  by (auto dest: sync_global_entries_identity sync_client_blocks_identity)

lemma variables_tick_identity:
  "variables_tick client_callbacks now (m, w) = (b, m', w') \<Longrightarrow>
     nv_local_client_no m' = nv_local_client_no m \<and> nv_local_device_id m' = nv_local_device_id m"
  by (drule tick_step(1)) (auto simp: variables_sent_def)

definition objects_wf :: "ObjectSyncManager \<Rightarrow> bool" where
  "objects_wf m \<longleftrightarrow> om_find (objects m) 0 = None"

lemma tick_objects_identity:
  "fold (tick_object send now ival) entries (m, w) = (m', w') \<Longrightarrow> 0 \<notin> fst ` set entries \<Longrightarrow>
     ob_local_client_no m' = ob_local_client_no m \<and> ob_local_device_id m' = ob_local_device_id m \<and>
     om_find (objects m') 0 = om_find (objects m) 0"
proof (induction entries arbitrary: m w)
  case (Cons e entries)
  obtain m1 w1 where st: "tick_object send now ival e (m, w) = (m1, w1)" by fastforce
  then have "ob_local_client_no m1 = ob_local_client_no m" "ob_local_device_id m1 = ob_local_device_id m"
    "om_find (objects m1) 0 = om_find (objects m) 0"
    using Cons.prems(2) by (auto simp: tick_object_def Let_def split: prod.splits if_splits)
  then show ?case using Cons.IH [of m1 w1] Cons.prems st by simp
qed simp

lemma objects_tick_identity:
  assumes "objects_tick cb now rate (m, w) = (m', w')" "objects_wf m"
  shows "ob_local_client_no m' = ob_local_client_no m \<and> ob_local_device_id m' = ob_local_device_id m \<and> objects_wf m'"
proof -
  have "0 \<notin> fst ` set (om_entries (objects m))"
    using assms(2) om_keys_iff [of 0 "objects m"] by (simp add: objects_wf_def om_keys_def)
  then show ?thesis using assms tick_objects_identity
    by (fastforce simp: objects_tick_def objects_wf_def split: option.splits if_splits)
qed

lemma room_objects_identity:
  "fold (room_object t) os (m, ch) = (m', ch') \<Longrightarrow> objects_wf m \<Longrightarrow>
     ob_local_client_no m' = ob_local_client_no m \<and> ob_local_device_id m' = ob_local_device_id m \<and> objects_wf m'"
proof (induction os arbitrary: m ch)
  case (Cons ob os)
  obtain m1 ch1 where st: "room_object t ob (m, ch) = (m1, ch1)" by fastforce
  then have "ob_local_client_no m1 = ob_local_client_no m" "ob_local_device_id m1 = ob_local_device_id m" "objects_wf m1"
    using Cons.prems(2) by (auto simp: room_object_def objects_wf_def Let_def split: option.splits)
  then show ?case using Cons.IH [of m1 ch1] Cons.prems st by simp
qed simp

lemma ownership_changed_identity:
  "handle_ownership_changed message m = (m', ch) \<Longrightarrow> objects_wf m \<Longrightarrow>
     ob_local_client_no m' = ob_local_client_no m \<and> ob_local_device_id m' = ob_local_device_id m \<and> objects_wf m'"
  by (auto simp: handle_ownership_changed_def objects_wf_def Let_def split: option.splits)

lemma announce_identity:
  "fold announce cs (s, joined) = (s', joined') \<Longrightarrow> local_client_no s' = local_client_no s \<and> local_device_id s' = local_device_id s"
proof (induction cs arbitrary: s joined)
  case (Cons x cs)
  obtain s1 j1 where st: "announce x (s, joined) = (s1, j1)" by fastforce
  then have "local_client_no s1 = local_client_no s" "local_device_id s1 = local_device_id s"
    by (auto simp: announce_def split: if_splits)
  then show ?case using Cons.IH [of s1 j1] Cons.prems st by simp
qed simp

lemma update_presence_identity:
  "update_presence alive s = (s', joined, left) \<Longrightarrow> local_client_no s' = local_client_no s \<and> local_device_id s' = local_device_id s"
  by (auto simp: update_presence_def Let_def split: prod.splits dest: announce_identity)

definition client_range :: "int \<Rightarrow> bool" where
  "client_range no \<longleftrightarrow> 0 \<le> no \<and> no \<le> 65535"

lemma uint_client_range [simp]: "client_range (uint (w :: u16))"
  using uint_lt2p [of w] by (simp add: client_range_def)

lemma apply_entries_identity:
  "fold apply_entry es (s, b) = (s', b') \<Longrightarrow> client_range (local_client_no s) \<Longrightarrow>
     client_range (local_client_no s') \<and> local_device_id s' = local_device_id s"
proof (induction es arbitrary: s b)
  case (Cons e es)
  obtain s1 b1 where st: "apply_entry e (s, b) = (s1, b1)" by fastforce
  then have "client_range (local_client_no s1)" "local_device_id s1 = local_device_id s"
    using Cons.prems(2) by (auto simp: apply_entry_def Let_def split: if_splits)
  then show ?case using Cons.IH [of s1 b1] Cons.prems st by simp
qed simp

lemma mapping_apply_identity:
  assumes "mapping_apply message s = (s', r)" "client_range (local_client_no s)"
  shows "client_range (local_client_no s') \<and> local_device_id s' = local_device_id s"
proof -
  let ?s = "s\<lparr>client_no_to_device_id := om_empty, device_id_to_client_no := om_empty, client_no_to_stealth := om_empty\<rparr>"
  obtain b where "fold apply_entry (dm_mappings message) (?s, False) = (s', b)"
    using assms(1) by (auto simp: mapping_apply_def Let_def split: prod.splits)
  from apply_entries_identity [OF this] assms(2) show ?thesis by simp
qed

section \<open>The operating client\<close>

definition identity :: "NetSyncClient \<Rightarrow> bool" where
  "identity c \<longleftrightarrow> nv_local_client_no (variables c) = local_client_no (device_mapping c) \<and>
     ob_local_client_no (object_sync c) = local_client_no (device_mapping c) \<and>
     local_device_id (device_mapping c) = cfg_device_id (config c) \<and>
     nv_local_device_id (variables c) = cfg_device_id (config c) \<and> ob_local_device_id (object_sync c) = cfg_device_id (config c)"

definition rate_ok :: "double \<Rightarrow> bool" where
  "rate_ok rate \<longleftrightarrow> fle (dlit (1 / 2)) rate \<and> fle rate (dlit 60)"

definition operating :: "NetSyncClient \<Rightarrow> bool" where
  "operating c \<longleftrightarrow> conn_state c \<noteq> Disconnected \<and> identity c \<and> client_range (local_client_no (device_mapping c)) \<and>
     objects_wf (object_sync c) \<and> rate_ok (cfg_transform_send_rate (config c)) \<and> length (control_inbox c) \<le> 4096"

text \<open>Most parts of \<open>poll\<close> keep the client operating, leave the flag of readiness and emit no readiness event.\<close>

definition keeps :: "(NetSyncClient \<times> Event list \<Rightarrow> NetSyncClient \<times> Event list) \<Rightarrow> bool" where
  "keeps f \<longleftrightarrow> (\<forall>c ev c' ev'. f (c, ev) = (c', ev') \<longrightarrow> ready_fired c' = ready_fired c \<and>
     (\<exists>xs. ev' = ev @ xs \<and> EvReady \<notin> ev_type ` set xs) \<and> (operating c \<longrightarrow> operating c'))"

lemma keepsI:
  assumes "\<And>c ev. ready_fired (fst (f (c, ev))) = ready_fired c"
    and "\<And>c ev. \<exists>xs. snd (f (c, ev)) = ev @ xs \<and> EvReady \<notin> ev_type ` set xs"
    and "\<And>c ev. operating c \<Longrightarrow> operating (fst (f (c, ev)))"
  shows "keeps f"
  unfolding keeps_def using assms by (metis fst_conv snd_conv)

lemma keeps_comp: "keeps f \<Longrightarrow> keeps g \<Longrightarrow> keeps (\<lambda>s. g (f s))"
proof -
  assume f: "keeps f" and g: "keeps g"
  show ?thesis unfolding keeps_def
  proof (intro allI impI)
    fix c ev c' ev' assume a: "g (f (c, ev)) = (c', ev')"
    obtain c1 ev1 where s: "f (c, ev) = (c1, ev1)" by fastforce
    then obtain xs ys where "ready_fired c1 = ready_fired c" "ev1 = ev @ xs" "EvReady \<notin> ev_type ` set xs" "operating c \<longrightarrow> operating c1"
      "ready_fired c' = ready_fired c1" "ev' = ev1 @ ys" "EvReady \<notin> ev_type ` set ys" "operating c1 \<longrightarrow> operating c'"
      using f g a unfolding keeps_def by metis
    then show "ready_fired c' = ready_fired c \<and> (\<exists>xs. ev' = ev @ xs \<and> EvReady \<notin> ev_type ` set xs) \<and> (operating c \<longrightarrow> operating c')"
      by auto
  qed
qed

lemma keeps_id: "keeps (\<lambda>s. s)" unfolding keeps_def by auto

lemma keeps_fold: "(\<And>x. x \<in> set xs \<Longrightarrow> keeps (f x)) \<Longrightarrow> keeps (fold f xs)"
proof (induction xs)
  case Nil
  then show ?case using keeps_id by (simp add: id_def)
next
  case (Cons x xs)
  then show ?case using keeps_comp [of "f x" "fold f xs"] by (simp add: comp_def)
qed

lemma keeps_client: "(\<And>c. ready_fired (g c) = ready_fired c) \<Longrightarrow> (\<And>c. operating c \<Longrightarrow> operating (g c)) \<Longrightarrow> keeps (\<lambda>(c, ev). (g c, ev))"
  by (rule keepsI) auto

lemma operating_updates:
  "operating c \<Longrightarrow> nv_local_client_no m = nv_local_client_no (variables c) \<and> nv_local_device_id m = nv_local_device_id (variables c) \<Longrightarrow>
     operating (c\<lparr>variables := m\<rparr>)"
  "operating c \<Longrightarrow> ob_local_client_no ob = ob_local_client_no (object_sync c) \<and> ob_local_device_id ob = ob_local_device_id (object_sync c) \<and>
     objects_wf ob \<Longrightarrow> operating (c\<lparr>object_sync := ob\<rparr>)"
  "operating c \<Longrightarrow> local_client_no dm = local_client_no (device_mapping c) \<and> local_device_id dm = local_device_id (device_mapping c) \<Longrightarrow>
     operating (c\<lparr>device_mapping := dm\<rparr>)"
  by (simp_all add: operating_def identity_def)

lemma operating_wf: "operating c \<Longrightarrow> objects_wf (object_sync c)" by (simp add: operating_def)

lemma client_log_frame [simp]:
  "ready_fired (client_log m c) = ready_fired c" "operating (client_log m c) = operating c"
  by (simp_all add: client_log_def operating_def identity_def)

lemma notify_frame [simp]: "ready_fired (notify x c) = ready_fired c" "operating (notify x c) = operating c"
  by (simp_all add: notify_def operating_def identity_def)

lemma set_transport_frame [simp]: "ready_fired (set_transport t c) = ready_fired c" "operating (set_transport t c) = operating c"
  by (simp_all add: set_transport_def operating_def identity_def)

lemma Event_of_type [simp]: "ev_type (Event_of t) = t" by (simp add: Event_of_def)

lemma keeps_set_state: "s \<noteq> Disconnected \<Longrightarrow> keeps (set_state s)"
  by (rule keepsI) (auto simp: set_state_def operating_def identity_def)

lemma start_transport_frame:
  assumes "start_transport z a p q r (c, n) = (c', n')"
  shows "ready_fired c' = ready_fired c" "operating c \<Longrightarrow> operating c'"
proof -
  have h: "ready_fired (c\<lparr>hello_enqueued := b\<rparr>) = ready_fired c" "operating (c\<lparr>hello_enqueued := b\<rparr>) = operating c" for b
    by (simp_all add: operating_def identity_def)
  show "ready_fired c' = ready_fired c" "operating c \<Longrightarrow> operating c'"
    using assms by (auto simp: start_transport_def transport_start_def transport_callbacks_def invoke_def Let_def h
        split: prod.splits if_splits)
qed

lemma keeps_process_control: "keeps (process_control_payload data)"
proof -
  have "keeps (on_device_id_mapping data)"
  proof (rule keepsI)
    fix c ev
    show "ready_fired (fst (on_device_id_mapping data (c, ev))) = ready_fired c"
      by (auto simp: on_device_id_mapping_def Let_def split: option.splits prod.splits)
    show "\<exists>xs. snd (on_device_id_mapping data (c, ev)) = ev @ xs \<and> EvReady \<notin> ev_type ` set xs"
      by (auto simp: on_device_id_mapping_def version_event_def Let_def split: option.splits prod.splits)
    assume o: "operating c"
    show "operating (fst (on_device_id_mapping data (c, ev)))"
    proof (cases "deserialize_device_id_mapping data")
      case None
      then show ?thesis using o by (simp add: on_device_id_mapping_def)
    next
      case (Some message)
      obtain m r where a: "mapping_apply message (device_mapping c) = (m, r)" by fastforce
      from mapping_apply_identity [OF this] o show ?thesis
        by (simp add: on_device_id_mapping_def Some a operating_def identity_def set_variable_identity_def set_object_identity_def
            objects_wf_def Let_def)
    qed
  qed
  moreover have "keeps (on_rpc data)"
    by (rule keepsI) (auto simp: on_rpc_def Let_def split: option.splits)
  moreover have "keeps (on_global_var_sync data)"
    by (rule keepsI) (auto simp: on_global_var_sync_def Let_def variable_event_def split: option.splits prod.splits
        intro!: operating_updates(1) dest: variables_handlers_identity)
  moreover have "keeps (on_client_var_sync data)"
    by (rule keepsI) (auto simp: on_client_var_sync_def Let_def variable_event_def split: option.splits prod.splits
        intro!: operating_updates(1) dest: variables_handlers_identity)
  moreover have "keeps (on_ownership_changed data)"
    by (rule keepsI) (auto simp: on_ownership_changed_def Let_def ownership_event_def split: option.splits prod.splits
        intro!: operating_updates(2) dest: ownership_changed_identity operating_wf)
  moreover have "keeps (on_ownership_rejected data)"
    by (rule keepsI) (auto simp: on_ownership_rejected_def Let_def split: option.splits)
  ultimately show ?thesis using keeps_id by (simp add: process_control_payload_def Let_def id_def)
qed

lemma keeps_process_room_pose: "keeps (process_room_pose lm data)"
proof (rule keepsI)
  fix c ev
  show "ready_fired (fst (process_room_pose lm data (c, ev))) = ready_fired c"
    by (auto simp: process_room_pose_def Let_def split: option.splits prod.splits)
  show "\<exists>xs. snd (process_room_pose lm data (c, ev)) = ev @ xs \<and> EvReady \<notin> ev_type ` set xs"
    by (auto simp: process_room_pose_def Let_def split: option.splits prod.splits)
  have u: "operating (c\<lparr>last_room_broadcast_time := t, remote_poses := ps, device_mapping := dm\<rparr>) = operating (c\<lparr>device_mapping := dm\<rparr>)" for t ps dm
    by (simp add: operating_def identity_def)
  assume "operating c"
  then show "operating (fst (process_room_pose lm data (c, ev)))"
    by (auto simp: process_room_pose_def Let_def u split: option.splits prod.splits
        intro!: operating_updates(3) dest: update_presence_identity)
qed

lemma keeps_process_room_objects: "keeps (process_room_objects data)"
  by (rule keepsI) (auto simp: process_room_objects_def handle_room_objects_def Let_def ownership_event_def split: option.splits prod.splits
      intro!: operating_updates(2) dest: room_objects_identity operating_wf)

lemma enqueue_hello_frame:
  "ready_fired (enqueue_hello c) = ready_fired c" "operating (enqueue_hello c) = operating c"
proof -
  have "operating (set_transport t c\<lparr>hello_enqueued := b\<rparr>) = operating c" for t b
    using set_transport_frame(2) [of t c] by (simp add: operating_def identity_def)
  then show "ready_fired (enqueue_hello c) = ready_fired c" "operating (enqueue_hello c) = operating c"
    by (simp_all add: enqueue_hello_def Let_def split: prod.splits)
qed

lemma keeps_if: "keeps f \<Longrightarrow> keeps g \<Longrightarrow> keeps (\<lambda>s. if P s then f s else g s)"
  unfolding keeps_def by (simp split: if_split)

lemma keeps_poll_hello: "keeps (poll_hello now)"
proof -
  define g where "g = (\<lambda>(c, ev :: Event list). (enqueue_hello (c\<lparr>variables := on_connection_established now (variables c)\<rparr>), ev))"
  have g: "keeps g" unfolding g_def
    by (rule keeps_client) (auto simp: enqueue_hello_frame on_connection_established_def intro!: operating_updates(1))
  have h: "keeps (\<lambda>s. if hello_enqueued (fst s) then set_state Synchronizing s else s)"
    by (intro keeps_if keeps_id keeps_set_state) simp
  have "poll_hello now = (\<lambda>s. if conn_state (fst s) = Connected \<and> \<not> hello_enqueued (fst s)
      then (\<lambda>s. if hello_enqueued (fst s) then set_state Synchronizing s else s) (g s) else s)"
    by (simp add: fun_eq_iff poll_hello_def g_def Let_def)
  then show ?thesis using keeps_if [OF keeps_comp [OF g h] keeps_id] by simp
qed

lemma keeps_poll_inbound: "keeps (poll_inbound lm)"
proof -
  let ?take = "\<lambda>c. c\<lparr>control_inbox := [], has_room_pose := False, latest_room_pose := (if has_room_pose c then [] else latest_room_pose c),
               has_room_objects := False, latest_room_objects := (if has_room_objects c then [] else latest_room_objects c)\<rparr>"
  have t: "keeps (\<lambda>(c, ev). (?take c, ev))" by (rule keeps_client) (auto simp: operating_def identity_def)
  have c: "keeps (fold process_control_payload ps)" for ps by (rule keeps_fold) (rule keeps_process_control)
  show ?thesis unfolding keeps_def
  proof (intro allI impI)
    fix c ev c' ev' assume a: "poll_inbound lm (c, ev) = (c', ev')"
    define rp where "rp = (case if has_room_pose c then Some (latest_room_pose c) else None of None \<Rightarrow> (\<lambda>s. s) | Some d \<Rightarrow> process_room_pose lm d)"
    define ro where "ro = (case if has_room_objects c then Some (latest_room_objects c) else None of None \<Rightarrow> (\<lambda>s. s) | Some d \<Rightarrow> process_room_objects d)"
    have k: "keeps rp" "keeps ro" using keeps_id keeps_process_room_pose keeps_process_room_objects by (simp_all add: rp_def ro_def)
    have "ro (fold process_control_payload (control_inbox c) (rp (case (c, ev) of (c, ev) \<Rightarrow> (?take c, ev)))) = (c', ev')"
      using a by (auto simp: poll_inbound_def rp_def ro_def Let_def)
    then show "ready_fired c' = ready_fired c \<and> (\<exists>xs. ev' = ev @ xs \<and> EvReady \<notin> ev_type ` set xs) \<and> (operating c \<longrightarrow> operating c')"
      using keeps_comp [OF keeps_comp [OF keeps_comp [OF t k(1)] c] k(2), of "control_inbox c"] unfolding keeps_def by blast
  qed
qed

lemma operating_wires [simp]: "operating (c\<lparr>wires := w\<rparr>) = operating c"
  by (simp add: operating_def identity_def)

lemma operating_rpc [simp]: "operating (c\<lparr>rpc_manager := m\<rparr>) = operating c"
  by (simp add: operating_def identity_def)

lemma poll_outbound_frame:
  "ready_fired (poll_outbound lm now c) = ready_fired c" "operating c \<Longrightarrow> operating (poll_outbound lm now c)"
proof -
  have v: "ready_fired (tick_variables now c) = ready_fired c" "operating c \<Longrightarrow> operating (tick_variables now c)" for c
    by (auto simp: tick_variables_def Let_def split: prod.splits intro!: operating_updates(1) dest: variables_tick_identity)
  have r: "ready_fired (flush_rpc now c) = ready_fired c" "operating c \<Longrightarrow> operating (flush_rpc now c)" for c
    by (auto simp: flush_rpc_def Let_def split: prod.splits)
  have "operating (set_transport t c\<lparr>local_pose_seq := a, last_pose_send_time := b, last_pose_change_send_time := d,
      last_pose_signature := e, has_last_pose_signature := f\<rparr>) = operating (set_transport t c)"
    "operating (c\<lparr>last_pose_send_time := b\<rparr>) = operating c" for c t a b d e f
    by (simp_all add: operating_def identity_def)
  then have p: "ready_fired (send_local_pose_if_due lm now c) = ready_fired c" "operating c \<Longrightarrow> operating (send_local_pose_if_due lm now c)" for c
    by (auto simp: send_local_pose_if_due_def Let_def split: option.splits)
  have o: "ready_fired (tick_objects now c) = ready_fired c" "operating c \<Longrightarrow> operating (tick_objects now c)" for c
    by (auto simp: tick_objects_def Let_def split: prod.splits intro!: operating_updates(2) dest: objects_tick_identity operating_wf)
  have t: "ready_fired (time_out_sync now c) = ready_fired c" "operating c \<Longrightarrow> operating (time_out_sync now c)" for c
    by (auto simp: time_out_sync_def check_initial_sync_timeout_def Let_def split: prod.splits if_splits intro!: operating_updates(1))
  show "ready_fired (poll_outbound lm now c) = ready_fired c" "operating c \<Longrightarrow> operating (poll_outbound lm now c)"
    by (simp_all add: poll_outbound_def v r p o t)
qed

lemma drain_notifications_keep:
  "fold (drain_notification z) xs ((c, ev), n) = ((c', ev'), n') \<Longrightarrow> ready_fired c' = ready_fired c \<and>
     (\<exists>ys. ev' = ev @ ys \<and> EvReady \<notin> ev_type ` set ys) \<and> (operating c \<longrightarrow> operating c')"
proof (induction xs arbitrary: c ev n)
  case (Cons x xs)
  obtain c1 ev1 n1 where st: "drain_notification z x ((c, ev), n) = ((c1, ev1), n1)" by (metis prod.exhaust)
  have "ready_fired c1 = ready_fired c \<and> (\<exists>ys. ev1 = ev @ ys \<and> EvReady \<notin> ev_type ` set ys) \<and> (operating c \<longrightarrow> operating c1)"
  proof (cases "pn_kind x")
    case KindConnected
    then show ?thesis using st keeps_set_state [of Connected] unfolding keeps_def by (auto simp: drain_notification_def)
  next
    case KindError
    obtain c2 ev2 where s: "set_state Error (c, ev) = (c2, ev2)" by fastforce
    then have "c1 = c2" "ev1 = ev2 @ [(Event_of EvConnectionError)\<lparr>ev_name := pn_text x\<rparr>]"
      using st KindError by (auto simp: drain_notification_def)
    then show ?thesis using s keeps_set_state [of Error] unfolding keeps_def by fastforce
  next
    case KindLog
    then show ?thesis using st by (auto simp: drain_notification_def)
  next
    case KindDiscovered
    let ?c = "c\<lparr>resolved_address := ds_address (pn_server x), discovered_rest_api_port := ds_rest_api_port (pn_server x)\<rparr>"
    have "operating ?c = operating c" by (simp add: operating_def identity_def)
    moreover have "start_transport z (ds_address (pn_server x)) (ds_control_port (pn_server x)) (ds_transform_port (pn_server x))
        (ds_sub_port (pn_server x)) (?c, n) = (c1, n1)" "ev1 = ev @ [discovered_event (pn_server x)]"
      using st KindDiscovered by (auto simp: drain_notification_def Let_def split: prod.splits)
    ultimately show ?thesis using start_transport_frame [of z _ _ _ _ ?c n c1 n1] by (auto simp: discovered_event_def)
  qed
  moreover have "fold (drain_notification z) xs ((c1, ev1), n1) = ((c', ev'), n')" using Cons.prems st by simp
  ultimately show ?case using Cons.IH [of c1 ev1 n1] by auto
qed auto

lemma poll_parts:
  assumes "poll z lm now (c, n) = ((c', ev'), n')" "conn_state c \<noteq> Disconnected"
  obtains c0 ev where "update_ready (poll_outbound lm now c0, ev) = (c', ev')" "ready_fired (poll_outbound lm now c0) = ready_fired c"
    "EvReady \<notin> ev_type ` set ev" "operating c \<longrightarrow> operating (poll_outbound lm now c0)"
proof -
  obtain c1 ev1 n1 where d: "drain_internal_events z ((c, []), n) = ((c1, ev1), n1)" by (metis prod.exhaust)
  obtain c0 ev where i: "poll_inbound lm (poll_hello now (c1, ev1)) = (c0, ev)" by fastforce
  have u: "update_ready (poll_outbound lm now c0, ev) = (c', ev')" using assms d i by (simp add: poll_def)
  have "operating (c\<lparr>wires := w\<rparr>) = operating c" for w by simp
  then have "ready_fired c1 = ready_fired c \<and> EvReady \<notin> ev_type ` set ev1 \<and> (operating c \<longrightarrow> operating c1)"
    using drain_notifications_keep [OF d [unfolded drain_internal_events_def prod.case]] by auto
  moreover have "ready_fired c0 = ready_fired c1 \<and> (\<exists>xs. ev = ev1 @ xs \<and> EvReady \<notin> ev_type ` set xs) \<and> (operating c1 \<longrightarrow> operating c0)"
    using keeps_comp [OF keeps_poll_hello keeps_poll_inbound] i unfolding keeps_def by blast
  ultimately show ?thesis using that [OF u] poll_outbound_frame(1) poll_outbound_frame(2) by (auto simp: image_Un)
qed

lemma update_ready_fields:
  assumes "update_ready (c, ev) = (c', ev')"
  shows "config c' = config c" "wires c' = wires c" "device_mapping c' = device_mapping c" "variables c' = variables c"
    "object_sync c' = object_sync c" "control_inbox c' = control_inbox c"
    "conn_state c' = (if conn_state c = Error \<or> conn_state c = Disconnected then conn_state c
       else if is_ready c then Ready else if conn_state c = Ready then Synchronizing else conn_state c)"
    "ready_fired c' = (if conn_state c = Error \<or> conn_state c = Disconnected then ready_fired c
       else if is_ready c then True else if conn_state c = Ready then False else ready_fired c)"
    "map ev_type ev' = map ev_type ev @
       (if conn_state c = Error \<or> conn_state c = Disconnected then []
        else if is_ready c then (if conn_state c = Ready then [] else [EvConnectionStateChanged]) @ (if ready_fired c then [] else [EvReady])
        else if conn_state c = Ready then [EvConnectionStateChanged] else [])"
  using assms by (simp_all add: update_ready_def set_state_def Let_def split: if_splits) auto

lemma update_ready_cases:
  assumes "update_ready (c, ev) = (c', ev')"
  shows "operating c \<Longrightarrow> operating c'"
    and "conn_state c' \<noteq> Error \<Longrightarrow> conn_state c' \<noteq> Disconnected \<Longrightarrow> conn_state c' = Ready \<longleftrightarrow> is_ready c'"
    and "EvReady \<notin> ev_type ` set ev \<Longrightarrow> conn_state c' \<noteq> Error \<Longrightarrow> conn_state c' \<noteq> Disconnected \<Longrightarrow>
      count_list (map ev_type ev') EvReady = (if is_ready c' \<and> \<not> ready_fired c then 1 else 0)"
    and "conn_state c' = Ready \<Longrightarrow> conn_state c \<noteq> Ready \<or> ready_fired c' = True"
proof -
  note f = update_ready_fields [OF assms]
  have r: "is_ready c' = is_ready c" by (simp add: is_ready_def is_connected_def has_handshake_def f(2,3,4))
  show "operating c \<Longrightarrow> operating c'" unfolding operating_def identity_def f(1-6) by (simp add: f(7))
  show "conn_state c' \<noteq> Error \<Longrightarrow> conn_state c' \<noteq> Disconnected \<Longrightarrow> conn_state c' = Ready \<longleftrightarrow> is_ready c'"
    unfolding r f(7) by (simp split: if_splits)
  have "EvReady \<notin> ev_type ` set ev \<Longrightarrow> count_list (map ev_type ev) EvReady = 0" by (simp add: count_list_0_iff)
  then show "EvReady \<notin> ev_type ` set ev \<Longrightarrow> conn_state c' \<noteq> Error \<Longrightarrow> conn_state c' \<noteq> Disconnected \<Longrightarrow>
      count_list (map ev_type ev') EvReady = (if is_ready c' \<and> \<not> ready_fired c then 1 else 0)"
    unfolding r f(7) f(9) by (simp split: if_splits)
  show "conn_state c' = Ready \<Longrightarrow> conn_state c \<noteq> Ready \<or> ready_fired c' = True"
    unfolding f(7) f(8) by (simp split: if_splits)
qed

lemma poll_operating:
  assumes "poll z lm now (c, n) = ((c', ev), n')" "operating c"
  shows "operating c'"
proof -
  have "conn_state c \<noteq> Disconnected" using assms(2) by (simp add: operating_def)
  from poll_parts [OF assms(1) this] obtain c0 ev0
    where "update_ready (poll_outbound lm now c0, ev0) = (c', ev)" "operating (poll_outbound lm now c0)"
    using assms(2) by metis
  then show ?thesis by (rule update_ready_cases(1))
qed

section \<open>Steps of the client\<close>

text \<open>Connected or not: a client without a connection is idle.\<close>

definition idle :: "NetSyncClient \<Rightarrow> bool" where
  "idle c \<longleftrightarrow> \<not> running (transport (wires c)) \<and> local_client_no (device_mapping c) = 0 \<and>
     \<not> has_received_initial_sync (variables c) \<and> remote_poses c = om_empty \<and> \<not> ready_fired c"

definition client_inv :: "NetSyncClient \<Rightarrow> bool" where
  "client_inv c \<longleftrightarrow> objects_wf (object_sync c) \<and> rate_ok (cfg_transform_send_rate (config c)) \<and> length (control_inbox c) \<le> 4096 \<and>
     (if conn_state c = Disconnected then idle c
      else identity c \<and> client_range (local_client_no (device_mapping c)))"

lemma client_inv_operating: "conn_state c \<noteq> Disconnected \<Longrightarrow> client_inv c = operating c"
  by (auto simp: client_inv_def operating_def)

lemma operating_inv: "operating c \<Longrightarrow> client_inv c"
  by (simp add: client_inv_def operating_def)

text \<open>
  The calls of the host, in any order, and what the other threads do to the client in between: the
  network thread delivers payloads, notifies and changes the transport, the discovery thread notifies
  and changes its own state. They run only between connecting and disconnecting, since stopping joins
  them.
\<close>

inductive client_step :: "'n Zmq \<Rightarrow> libm \<Rightarrow> NetSyncClient \<times> 'n \<Rightarrow> NetSyncClient \<times> 'n \<Rightarrow> bool" for z lm where
  connects: "client_connect z cfg (c, n) = (ok, c', n') \<Longrightarrow> client_step z lm (c, n) (c', n')"
| disconnects: "client_step z lm (c, n) (client_disconnect c, n)"
| polls: "poll z lm now (c, n) = ((c', ev), n') \<Longrightarrow> client_step z lm (c, n) (c', n')"
| receives: "conn_state c \<noteq> Disconnected \<Longrightarrow> client_step z lm (c, n) (handle_payload lane data c, n)"
| notifies: "conn_state c \<noteq> Disconnected \<Longrightarrow> client_step z lm (c, n) (notify x c, n)"
| network: "conn_state c \<noteq> Disconnected \<Longrightarrow> client_step z lm (c, n) (set_transport t c, n')"
| discovers: "conn_state c \<noteq> Disconnected \<Longrightarrow> client_step z lm (c, n) (c\<lparr>discovery := d\<rparr>, n)"
| sets_rate: "client_step z lm (c, n) (set_transform_send_rate rate c, n)"
| sets_pose: "client_step z lm (c, n) (set_local_pose body c, n)"
| clears_pose: "client_step z lm (c, n) (clear_local_pose c, n)"
| calls: "client_step z lm (c, n) (rpc_to_many targets name args c, n)"
| limits: "client_step z lm (c, n) (configure_rpc_rate_limit limit window cooldown c, n)"
| sets_global: "client_step z lm (c, n) (snd (set_global_variable name val c), n)"
| sets_client: "client_step z lm (c, n) (snd (set_client_variable_for target name val c), n)"
| clears_client: "client_step z lm (c, n) (snd (client_clear_my_client_variables c), n)"
| registers: "client_step z lm (c, n) (snd (client_register_object i c), n)"
| unregisters: "client_step z lm (c, n) (client_unregister_object i c, n)"
| submits: "client_step z lm (c, n) (submit_object_pose i pose c, n)"
| requests: "client_step z lm (c, n) (snd (request_object_ownership i c), n)"
| releases: "client_step z lm (c, n) (snd (release_object_ownership i c), n)"

text \<open>What a call of the interface leaves alone.\<close>

definition same_session :: "NetSyncClient \<Rightarrow> NetSyncClient \<Rightarrow> bool" where
  "same_session c c' \<longleftrightarrow> conn_state c' = conn_state c \<and> cfg_device_id (config c') = cfg_device_id (config c) \<and>
     (rate_ok (cfg_transform_send_rate (config c)) \<longrightarrow> rate_ok (cfg_transform_send_rate (config c'))) \<and>
     running (transport (wires c')) = running (transport (wires c)) \<and> device_mapping c' = device_mapping c \<and>
     nv_local_client_no (variables c') = nv_local_client_no (variables c) \<and> nv_local_device_id (variables c') = nv_local_device_id (variables c) \<and>
     has_received_initial_sync (variables c') = has_received_initial_sync (variables c) \<and>
     ob_local_client_no (object_sync c') = ob_local_client_no (object_sync c) \<and> ob_local_device_id (object_sync c') = ob_local_device_id (object_sync c) \<and>
     (objects_wf (object_sync c) \<longrightarrow> objects_wf (object_sync c')) \<and> control_inbox c' = control_inbox c \<and>
     remote_poses c' = remote_poses c \<and> ready_fired c' = ready_fired c"

lemma same_session_inv: "same_session c c' \<Longrightarrow> client_inv c \<Longrightarrow> client_inv c'"
  by (auto simp: same_session_def client_inv_def idle_def identity_def)

lemma monotonic_running: "monotonic_seconds t = (now, t') \<Longrightarrow> running t' = running t"
  by (auto simp: monotonic_seconds_def)

lemma enqueue_running: "enqueue_control data w = (ok, w') \<Longrightarrow> running (transport w') = running (transport w)"
  by (auto simp: enqueue_control_def try_enqueue_control_def monotonic_seconds_def Let_def split: if_splits)

lemma log_running [simp]: "running (transport (log_message client_callbacks message w)) = running (transport w)"
  by (simp add: log_message_def client_callbacks_def push_log_def)

lemma set_value_running: "set_value enc client_callbacks now k v (s, w) = (s', w') \<Longrightarrow> running (transport w') = running (transport w)"
  by (auto simp: set_value_def set_immediate_def try_send_value_def client_callbacks_def Let_def
      split: if_splits option.splits prod.splits dest: enqueue_running)

lemma rate_ok_clamp [simp]: "rate_ok (clamp_rate rate)"
proof -
  have "okey (dlit (1 / 2)) \<le> okey (dlit 60)" "\<not> isnan (dlit (1 / 2))" "\<not> isnan (dlit 60)" by code_simp+
  then show ?thesis by (auto simp: rate_ok_def clamp_rate_def std_min_def std_max_def flt_def fle_def)
qed

lemma drop_overflow_running: "running (transport (snd (drop_overflow client_callbacks (m, w)))) = running (transport w)"
proof (induction "length (rpc_pending m)" arbitrary: m w)
  case (Suc n)
  then show ?case by (subst drop_overflow.simps) (simp del: drop_overflow.simps)
qed (subst drop_overflow.simps, simp add: kMaxPendingRpc_def)

lemma try_send_now_running:
  assumes "try_send_now client_callbacks now no dev ts f args (m, w) = (ok, m', w')"
  shows "running (transport w') = running (transport w)"
proof -
  obtain g r k m1 where q: "try_consume_quota now m = (g, r, k, m1)" by (metis prod_cases4)
  show ?thesis
  proof (cases g)
    case True
    then show ?thesis using assms q unfolding try_send_now_def
      by (auto simp: client_callbacks_def log_message_def push_log_def Let_def split: sum.splits if_splits prod.splits dest: enqueue_running)
  next
    case False
    then show ?thesis using assms q unfolding try_send_now_def
      by (auto simp: note_rate_limited_def Let_def split: if_splits)
  qed
qed

lemma rpc_send_running:
  "rpc_send client_callbacks now rdy no dev ts f args (m, w) = (m', w') \<Longrightarrow> running (transport w') = running (transport w)"
  unfolding rpc_send_def using drop_overflow_running try_send_now_running
  by (auto simp del: drop_overflow.simps split: if_splits) (metis snd_conv surjective_pairing)+

lemma session_rpc: "same_session c (rpc_to_many ts f args c)"
  by (auto simp: rpc_to_many_def same_session_def set_transport_def Let_def split: prod.splits
      dest!: monotonic_running rpc_send_running)

lemma session_globals: "same_session c (snd (set_global_variable name val c))"
  by (auto simp: set_global_variable_def set_global_def same_session_def set_transport_def Let_def split: prod.splits if_splits
      dest!: monotonic_running set_value_running)

lemma session_clients: "same_session c (snd (set_client_variable_for target name val c))"
  by (auto simp: set_client_variable_for_def set_client_def same_session_def set_transport_def Let_def split: prod.splits if_splits
      dest!: monotonic_running set_value_running)

lemma session_clear: "same_session c (snd (client_clear_my_client_variables c))"
  by (auto simp: client_clear_my_client_variables_def clear_my_client_variables_def clear_pending_for_client_def same_session_def
      client_callbacks_def Let_def split: prod.splits if_splits option.splits dest!: enqueue_running)

lemma session_objects:
  "same_session c (snd (client_register_object i c))" "same_session c (client_unregister_object i c)"
  "same_session c (submit_object_pose i pose c)"
  by (auto simp: client_register_object_def register_object_def client_unregister_object_def unregister_object_def
      submit_object_pose_def submit_local_pose_def same_session_def objects_wf_def object_callbacks_def Let_def
      split: prod.splits if_splits option.splits)

lemma session_ownership:
  "same_session c (snd (request_object_ownership i c))" "same_session c (snd (release_object_ownership i c))"
  by (auto simp: request_object_ownership_def request_ownership_def release_object_ownership_def release_ownership_def
      send_ownership_request_def same_session_def object_callbacks_def client_callbacks_def
      split: prod.splits if_splits dest!: enqueue_running)

lemma session_settings:
  "same_session c (set_transform_send_rate rate c)" "same_session c (set_local_pose body c)" "same_session c (clear_local_pose c)"
  "same_session c (configure_rpc_rate_limit limit window cooldown c)"
  by (simp_all add: set_transform_send_rate_def set_local_pose_def clear_local_pose_def configure_rpc_rate_limit_def same_session_def)

lemmas sessions = session_rpc session_globals session_clients session_clear session_objects session_ownership session_settings
lemmas session_inv = sessions [THEN same_session_inv]

lemma transport_stop_running [simp]: "\<not> running (transport_stop t)"
  by (simp add: transport_stop_def Let_def)

lemma disconnect_inv:
  assumes "client_inv c" shows "client_inv (client_disconnect c)"
proof -
  have "objects_wf (clear_room_scoped_state ob) = objects_wf ob" for ob
    by (simp add: objects_wf_def clear_room_scoped_state_def om_find_map)
  then show ?thesis using assms
    by (simp add: client_inv_def idle_def client_disconnect_def reset_session_state_def stop_threads_def set_transport_def
        set_local_device_id_def mapping_clear_def variables_clear_all_def reset_initial_sync_def clear_pending_sends_def)
qed

lemma operating_begin: "client_inv c \<Longrightarrow> operating (begin_session cfg c)"
  by (simp add: begin_session_def client_inv_def operating_def identity_def reset_session_state_def stop_threads_def set_transport_def
      set_local_device_id_def mapping_clear_def variables_clear_all_def reset_initial_sync_def clear_pending_sends_def
      set_variable_identity_def set_object_identity_def objects_wf_def clear_room_scoped_state_def om_find_map client_range_def Let_def)

lemma connect_inv:
  assumes "client_connect z cfg (c, n) = (ok, c', n')" "client_inv c"
  shows "client_inv c'"
proof (cases "conn_state c \<noteq> Disconnected \<and> conn_state c \<noteq> Error")
  case True
  then show ?thesis using assms by (simp add: client_connect_def)
next
  case False
  define b where "b = begin_session cfg c"
  have "operating (b\<lparr>resolved_address := x\<rparr>)" "operating (b\<lparr>conn_state := Error\<rparr>)" "operating (b\<lparr>discovery := d\<rparr>)"
    "operating (b\<lparr>discovery := d, conn_state := Error\<rparr>)" for x d
    using operating_begin [OF assms(2), of cfg] by (simp_all add: b_def operating_def identity_def)
  note op = this
  have "operating c'"
  proof (cases "cfg_server_address (config b) = []")
    case True
    then show ?thesis using assms(1) False op
      by (auto simp: client_connect_def b_def [symmetric] Let_def split: if_splits prod.splits)
  next
    case address: False
    then have "start_transport z (cfg_server_address (config b)) (cfg_control_port (config b)) (cfg_transform_port (config b))
        (cfg_sub_port (config b)) (b\<lparr>resolved_address := cfg_server_address (config b)\<rparr>, n) = (c', n')"
      using assms(1) False by (simp add: client_connect_def b_def [symmetric] Let_def)
    from start_transport_frame(2) [OF this] op(1) show ?thesis by blast
  qed
  then show ?thesis by (rule operating_inv)
qed

lemma handle_payload_operating: "operating c \<Longrightarrow> operating (handle_payload lane data c)"
  by (auto simp: handle_payload_def operating_def identity_def kControlInboxMax_def Let_def split: TransportLane.split)

lemma poll_inv:
  assumes "poll z lm now (c, n) = ((c', ev), n')" "client_inv c"
  shows "client_inv c'"
proof (cases "conn_state c = Disconnected")
  case True
  then show ?thesis using assms by (simp add: poll_def)
next
  case False
  then show ?thesis using poll_operating [OF assms(1)] assms(2) client_inv_operating operating_inv by simp
qed

lemma environment_inv:
  assumes "client_inv c" "conn_state c \<noteq> Disconnected"
  shows "client_inv (handle_payload lane data c)" "client_inv (notify x c)" "client_inv (set_transport t c)" "client_inv (c\<lparr>discovery := d\<rparr>)"
proof -
  have o: "operating c" using assms client_inv_operating by simp
  then have "operating (c\<lparr>discovery := d\<rparr>)" by (simp add: operating_def identity_def)
  then show "client_inv (handle_payload lane data c)" "client_inv (notify x c)" "client_inv (set_transport t c)" "client_inv (c\<lparr>discovery := d\<rparr>)"
    using o handle_payload_operating by (simp_all add: operating_inv)
qed

lemma client_step_inv: "client_step z lm s s' \<Longrightarrow> client_inv (fst s) \<Longrightarrow> client_inv (fst s')"
  by (induction rule: client_step.induct)
    (auto intro: connect_inv poll_inv disconnect_inv environment_inv session_inv)

lemma initial_inv: "client_inv (NetSyncClient_init clock)"
  by (simp add: client_inv_def idle_def NetSyncClient_init_def objects_wf_def ObjectSyncManager_init_def ZmqTransport_init_def
      DeviceMapping_init_def NetworkVariableManager_init_def ClientConfig_default_def rate_ok_def) code_simp

text \<open>C1. In every state the client reaches, whatever the host calls and whatever the threads deliver in
  between: the inbox holds at most 4096 payloads, the send rate lies between 0.5 and 60, object 0 is
  not registered; a disconnected client is idle (no transport, no number, not synchronised, no remote
  poses); and otherwise the device mapping, the variables and the objects agree on the client number,
  which fits 16 bits, and on the configured device id.\<close>

theorem reachable_client_inv:
  assumes "(client_step z lm)\<^sup>*\<^sup>* (NetSyncClient_init clock, n) (c, n')"
  shows "client_inv c"
proof -
  have "client_inv (fst (c, n'))" using assms
    by (induction rule: rtranclp_induct) (simp_all add: initial_inv client_step_inv)
  then show ?thesis by simp
qed

definition empty_net :: loop_net where
  "empty_net = \<lparr>wire = \<lambda>_. [], opened = [], inbox = \<lambda>_. []\<rparr>"

theorem reachable_client_inv_witness:
  "client_inv (set_local_pose ClientPoseBody_default
     (fst (snd (client_connect accepting_zmq ClientConfig_default (NetSyncClient_init (\<lambda>_. dlit 1), empty_net)))))"
proof -
  let ?s = "(NetSyncClient_init (\<lambda>_. dlit 1), empty_net)"
  obtain ok c n where e: "client_connect accepting_zmq ClientConfig_default ?s = (ok, c, n)" by (metis prod_cases3)
  have "client_step accepting_zmq lm ?s (c, n)" "client_step accepting_zmq lm (c, n) (set_local_pose ClientPoseBody_default c, n)" for lm
    using e by (auto intro: client_step.intros)
  then have "(client_step accepting_zmq lm)\<^sup>*\<^sup>* ?s (set_local_pose ClientPoseBody_default c, n)" for lm
    by (meson rtranclp.rtrancl_refl rtranclp.rtrancl_into_rtrancl)
  from reachable_client_inv [OF this] show ?thesis by (simp add: e)
qed

end
