(* ===== verification/Utf8.thy ===== *)
theory Utf8
  imports Binary_IO
begin

text \<open>
  The two UTF-8 truncations of \<open>binary_writer.cpp\<close> against their specification: on a string that is
  a sequence of encoded characters, the result is a prefix of whole characters, cut after the
  given number of characters or at the last boundary that fits the given number of bytes.
\<close>

section \<open>Truncation at character boundaries\<close>

text \<open>One encoded character: a byte that is not a continuation byte, then continuation bytes.\<close>

fun utf8_char :: "string \<Rightarrow> bool" where
  "utf8_char [] \<longleftrightarrow> False"
| "utf8_char (c # cs) \<longleftrightarrow> \<not> is_continuation c \<and> list_all is_continuation cs"

lemma utf8_char_cases:
  assumes "utf8_char c"
  obtains h t where "c = h # t" "\<not> is_continuation h" "list_all is_continuation t"
  using assms by (cases c) auto

declare truncate_loop.simps [simp del]

lemma truncate_loop_skip:
  assumes "list_all is_continuation t" "drop i s = t @ r"
  shows "truncate_loop s m cp i = truncate_loop s m cp (i + length t)"
  using assms
proof (induction t arbitrary: i)
  case Nil
  then show ?case by simp
next
  case (Cons c t)
  have i: "i < length s" using Cons.prems(2) by (cases "i < length s") simp_all
  then have c: "s ! i = c" "drop (i + 1) s = t @ r"
    using Cons.prems(2) by (auto simp: Cons_nth_drop_Suc [symmetric])
  then show ?case
    using i Cons.prems(1) Cons.IH [of "i + 1"] by (subst truncate_loop.simps) simp
qed

lemma truncate_loop_chars:
  assumes "list_all utf8_char cs" "drop i s = concat cs" "i \<le> length s" "cp \<le> m"
  shows "truncate_loop s m cp i = take i s @ concat (take (m - cp) cs)"
  using assms
proof (induction cs arbitrary: i cp)
  case Nil
  then show ?case by (subst truncate_loop.simps) simp
next
  case (Cons c cs)
  obtain h t where c: "c = h # t" "\<not> is_continuation h" "list_all is_continuation t"
    using Cons.prems(1) by (auto elim: utf8_char_cases)
  have i: "i < length s" using Cons.prems(2) c(1) by (cases "i < length s") simp_all
  have h: "s ! i = h" "drop (i + 1) s = t @ concat cs"
    using Cons.prems(2) i c(1) by (auto simp: Cons_nth_drop_Suc [symmetric])
  show ?case
  proof (cases "cp = m")
    case True
    then show ?thesis using i h c by (subst truncate_loop.simps) simp
  next
    case False
    have j: "drop (i + 1 + length t) s = concat cs" using h(2) by (metis append_eq_conv_conj drop_drop add.commute)
    have "length (drop (i + 1) s) = length t + length (concat cs)" by (simp only: h(2) length_append)
    then have l: "i + 1 + length t \<le> length s" using i by simp
    have "truncate_loop s m cp i = truncate_loop s m (cp + 1) (i + 1)"
      using i h c False by (subst truncate_loop.simps) simp
    also have "\<dots> = truncate_loop s m (cp + 1) (i + 1 + length t)"
      by (rule truncate_loop_skip [OF c(3) h(2)])
    also have "\<dots> = take (i + 1 + length t) s @ concat (take (m - (cp + 1)) cs)"
      using Cons.IH [OF _ j l] Cons.prems(1,4) False by simp
    also have "take (i + 1 + length t) s = take i s @ c"
      using take_add [of i "length c" s] Cons.prems(2) c(1) by simp
    finally show ?thesis using False Cons.prems(4) by (simp add: take_Cons' )
  qed
qed

lemma truncate_utf8_code_points_chars:
  "list_all utf8_char cs \<Longrightarrow> truncate_utf8_code_points (concat cs) n = concat (take n cs)"
  unfolding truncate_utf8_code_points_def by (subst truncate_loop_chars [of cs]) simp_all

lemma walk_back_char:
  assumes "\<not> is_continuation h" "list_all is_continuation t" "s = pre @ (h # t) @ post"
  shows "k \<le> length t \<Longrightarrow> walk_back s (length pre + k) = length pre"
proof (induction k)
  case 0
  show ?case using assms by (cases pre) (simp_all add: nth_append)
next
  case (Suc k)
  have "s ! (length pre + Suc k) = t ! k" using Suc.prems assms(3) by (simp add: nth_append)
  then have "is_continuation (s ! Suc (length pre + k))" using Suc.prems assms(2) by (simp add: list_all_length)
  then show ?case using Suc by simp
qed

lemma char_at:
  assumes "list_all utf8_char cs" "n < length (concat cs)"
  obtains k where "k < length cs" "length (concat (take k cs)) \<le> n" "n < length (concat (take (Suc k) cs))"
proof -
  define k where "k = (LEAST k. n < length (concat (take (Suc k) cs)))"
  have ex: "n < length (concat (take (Suc (length cs)) cs))" using assms(2) by simp
  have u: "n < length (concat (take (Suc k) cs))" unfolding k_def by (rule LeastI [of _ "length cs"]) (rule ex)
  have l: "length (concat (take k cs)) \<le> n"
  proof (cases k)
    case 0
    then show ?thesis by simp
  next
    case (Suc j)
    then have "\<not> n < length (concat (take (Suc j) cs))" using not_less_Least [of j] unfolding k_def by (metis lessI)
    then show ?thesis using Suc by simp
  qed
  have "k < length cs"
  proof (rule ccontr)
    assume "\<not> k < length cs"
    then have "take (Suc k) cs = take k cs" by simp
    then show False using u l by simp
  qed
  from this l u show thesis by (rule that)
qed

lemma truncate_utf8_bytes_chars:
  assumes "list_all utf8_char cs"
  shows "\<exists>k \<le> length cs. truncate_utf8_bytes (concat cs) n = concat (take k cs) \<and>
    length (concat (take k cs)) \<le> n \<and> (k < length cs \<longrightarrow> n < length (concat (take (Suc k) cs)))"
proof (cases "length (concat cs) \<le> n")
  case True
  then show ?thesis by (intro exI [of _ "length cs"]) simp
next
  case False
  then obtain k where k: "k < length cs" "length (concat (take k cs)) \<le> n" "n < length (concat (take (Suc k) cs))"
    using char_at [OF assms, of n] by auto
  let ?pre = "concat (take k cs)"
  have cs: "cs = take k cs @ cs ! k # drop (Suc k) cs" using k(1) by (rule id_take_nth_drop)
  have "utf8_char (cs ! k)" using assms k(1) by (simp add: list_all_length)
  then obtain h t where c: "cs ! k = h # t" "\<not> is_continuation h" "list_all is_continuation t"
    by (rule utf8_char_cases)
  have s: "concat cs = ?pre @ (h # t) @ concat (drop (Suc k) cs)" by (subst cs) (simp add: c(1))
  have "length (concat (take (Suc k) cs)) = length ?pre + Suc (length t)"
    using k(1) c(1) by (simp add: take_Suc_conv_app_nth)
  then have "walk_back (concat cs) n = length ?pre"
    using walk_back_char [OF c(2,3) s, of "n - length ?pre"] k(2,3) by simp
  then have "truncate_utf8_bytes (concat cs) n = ?pre"
    using False by (simp add: truncate_utf8_bytes_def s)
  with k show ?thesis by (intro exI [of _ k]) simp
qed

lemma truncate_loop_short: "cp + (length s - i) \<le> m \<Longrightarrow> truncate_loop s m cp i = s"
proof (induction s m cp i rule: truncate_loop.induct)
  case (1 s m cp i)
  show ?case
  proof (cases "i < length s")
    case True
    then show ?thesis using 1 by (subst truncate_loop.simps) auto
  next
    case False
    then show ?thesis by (subst truncate_loop.simps) simp
  qed
qed

lemma truncate_utf8_code_points_short [simp]: "length s \<le> n \<Longrightarrow> truncate_utf8_code_points s n = s"
  by (simp add: truncate_utf8_code_points_def truncate_loop_short)

text \<open>C15. Truncation never splits a character: on a sequence of encoded characters the code-point
  truncation keeps exactly the first \<open>n\<close> characters, and the byte truncation keeps the longest
  prefix of whole characters that fits into \<open>n\<close> bytes.\<close>

theorem utf8_truncation_whole_characters:
  assumes "list_all utf8_char cs"
  shows "truncate_utf8_code_points (concat cs) n = concat (take n cs) \<and>
    (\<exists>k \<le> length cs. truncate_utf8_bytes (concat cs) n = concat (take k cs) \<and>
      length (concat (take k cs)) \<le> n \<and> (k < length cs \<longrightarrow> n < length (concat (take (Suc k) cs))))"
  using truncate_utf8_code_points_chars [OF assms] truncate_utf8_bytes_chars [OF assms] by blast

theorem utf8_truncation_whole_characters_witness:
  "let cs = [[CHR ''a''], [CHR 0xC3, CHR 0xA9], [CHR ''b'']] in
   truncate_utf8_code_points (concat cs) 2 = concat (take 2 cs) \<and>
    (\<exists>k \<le> length cs. truncate_utf8_bytes (concat cs) 2 = concat (take k cs) \<and>
      length (concat (take k cs)) \<le> 2 \<and> (k < length cs \<longrightarrow> 2 < length (concat (take (Suc k) cs))))"
  unfolding Let_def by (rule utf8_truncation_whole_characters) code_simp

end
