(* ===== verification/Protocol_Codec.thy ===== *)
theory Protocol_Codec
  imports Protocol_V8 Utf8
begin

text \<open>
  What the serialisers and deserialisers of \<open>protocol_v8.cpp\<close> promise each other. Each
  \<open>received_...\<close> definition says what the receiver sees of a message: strings cut at their
  limits, coordinates moved to the quantisation grid, quaternions through the smallest-three
  codec, flags sanitised. The element codecs instantiate \<open>record_codec\<close>, the messages
  instantiate \<open>message_codec\<close>; the properties at the end are facts of those interpretations.
\<close>

section \<open>Rules for the shapes the deserialisers have\<close>

lemma decodes_bind_u8: "decodes (f b) bs v \<Longrightarrow> decodes (State_Monad.bind read_u8 f) (b # bs) v"
  using decodes_bind [OF decodes_u8, of f b bs v] by simp

lemma decodes_bind_nil: "decodes m bs v \<Longrightarrow> decodes (f v) [] w \<Longrightarrow> decodes (State_Monad.bind m f) bs w"
  using decodes_bind [of m bs v f "[]" w] by simp

lemma decodes_bind_finish:
  "decodes m bs v \<Longrightarrow> decodes (State_Monad.bind m (\<lambda>x. finish (f x))) bs (Some (f v))"
  by (erule decodes_bind_nil) (rule decodes_finish)

lemma decodes_bind_ok_return:
  "decodes m bs v \<Longrightarrow>
     decodes (State_Monad.bind m (\<lambda>x. unless_ok (State_Monad.return (Some (f x))))) bs (Some (f v))"
  by (erule decodes_bind_nil) (rule decodes_unless_ok [OF decodes_return])

lemma decodes_case_Some:
  "decodes (b x) bs v \<Longrightarrow> decodes (case Some x of None \<Rightarrow> a | Some y \<Rightarrow> b y) bs v"
  by simp

lemma decodes_sent_string8:
  "decodes read_string8 (enc_string8 (truncate_utf8_bytes s 255)) (truncate_utf8_bytes s 255)"
  by (intro decodes_string8 length_truncate_utf8_bytes)

lemma decodes_sent_string16: "decodes read_string16 (enc_string16 (string16_sent s)) (string16_sent s)"
  by (intro decodes_string16 length_string16_sent)

lemma checked_case_prod [checked_intros]:
  "(\<And>a b. checked (f a b)) \<Longrightarrow> checked (case p of (a, b) \<Rightarrow> f a b)"
  by (cases p) simp

lemma checked_map [checked_intros]:
  "checked m \<Longrightarrow> checked (State_Monad.bind m (\<lambda>x. State_Monad.return (map_option g x)))"
  unfolding checked_def by (auto simp: case_prod_unfold intro!: stable_intros)

lemma read_entries_latched:
  assumes "checked rd" "rwf r" "r_ok r" "\<not> r_ok (snd (run_state (read_entries n rd) r))"
  shows "fst (run_state (read_entries n rd) r) = None"
  using assms(2-4)
proof (induction n arbitrary: r)
  case 0
  then show ?case by simp
next
  case (Suc n)
  obtain v s where rd: "run_state rd r = (v, s)" by fastforce
  have s: "rwf s" using stableD(1) [OF checked_stable [OF assms(1)] Suc.prems(1)] by (simp add: rd)
  have v: "\<not> r_ok s \<Longrightarrow> v = None" using assms(1) Suc.prems(1) rd unfolding checked_def by (metis fst_conv snd_conv)
  show ?case
    using Suc.IH [OF s] Suc.prems(3) v by (auto simp: rd case_prod_unfold split: option.splits)
qed

lemma stable_read_entries [stable_intros]: "checked rd \<Longrightarrow> stable (read_entries n rd)"
  by (induction n) (auto intro!: stable_intros intro: checked_stable)

lemma checked_entries_map [checked_intros]:
  assumes "checked rd"
  shows "checked (unless_ok (State_Monad.bind (read_entries n rd) (\<lambda>x. State_Monad.return (map_option g x))))"
proof -
  have "stable (unless_ok (State_Monad.bind (read_entries n rd) (\<lambda>x. State_Monad.return (map_option g x))))"
    unfolding unless_ok_def using assms by (intro stable_intros)
  then show ?thesis
    using read_entries_latched [OF assms, of _ n] unfolding checked_def
    by (auto simp: unless_ok_def case_prod_unfold)
qed

section \<open>The interface of a message\<close>

text \<open>
  What the serialiser and the deserialiser of one message promise each other: the layout of the
  message, that its body is decoded to what the receiver is meant to see for every message that
  fits the wire, and that the body reader reports latched failures. The round trip in the
  presence of trailing bytes, the rejection of every truncated message and the rejection of
  every other message type follow.
\<close>

locale message_codec =
  fixes ser :: "'m \<Rightarrow> bytes"
    and message_type :: u8
    and has_version :: bool
    and body :: "(reader, 'n option) state"
    and enc_body :: "'m \<Rightarrow> bytes"
    and received :: "'m \<Rightarrow> 'n"
    and fits :: "'m \<Rightarrow> bool"
  assumes layout: "ser m = message_type # (if has_version then [kProtocolVersion] else []) @ enc_body m"
    and reads_body: "fits m \<Longrightarrow> decodes body (enc_body m) (Some (received m))"
    and body_checked: "checked body"
begin

lemma begin_decodes:
  "decodes (begin_message message_type has_version)
     (message_type # (if has_version then [kProtocolVersion] else [])) True"
proof -
  have ok: "decodes reader_ok [] True" by (simp add: decodes_def)
  show ?thesis unfolding begin_message_def
    by (cases has_version) (auto intro!: decodes_bind_u8 ok)
qed

lemma program_decodes: "fits m \<Longrightarrow> decodes (message_program message_type has_version body) (ser m) (Some (received m))"
proof -
  assume "fits m"
  then have "decodes (message_program message_type has_version body)
      ((message_type # (if has_version then [kProtocolVersion] else [])) @ enc_body m) (Some (received m))"
    unfolding message_program_def by (intro decodes_bind [OF begin_decodes]) (simp add: reads_body)
  then show ?thesis by (simp add: layout)
qed

lemma program_checked: "checked (message_program message_type has_version body)"
proof -
  have "stable (begin_message message_type has_version)"
    unfolding begin_message_def by (intro stable_intros)
  then show ?thesis unfolding message_program_def by (intro checked_intros body_checked)
qed

lemma roundtrip:
  "fits m \<Longrightarrow> length (ser m @ t) < 2 ^ 64 \<Longrightarrow>
     message_body message_type has_version body (ser m @ t) = Some (received m)"
  unfolding message_body_def by (intro run_reader_decodes program_decodes)

lemma prefix_rejected:
  "fits m \<Longrightarrow> ser m = p @ e \<Longrightarrow> e \<noteq> [] \<Longrightarrow> length (ser m) < 2 ^ 64 \<Longrightarrow>
     message_body message_type has_version body p = None"
  unfolding message_body_def
  by (rule run_reader_prefix [OF program_checked, of p e]) (use program_decodes [of m] in auto)

lemma cut_rejected:
  "e \<noteq> [] \<Longrightarrow> length (p @ e) < 2 ^ 64 \<Longrightarrow>
     \<forall>m. fits m \<and> ser m = p @ e \<longrightarrow> message_body message_type has_version body p = None"
  using prefix_rejected [of _ p e] by auto

lemma other_type_rejected:
  assumes "t \<noteq> message_type" "length (t # ts) < 2 ^ 64"
  shows "message_body message_type has_version body (t # ts) = None"
proof -
  have "run_state read_u8 (mk_reader (t # ts)) = (t, adv 1 (mk_reader (t # ts)))"
    using assms(2) by (intro run_read_u8) simp_all
  then show ?thesis using assms(1)
    by (simp add: message_body_def message_program_def run_reader_def begin_message_def)
qed

end

section \<open>The pose body\<close>

text \<open>What the receiver sees of a coordinate and of a quaternion.\<close>

definition grid16 :: "double \<Rightarrow> double \<Rightarrow> double" where
  "grid16 v s = dequantize_signed (scast (quantize_signed v s)) s"

definition grid24 :: "double \<Rightarrow> double \<Rightarrow> double" where
  "grid24 v s = dequantize_signed (quantize_signed_int24 v s) s"

definition grid16_vec :: "Vec3 \<Rightarrow> double \<Rightarrow> Vec3" where
  "grid16_vec v s = Vec3 (grid16 (x_of v) s) (grid16 (y_of v) s) (grid16 (z_of v) s)"

definition grid24_vec :: "Vec3 \<Rightarrow> Vec3" where
  "grid24_vec v = Vec3 (grid24 (x_of v) kAbsPosScale) (grid24 (y_of v) kAbsPosScale) (grid24 (z_of v) kAbsPosScale)"

definition grid_quat :: "Quat \<Rightarrow> Quat" where
  "grid_quat q = decompress_quaternion_smallest_three (compress_quaternion_smallest_three q)"

definition vec_add :: "Vec3 \<Rightarrow> Vec3 \<Rightarrow> Vec3" where
  "vec_add a b = Vec3 (fadd (x_of a) (x_of b)) (fadd (y_of a) (y_of b)) (fadd (z_of a) (z_of b))"

definition vec_sub :: "Vec3 \<Rightarrow> Vec3 \<Rightarrow> Vec3" where
  "vec_sub a b = Vec3 (fsub (x_of a) (x_of b)) (fsub (y_of a) (y_of b)) (fsub (z_of a) (z_of b))"

definition received_relative :: "PoseTransform \<Rightarrow> PoseTransform \<Rightarrow> PoseTransform \<Rightarrow> PoseTransform" where
  "received_relative seen_head head t =
     \<lparr>pt_position = vec_add (pt_position seen_head)
        (grid16_vec (vec_sub (pt_position t) (pt_position head)) kRelPosScale),
      pt_rotation = normalize_quaternion (quaternion_multiply (pt_rotation seen_head)
        (grid_quat (quaternion_multiply (quaternion_inverse (normalize_quaternion (pt_rotation head)))
          (normalize_quaternion (pt_rotation t)))))\<rparr>"

definition received_head :: "u8 \<Rightarrow> ClientPoseBody \<Rightarrow> PoseTransform" where
  "received_head flags body =
     (if flags AND POSE_FLAG_HEAD_VALID \<noteq> 0 then
        \<lparr>pt_position = grid24_vec (pt_position (pb_head body)),
         pt_rotation = grid_quat (normalize_quaternion (pt_rotation (pb_head body)))\<rparr>
      else PoseTransform_default)"

definition received_pose_body :: "libm \<Rightarrow> ClientPoseBody \<Rightarrow> ClientPoseBody" where
  "received_pose_body lm body =
     (let flags = sanitize_pose_flags (pb_flags body);
          pv = flags AND POSE_FLAG_PHYSICAL_VALID \<noteq> 0;
          hv = flags AND POSE_FLAG_HEAD_VALID \<noteq> 0;
          mf = flags AND POSE_FLAG_MOVING_FLOOR_LOCAL \<noteq> 0;
          seen_head = received_head flags body;
          seen = received_relative seen_head (pb_head body);
          delta = (if pv \<and> \<not> mf then grid16_vec (pb_xr_origin_delta_position body) kLocoPosScale else Vec3_default);
          dyaw = (if pv \<and> \<not> mf then grid16 (pb_xr_origin_delta_yaw body) kPhysicalYawScale else dlit 0)
      in \<lparr>pb_pose_seq = pb_pose_seq body, pb_flags = flags, pb_encoding_flags = compute_encoding_flags flags,
          pb_xr_origin_delta_position = delta, pb_xr_origin_delta_yaw = dyaw,
          pb_physical =
            (if pv \<and> mf then
               \<lparr>pt_position = grid16_vec (pt_position (pb_physical body)) kLocoPosScale,
                pt_rotation = yaw_degrees_to_quaternion lm
                  (grid16 (quaternion_to_yaw_degrees lm (pt_rotation (pb_physical body))) kPhysicalYawScale)\<rparr>
             else if pv \<and> hv then
               \<lparr>pt_position = rotate_yaw_vector lm (vec_sub (pt_position seen_head) delta) (fneg dyaw),
                pt_rotation = yaw_degrees_to_quaternion lm (normalize_yaw_degrees
                  (fsub (quaternion_to_yaw_degrees lm (pt_rotation seen_head)) dyaw))\<rparr>
             else PoseTransform_default),
          pb_head = seen_head,
          pb_right_hand = (if hv \<and> flags AND POSE_FLAG_RIGHT_VALID \<noteq> 0 then seen (pb_right_hand body) else PoseTransform_default),
          pb_left_hand = (if hv \<and> flags AND POSE_FLAG_LEFT_VALID \<noteq> 0 then seen (pb_left_hand body) else PoseTransform_default),
          pb_virtuals = (if hv \<and> flags AND POSE_FLAG_VIRTUALS_VALID \<noteq> 0
            then map seen (take kMaxVirtualTransforms (pb_virtuals body)) else [])\<rparr>)"

definition enc_relative :: "PoseTransform \<Rightarrow> PoseTransform \<Rightarrow> bytes" where
  "enc_relative head t =
     (let d = vec_sub (pt_position t) (pt_position head) in
      enc_u16 (quantize_signed (x_of d) kRelPosScale) @ enc_u16 (quantize_signed (y_of d) kRelPosScale) @
      enc_u16 (quantize_signed (z_of d) kRelPosScale) @
      enc_u32 (compress_quaternion_smallest_three (quaternion_multiply
        (quaternion_inverse (normalize_quaternion (pt_rotation head))) (normalize_quaternion (pt_rotation t)))))"

definition enc_quad :: "Vec3 \<Rightarrow> double \<Rightarrow> bytes" where
  "enc_quad v yaw = enc_u16 (quantize_signed (x_of v) kLocoPosScale) @ enc_u16 (quantize_signed (y_of v) kLocoPosScale) @
     enc_u16 (quantize_signed (z_of v) kLocoPosScale) @ enc_u16 (quantize_signed yaw kPhysicalYawScale)"

definition enc_head :: "PoseTransform \<Rightarrow> bytes" where
  "enc_head head = enc_i24 (quantize_signed_int24 (x_of (pt_position head)) kAbsPosScale) @
     enc_i24 (quantize_signed_int24 (y_of (pt_position head)) kAbsPosScale) @
     enc_i24 (quantize_signed_int24 (z_of (pt_position head)) kAbsPosScale) @
     enc_u32 (compress_quaternion_smallest_three (normalize_quaternion (pt_rotation head)))"

definition sent_virtuals :: "u8 \<Rightarrow> ClientPoseBody \<Rightarrow> PoseTransform list" where
  "sent_virtuals flags body =
     (if flags AND POSE_FLAG_HEAD_VALID \<noteq> 0 \<and> flags AND POSE_FLAG_VIRTUALS_VALID \<noteq> 0
      then take kMaxVirtualTransforms (pb_virtuals body) else [])"

definition enc_pose_body :: "libm \<Rightarrow> ClientPoseBody \<Rightarrow> bytes" where
  "enc_pose_body lm body =
     (let flags = sanitize_pose_flags (pb_flags body);
          hv = flags AND POSE_FLAG_HEAD_VALID \<noteq> 0;
          rel = enc_relative (pb_head body)
      in enc_u16 (pb_pose_seq body) @ flags # compute_encoding_flags flags #
         (if flags AND POSE_FLAG_PHYSICAL_VALID \<noteq> 0 then
            (if flags AND POSE_FLAG_MOVING_FLOOR_LOCAL \<noteq> 0
             then enc_quad (pt_position (pb_physical body)) (quaternion_to_yaw_degrees lm (pt_rotation (pb_physical body)))
             else enc_quad (pb_xr_origin_delta_position body) (pb_xr_origin_delta_yaw body))
          else []) @
         (if hv then enc_head (pb_head body) else []) @
         (if hv \<and> flags AND POSE_FLAG_RIGHT_VALID \<noteq> 0 then rel (pb_right_hand body) else []) @
         (if hv \<and> flags AND POSE_FLAG_LEFT_VALID \<noteq> 0 then rel (pb_left_hand body) else []) @
         word_of_nat (length (sent_virtuals flags body)) # concat (map rel (sent_virtuals flags body)))"

lemma write_relative_bytes [wire_defs]:
  "write_relative (pt_position head) (quaternion_inverse (normalize_quaternion (pt_rotation head))) t =
     write_bytes (enc_relative head t)"
  by (simp add: write_relative_def enc_relative_def vec_sub_def wire_defs Let_def)

lemma write_if_bytes [wire_defs]: "write_if c (write_bytes b) = write_bytes (if c then b else [])"
  by (auto simp: write_if_def write_bytes_def State_Monad.return_def)

lemma foreach_write_bytes: "foreach xs (\<lambda>x. write_bytes (f x)) = write_bytes (concat (map f xs))"
  by (induction xs) (auto intro!: state_ext)

lemma write_pose_body_bytes [wire_defs]: "write_pose_body lm body = write_bytes (enc_pose_body lm body)"
proof -
  define flags where "flags = sanitize_pose_flags (pb_flags body)"
  define vv where "vv \<longleftrightarrow> flags AND POSE_FLAG_HEAD_VALID \<noteq> 0 \<and> flags AND POSE_FLAG_VIRTUALS_VALID \<noteq> 0"
  define count where "count = (if vv then min (length (pb_virtuals body)) kMaxVirtualTransforms else 0)"
  have s: "take count (pb_virtuals body) = sent_virtuals flags body" "length (sent_virtuals flags body) = count"
    by (auto simp: count_def sent_virtuals_def vv_def min_def)
  have q: "do { write_i16 (quantize_signed (x_of v) kLocoPosScale); write_i16 (quantize_signed (y_of v) kLocoPosScale);
      write_i16 (quantize_signed (z_of v) kLocoPosScale); write_i16 (quantize_signed yaw kPhysicalYawScale) } =
    write_bytes (enc_quad v yaw)" for v yaw
    by (simp add: wire_defs enc_quad_def)
  have h: "do { write_i24 (quantize_signed_int24 (x_of (pt_position (pb_head body))) kAbsPosScale);
      write_i24 (quantize_signed_int24 (y_of (pt_position (pb_head body))) kAbsPosScale);
      write_i24 (quantize_signed_int24 (z_of (pt_position (pb_head body))) kAbsPosScale);
      write_u32 (compress_quaternion_smallest_three (normalize_quaternion (pt_rotation (pb_head body)))) } =
    write_bytes (enc_head (pb_head body))"
    by (simp add: wire_defs enc_head_def)
  show ?thesis
    unfolding write_pose_body_def enc_pose_body_def Let_def flags_def [symmetric] q h
      vv_def [symmetric] count_def [symmetric] s write_relative_bytes
    by (simp add: wire_defs foreach_write_bytes if_distrib [symmetric] flip: if_distrib [of write_bytes])
qed

lemma clamp_i24_quantize [simp]: "clamp_i24 (quantize_signed_int24 v s) = quantize_signed_int24 v s"
  using quantize_signed_int24_range [of v s] by (simp add: clamp_i24_def)

lemma relative_transform_received:
  assumes "d = vec_sub (pt_position t) (pt_position head)"
  shows "relative_transform (pt_position seen) (pt_rotation seen)
      (quantize_signed (x_of d) kRelPosScale) (quantize_signed (y_of d) kRelPosScale)
      (quantize_signed (z_of d) kRelPosScale)
      (compress_quaternion_smallest_three (quaternion_multiply
        (quaternion_inverse (normalize_quaternion (pt_rotation head))) (normalize_quaternion (pt_rotation t)))) =
    received_relative seen head t"
  by (simp add: assms relative_transform_def received_relative_def vec_add_def grid16_vec_def grid16_def
      grid_quat_def Let_def)

lemma decodes_relative:
  "decodes (read_relative (pt_position seen) (pt_rotation seen)) (enc_relative head t)
     (received_relative seen head t)"
proof -
  have ok: "decodes (State_Monad.bind reader_ok (\<lambda>ok. State_Monad.return
      (if \<not> ok then PoseTransform_default else v))) [] v" for v
    by (rule decodes_bind_ok) (simp add: decodes_return)
  show ?thesis
    unfolding read_relative_def enc_relative_def Let_def
      relative_transform_received [OF refl, of seen t head, symmetric]
    by (intro decodes_bind [OF decodes_i16] decodes_bind_nil [OF decodes_u32] ok)
qed

lemma decodes_virtuals:
  "decodes (read_virtuals (length ts) valid (pt_position seen) (pt_rotation seen) acc)
     (concat (map (enc_relative head) ts))
     (Some (acc @ (if valid then map (received_relative seen head) ts else [])))"
proof (induction ts arbitrary: acc)
  case Nil
  show ?case by (simp add: decodes_return)
next
  case (Cons t ts)
  have "decodes (read_virtuals (length ts) valid (pt_position seen) (pt_rotation seen)
      (if valid then acc @ [received_relative seen head t] else acc)) (concat (map (enc_relative head) ts))
      (Some (acc @ (if valid then map (received_relative seen head) (t # ts) else [])))"
    using Cons.IH [of "if valid then acc @ [received_relative seen head t] else acc"] by (cases valid) simp_all
  then show ?case by (auto intro!: decodes_bind [OF decodes_relative] decodes_unless_ok)
qed

lemma decodes_optional:
  "decodes (read_optional valid (pt_position seen) (pt_rotation seen))
     (if valid then enc_relative head t else [])
     (if valid then received_relative seen head t else PoseTransform_default)"
  by (simp add: read_optional_def decodes_relative decodes_return)

lemma decodes_quad:
  "decodes (read_quad pv) (if pv then enc_quad v yaw else [])
     (if pv then quantize_signed (x_of v) kLocoPosScale else 0,
      if pv then quantize_signed (y_of v) kLocoPosScale else 0,
      if pv then quantize_signed (z_of v) kLocoPosScale else 0,
      if pv then quantize_signed yaw kPhysicalYawScale else 0)"
  by (auto simp: read_quad_def enc_quad_def decodes_return
      intro!: decodes_bind [OF decodes_i16] decodes_bind_nil [OF decodes_i16])

lemma decodes_head:
  "decodes (read_head hv) (if hv then enc_head h else [])
     (if hv then Some (quantize_signed_int24 (x_of (pt_position h)) kAbsPosScale,
        quantize_signed_int24 (y_of (pt_position h)) kAbsPosScale,
        quantize_signed_int24 (z_of (pt_position h)) kAbsPosScale,
        compress_quaternion_smallest_three (normalize_quaternion (pt_rotation h))) else None)"
proof -
  have i24: "decodes read_i24 (enc_i24 (quantize_signed_int24 v s)) (quantize_signed_int24 v s)" for v s
    using decodes_i24 [of "quantize_signed_int24 v s"] by simp
  show ?thesis
    by (auto simp: read_head_def enc_head_def decodes_return
        intro!: decodes_bind [OF i24] decodes_bind_nil [OF decodes_u32])
qed

lemma encoding_flags_delta:
  "flags AND POSE_FLAG_MOVING_FLOOR_LOCAL = 0 \<Longrightarrow>
     compute_encoding_flags flags AND ENCODING_PHYSICAL_IS_XRORIGIN_DELTA \<noteq> 0"
  by (simp add: compute_encoding_flags_def encoding_flag_defs)

lemma sent_virtuals_bound: "length (sent_virtuals flags body) \<le> 50"
  by (simp add: sent_virtuals_def kMaxVirtualTransforms_def)

lemma sent_virtuals_count:
  "(if word_of_nat kMaxVirtualTransforms < (word_of_nat (length (sent_virtuals flags body)) :: u8)
    then word_of_nat kMaxVirtualTransforms else word_of_nat (length (sent_virtuals flags body)) :: u8) =
   word_of_nat (length (sent_virtuals flags body))"
  "unat (word_of_nat (length (sent_virtuals flags body)) :: u8) = length (sent_virtuals flags body)"
proof -
  have u: "unat (word_of_nat (length (sent_virtuals flags body)) :: u8) = length (sent_virtuals flags body)"
    using sent_virtuals_bound [of flags body] by (intro unat_word_of_nat) simp
  then show "unat (word_of_nat (length (sent_virtuals flags body)) :: u8) = length (sent_virtuals flags body)" .
  have "\<not> word_of_nat kMaxVirtualTransforms < (word_of_nat (length (sent_virtuals flags body)) :: u8)"
    using sent_virtuals_bound [of flags body] by (simp add: word_less_nat_alt u kMaxVirtualTransforms_def)
  then show "(if word_of_nat kMaxVirtualTransforms < (word_of_nat (length (sent_virtuals flags body)) :: u8)
    then word_of_nat kMaxVirtualTransforms else word_of_nat (length (sent_virtuals flags body)) :: u8) =
   word_of_nat (length (sent_virtuals flags body))" by simp
qed

lemma received_head_fields:
  fixes body :: ClientPoseBody
  defines "h \<equiv> pb_head body"
  defines "packed \<equiv> (\<lambda>hv. if hv then Some (quantize_signed_int24 (x_of (pt_position h)) kAbsPosScale,
      quantize_signed_int24 (y_of (pt_position h)) kAbsPosScale,
      quantize_signed_int24 (z_of (pt_position h)) kAbsPosScale,
      compress_quaternion_smallest_three (normalize_quaternion (pt_rotation h))) else None)"
  shows "(case packed (flags AND POSE_FLAG_HEAD_VALID \<noteq> 0) of None \<Rightarrow> Vec3_default
      | Some (hx, hy, hz, packed_head) \<Rightarrow> Vec3 (dequantize_signed hx kAbsPosScale)
          (dequantize_signed hy kAbsPosScale) (dequantize_signed hz kAbsPosScale)) =
      pt_position (received_head flags body)"
    and "(case packed (flags AND POSE_FLAG_HEAD_VALID \<noteq> 0) of None \<Rightarrow> Quat_default
      | Some (hx, hy, hz, packed_head) \<Rightarrow> decompress_quaternion_smallest_three packed_head) =
      pt_rotation (received_head flags body)"
  by (simp_all add: received_head_def packed_def h_def PoseTransform_default_def grid24_vec_def grid24_def grid_quat_def)

lemma decodes_finish_eq: "x = y \<Longrightarrow> decodes (finish x) [] (Some y)"
  by (simp add: decodes_finish)

lemma decodes_pose_body: "decodes (read_pose_body lm) (enc_pose_body lm body) (Some (received_pose_body lm body))"
proof -
  define flags where "flags = sanitize_pose_flags (pb_flags body)"
  define pv hv mf where "pv \<longleftrightarrow> flags AND POSE_FLAG_PHYSICAL_VALID \<noteq> 0"
    and "hv \<longleftrightarrow> flags AND POSE_FLAG_HEAD_VALID \<noteq> 0" and "mf \<longleftrightarrow> flags AND POSE_FLAG_MOVING_FLOOR_LOCAL \<noteq> 0"
  define rv lv vv where "rv \<longleftrightarrow> hv \<and> flags AND POSE_FLAG_RIGHT_VALID \<noteq> 0"
    and "lv \<longleftrightarrow> hv \<and> flags AND POSE_FLAG_LEFT_VALID \<noteq> 0" and "vv \<longleftrightarrow> hv \<and> flags AND POSE_FLAG_VIRTUALS_VALID \<noteq> 0"
  define v yaw where "v = (if mf then pt_position (pb_physical body) else pb_xr_origin_delta_position body)"
    and "yaw = (if mf then quaternion_to_yaw_degrees lm (pt_rotation (pb_physical body)) else pb_xr_origin_delta_yaw body)"
  define seen where "seen = received_head flags body"
  let ?h = "pb_head body" and ?vs = "sent_virtuals flags body"
  have enc: "enc_pose_body lm body = enc_u16 (pb_pose_seq body) @ flags # compute_encoding_flags flags #
      (if pv then enc_quad v yaw else []) @ (if hv then enc_head ?h else []) @
      (if rv then enc_relative ?h (pb_right_hand body) else []) @
      (if lv then enc_relative ?h (pb_left_hand body) else []) @
      word_of_nat (length ?vs) # concat (map (enc_relative ?h) ?vs)"
    unfolding enc_pose_body_def Let_def flags_def [symmetric] pv_def hv_def rv_def lv_def mf_def v_def yaw_def by simp
  have delta: "\<not> (pv \<and> \<not> mf \<and> compute_encoding_flags flags AND ENCODING_PHYSICAL_IS_XRORIGIN_DELTA = 0)"
    using encoding_flags_delta [of flags] by (auto simp: mf_def)
  note head = received_head_fields [of flags body, folded hv_def seen_def]
  have virt: "decodes (read_virtuals (length ?vs) vv (pt_position seen) (pt_rotation seen) [])
      (concat (map (enc_relative ?h) ?vs)) (Some (map (received_relative seen ?h) ?vs))"
    using decodes_virtuals [of ?vs vv seen "[]" ?h] by (auto simp: sent_virtuals_def vv_def hv_def split: if_splits)
  have vs: "(if vv then map f (take kMaxVirtualTransforms (pb_virtuals body)) else []) = map f ?vs" for f :: "PoseTransform \<Rightarrow> PoseTransform"
    by (auto simp: sent_virtuals_def vv_def hv_def)
  show ?thesis
    unfolding enc read_pose_body_def
    apply (rule decodes_bind [OF decodes_u16], rule decodes_bind_u8, rule decodes_bind_u8, rule decodes_unless_ok)
    unfolding Let_def pv_def [symmetric] hv_def [symmetric] mf_def [symmetric]
    unfolding rv_def [symmetric] lv_def [symmetric] vv_def [symmetric] if_not_P [OF delta]
    apply (rule decodes_bind [OF decodes_quad])
    unfolding prod.case
    apply (rule decodes_bind [OF decodes_head])
    unfolding head
    apply (rule decodes_bind_ok)
    unfolding not_True_eq_False simp_thms if_False
    apply (rule decodes_bind [OF decodes_optional], rule decodes_bind [OF decodes_optional], rule decodes_bind_u8,
       rule decodes_unless_ok)
    unfolding sent_virtuals_count
    apply (rule decodes_bind_nil [OF virt])
    apply (rule decodes_case_Some, rule decodes_finish_eq)
    unfolding received_pose_body_def Let_def flags_def [symmetric] seen_def [symmetric]
      pv_def [symmetric] hv_def [symmetric] mf_def [symmetric]
    unfolding rv_def [symmetric] lv_def [symmetric] vv_def [symmetric]
    by (cases pv; cases mf; cases hv)
      (simp_all add: reconstruct_physical_def v_def yaw_def grid16_vec_def grid16_def vec_sub_def vs)
qed

lemma stable_read_relative [stable_intros]: "stable (read_relative p q)"
  unfolding read_relative_def by (intro stable_intros)

lemma stable_read_optional [stable_intros]: "stable (read_optional v p q)"
  unfolding read_optional_def by (intro stable_intros)

lemma stable_read_quad [stable_intros]: "stable (read_quad pv)"
  unfolding read_quad_def by (intro stable_intros)

lemma stable_read_head [stable_intros]: "stable (read_head hv)"
  unfolding read_head_def by (intro stable_intros)

lemma stable_read_virtuals [stable_intros]: "stable (read_virtuals n valid p q acc)"
  by (induction n arbitrary: acc) (auto simp: unless_ok_def intro!: stable_intros)

lemma checked_pose_body [checked_intros]: "checked (read_pose_body lm)"
  unfolding read_pose_body_def by (intro checked_intros stable_intros)

text \<open>A variable name is cut at 64 code points and then at 255 bytes.\<close>

definition received_name :: "string \<Rightarrow> string" where
  "received_name s = truncate_utf8_bytes (clamp_variable_name s) 255"

definition received_value :: "string \<Rightarrow> string" where
  "received_value s = string16_sent (clamp_variable_value s)"

lemma decodes_received_strings [decodes_intros]:
  "decodes read_string8 (enc_string8 (received_name s)) (received_name s)"
  "decodes read_string16 (enc_string16 (received_value t)) (received_value t)"
  unfolding received_name_def received_value_def by (rule decodes_sent_string8 decodes_sent_string16)+

lemma decodes_quantized_i24:
  "decodes read_i24 (enc_i24 (quantize_signed_int24 v s)) (quantize_signed_int24 v s)"
  using decodes_i24 [of "quantize_signed_int24 v s"] by simp

lemmas wire_rules =
  decodes_bind [OF decodes_u16] decodes_bind_finish [OF decodes_u16]
  decodes_bind [OF decodes_i16] decodes_bind_finish [OF decodes_i16]
  decodes_bind [OF decodes_u32] decodes_bind_finish [OF decodes_u32]
  decodes_bind [OF decodes_f64] decodes_bind_finish [OF decodes_f64]
  decodes_bind [OF decodes_quantized_i24] decodes_bind_finish [OF decodes_quantized_i24]
  decodes_bind [OF decodes_sent_string8] decodes_bind_finish [OF decodes_sent_string8]
  decodes_bind [OF decodes_sent_string16] decodes_bind_finish [OF decodes_sent_string16]
  decodes_bind [OF decodes_received_strings(1)] decodes_bind_finish [OF decodes_received_strings(1)]
  decodes_bind [OF decodes_received_strings(2)] decodes_bind_finish [OF decodes_received_strings(2)]
  decodes_bind_ok_return [OF decodes_u32]
  decodes_bind_u8 decodes_unless_ok decodes_case_Some decodes_finish

section \<open>Elements of the sequences\<close>

definition received_room_pose_client :: "libm \<Rightarrow> RoomPoseClient \<Rightarrow> RoomPoseClient" where
  "received_room_pose_client lm c = c\<lparr>rpc_body := received_pose_body lm (rpc_body c)\<rparr>"

definition enc_room_pose_client :: "libm \<Rightarrow> RoomPoseClient \<Rightarrow> bytes" where
  "enc_room_pose_client lm c = enc_u16 (rpc_client_no c) @ enc_f64 (rpc_pose_time c) @ enc_pose_body lm (rpc_body c)"

interpretation pose_client: record_codec "write_room_pose_client lm" "read_room_pose_client lm"
  "enc_room_pose_client lm" "received_room_pose_client lm" "\<lambda>_. True" for lm
proof
  fix x
  show "write_room_pose_client lm x = write_bytes (enc_room_pose_client lm x)"
    by (simp add: write_room_pose_client_def enc_room_pose_client_def wire_defs)
  have "Some (received_room_pose_client lm x) = map_option (\<lambda>b. \<lparr>rpc_client_no = rpc_client_no x,
      rpc_pose_time = rpc_pose_time x, rpc_body = b\<rparr>) (Some (received_pose_body lm (rpc_body x)))"
    by (simp add: received_room_pose_client_def)
  then show "decodes (read_room_pose_client lm) (enc_room_pose_client lm x) (Some (received_room_pose_client lm x))"
    unfolding read_room_pose_client_def enc_room_pose_client_def
    by (simp only:) (intro decodes_bind [OF decodes_u16] decodes_bind [OF decodes_f64] decodes_unless_ok
      decodes_bind_return decodes_pose_body)
  show "checked (read_room_pose_client lm)"
    unfolding read_room_pose_client_def by (intro checked_intros stable_intros)
qed

definition received_mapping_entry :: "DeviceIdMappingEntry \<Rightarrow> DeviceIdMappingEntry" where
  "received_mapping_entry e = e\<lparr>me_device_id := truncate_utf8_bytes (me_device_id e) 255\<rparr>"

definition enc_mapping_entry :: "DeviceIdMappingEntry \<Rightarrow> bytes" where
  "enc_mapping_entry e = enc_u16 (me_client_no e) @ (if me_is_stealth e then 1 else 0) #
     enc_string8 (truncate_utf8_bytes (me_device_id e) 255)"

interpretation mapping_entry: record_codec write_mapping_entry read_mapping_entry
  enc_mapping_entry received_mapping_entry "\<lambda>_. True"
proof
  fix x
  show "write_mapping_entry x = write_bytes (enc_mapping_entry x)"
    by (simp add: write_mapping_entry_def enc_mapping_entry_def wire_defs)
  have "received_mapping_entry x = \<lparr>me_client_no = me_client_no x,
      me_device_id = truncate_utf8_bytes (me_device_id x) 255,
      me_is_stealth = ((if me_is_stealth x then 1 else 0) = (1 :: u8))\<rparr>"
    by (simp add: received_mapping_entry_def)
  then show "decodes read_mapping_entry (enc_mapping_entry x) (Some (received_mapping_entry x))"
    unfolding read_mapping_entry_def enc_mapping_entry_def by (simp only:) (intro wire_rules)
  show "checked read_mapping_entry"
    unfolding read_mapping_entry_def by (intro checked_intros stable_intros)
qed

definition received_variable :: "NetworkVariableEntry \<Rightarrow> NetworkVariableEntry" where
  "received_variable e = e\<lparr>nv_name := received_name (nv_name e), nv_value := received_value (nv_value e)\<rparr>"

definition enc_variable :: "NetworkVariableEntry \<Rightarrow> bytes" where
  "enc_variable e = enc_string8 (received_name (nv_name e)) @ enc_string16 (received_value (nv_value e)) @
     enc_u16 (nv_last_writer_client_no e)"

interpretation variable_entry: record_codec write_variable_entry read_variable_entry enc_variable received_variable
  "\<lambda>_. True"
proof
  fix x
  show "write_variable_entry x = write_bytes (enc_variable x)"
    by (simp add: write_variable_entry_def enc_variable_def wire_defs received_name_def received_value_def)
  have "received_variable x = \<lparr>nv_name = received_name (nv_name x), nv_value = received_value (nv_value x),
      nv_last_writer_client_no = nv_last_writer_client_no x\<rparr>"
    by (simp add: received_variable_def)
  then show "decodes read_variable_entry (enc_variable x) (Some (received_variable x))"
    unfolding read_variable_entry_def enc_variable_def
    by (simp only:) (intro wire_rules)
  show "checked read_variable_entry"
    unfolding read_variable_entry_def by (intro checked_intros stable_intros)
qed

definition received_object :: "RoomObjectState \<Rightarrow> RoomObjectState" where
  "received_object x = x\<lparr>ro_position := grid24_vec (ro_position x), ro_rotation := grid_quat (ro_rotation x)\<rparr>"

definition enc_pose24 :: "Vec3 \<Rightarrow> Quat \<Rightarrow> bytes" where
  "enc_pose24 p q = enc_i24 (quantize_signed_int24 (x_of p) kAbsPosScale) @
     enc_i24 (quantize_signed_int24 (y_of p) kAbsPosScale) @ enc_i24 (quantize_signed_int24 (z_of p) kAbsPosScale) @
     enc_u32 (compress_quaternion_smallest_three q)"

definition enc_object :: "RoomObjectState \<Rightarrow> bytes" where
  "enc_object x = enc_u32 (ro_object_id x) @ enc_u16 (ro_owner_client_no x) @ enc_u16 (ro_pose_seq x) @
     enc_f64 (ro_pose_time x) @ enc_pose24 (ro_position x) (ro_rotation x)"

interpretation object_state: record_codec write_object_state read_object_state enc_object received_object "\<lambda>_. True"
proof
  fix x
  show "write_object_state x = write_bytes (enc_object x)"
    by (simp add: write_object_state_def enc_object_def enc_pose24_def wire_defs)
  have "received_object x = \<lparr>ro_object_id = ro_object_id x, ro_owner_client_no = ro_owner_client_no x,
      ro_pose_seq = ro_pose_seq x, ro_pose_time = ro_pose_time x,
      ro_position = dequantize_position (quantize_signed_int24 (x_of (ro_position x)) kAbsPosScale)
        (quantize_signed_int24 (y_of (ro_position x)) kAbsPosScale)
        (quantize_signed_int24 (z_of (ro_position x)) kAbsPosScale),
      ro_rotation = decompress_quaternion_smallest_three (compress_quaternion_smallest_three (ro_rotation x))\<rparr>"
    by (simp add: received_object_def grid24_vec_def grid24_def grid_quat_def dequantize_position_def)
  then show "decodes read_object_state (enc_object x) (Some (received_object x))"
    unfolding read_object_state_def enc_object_def enc_pose24_def
    by (simp only:) (intro wire_rules)
  show "checked read_object_state"
    unfolding read_object_state_def by (intro checked_intros stable_intros)
qed

definition received_client_variables :: "u16 \<times> NetworkVariableEntry list \<Rightarrow> u16 \<times> NetworkVariableEntry list" where
  "received_client_variables c = (fst c, map received_variable (snd c))"

definition enc_client_variables :: "u16 \<times> NetworkVariableEntry list \<Rightarrow> bytes" where
  "enc_client_variables c = enc_u16 (fst c) @ enc_u16 (word_of_nat (length (snd c))) @
     concat (map enc_variable (snd c))"

interpretation client_variables: record_codec write_client_variables read_client_variables
  enc_client_variables received_client_variables "\<lambda>c. length (snd c) < 2 ^ 16"
proof
  fix x :: "u16 \<times> NetworkVariableEntry list"
  show "write_client_variables x = write_bytes (enc_client_variables x)"
    by (simp add: write_client_variables_def enc_client_variables_def wire_defs variable_entry.writes_all)
  assume "length (snd x) < 2 ^ 16"
  note vars = decodes_bind_return [OF variable_entry.reads_counted [OF _ this], of "map_option (\<lambda>vs. (fst x, vs))"]
  have "Some (received_client_variables x) = map_option (\<lambda>vs. (fst x, vs)) (Some (map received_variable (snd x)))"
    by (simp add: received_client_variables_def)
  then show "decodes read_client_variables (enc_client_variables x) (Some (received_client_variables x))"
    unfolding read_client_variables_def enc_client_variables_def
    by (simp only:) (intro wire_rules vars, simp)
next
  show "checked read_client_variables"
    unfolding read_client_variables_def
    by (intro checked_intros stable_intros variable_entry.reader_checked)
qed

section \<open>The messages\<close>

definition enc_hello :: "string \<times> bool \<Rightarrow> bytes" where
  "enc_hello m = (if snd m then kClientHelloFlagStealth else 0) # enc_string8 (truncate_utf8_bytes (fst m) 255)"

definition received_hello :: "string \<times> bool \<Rightarrow> ClientHelloMessage" where
  "received_hello m = \<lparr>ch_device_id = truncate_utf8_bytes (fst m) 255,
     ch_flags = (if snd m then kClientHelloFlagStealth else 0)\<rparr>"

interpretation hello: message_codec "\<lambda>m. serialize_client_hello (fst m) (snd m)" MSG_CLIENT_HELLO True
  client_hello_body enc_hello received_hello "\<lambda>_. True"
proof
  fix m :: "string \<times> bool"
  show "serialize_client_hello (fst m) (snd m) =
      MSG_CLIENT_HELLO # (if True then [kProtocolVersion] else []) @ enc_hello m"
    by (simp add: serialize_client_hello_def enc_hello_def wire_defs)
  show "decodes client_hello_body (enc_hello m) (Some (received_hello m))"
    unfolding client_hello_body_def enc_hello_def received_hello_def by (intro wire_rules)
  show "checked client_hello_body"
    unfolding client_hello_body_def by (intro checked_intros stable_intros)
qed

definition received_client_pose :: "libm \<Rightarrow> ClientPoseMessage \<Rightarrow> ClientPoseMessage" where
  "received_client_pose lm m = \<lparr>cp_device_id = truncate_utf8_bytes (cp_device_id m) 255,
     cp_body = received_pose_body lm (cp_body m)\<rparr>"

interpretation client_pose: message_codec "serialize_client_pose lm" MSG_CLIENT_POSE True
  "client_pose_body lm"
  "\<lambda>m. enc_string8 (truncate_utf8_bytes (cp_device_id m) 255) @ enc_pose_body lm (cp_body m)"
  "received_client_pose lm" "\<lambda>_. True" for lm
proof
  fix m
  show "serialize_client_pose lm m = MSG_CLIENT_POSE # (if True then [kProtocolVersion] else []) @
      enc_string8 (truncate_utf8_bytes (cp_device_id m) 255) @ enc_pose_body lm (cp_body m)"
    by (simp add: serialize_client_pose_def wire_defs)
  have "Some (received_client_pose lm m) = map_option (\<lambda>b. \<lparr>cp_device_id = truncate_utf8_bytes (cp_device_id m) 255,
      cp_body = b\<rparr>) (Some (received_pose_body lm (cp_body m)))"
    by (simp add: received_client_pose_def)
  then show "decodes (client_pose_body lm)
      (enc_string8 (truncate_utf8_bytes (cp_device_id m) 255) @ enc_pose_body lm (cp_body m))
      (Some (received_client_pose lm m))"
    unfolding client_pose_body_def by (simp only:) (intro wire_rules decodes_bind_return decodes_pose_body)
  show "checked (client_pose_body lm)"
    unfolding client_pose_body_def by (intro checked_intros stable_intros)
qed

definition received_room_pose :: "libm \<Rightarrow> RoomPoseMessage \<Rightarrow> RoomPoseMessage" where
  "received_room_pose lm m = \<lparr>rp_room_id = truncate_utf8_bytes (rp_room_id m) 255,
     rp_broadcast_time = rp_broadcast_time m, rp_clients = map (received_room_pose_client lm) (rp_clients m)\<rparr>"

definition enc_room_pose :: "libm \<Rightarrow> RoomPoseMessage \<Rightarrow> bytes" where
  "enc_room_pose lm m = enc_string8 (truncate_utf8_bytes (rp_room_id m) 255) @ enc_f64 (rp_broadcast_time m) @
     enc_u16 (word_of_nat (length (rp_clients m))) @ concat (map (enc_room_pose_client lm) (rp_clients m))"

interpretation room_pose: message_codec "serialize_room_pose lm" MSG_ROOM_POSE True "room_pose_body lm"
  "enc_room_pose lm" "received_room_pose lm" "\<lambda>m. length (rp_clients m) < 2 ^ 16" for lm
proof
  fix m
  show "serialize_room_pose lm m = MSG_ROOM_POSE # (if True then [kProtocolVersion] else []) @ enc_room_pose lm m"
    by (simp add: serialize_room_pose_def enc_room_pose_def wire_defs pose_client.writes_all)
  assume f: "length (rp_clients m) < 2 ^ 16"
  show "decodes (room_pose_body lm) (enc_room_pose lm m) (Some (received_room_pose lm m))"
    unfolding room_pose_body_def enc_room_pose_def received_room_pose_def
    by (intro wire_rules decodes_bind_nil [OF pose_client.reads_counted [OF _ f]]) simp
next
  show "checked (room_pose_body lm)"
    unfolding room_pose_body_def by (intro checked_intros stable_intros pose_client.reader_checked)
qed

definition received_rpc :: "RpcMessage \<Rightarrow> RpcMessage" where
  "received_rpc m = \<lparr>rm_sender_client_no = rm_sender_client_no m,
     rm_device_id = truncate_utf8_bytes (rm_device_id m) 255,
     rm_target_client_nos = take 255 (rm_target_client_nos m),
     rm_function_name = truncate_utf8_bytes (rm_function_name m) 255,
     rm_arguments_json = string16_sent (rm_arguments_json m)\<rparr>"

definition enc_rpc :: "RpcMessage \<Rightarrow> bytes" where
  "enc_rpc m = enc_u16 (rm_sender_client_no m) @ enc_string8 (truncate_utf8_bytes (rm_device_id m) 255) @
     word_of_nat (length (take 255 (rm_target_client_nos m))) #
     concat (map enc_u16 (take 255 (rm_target_client_nos m))) @
     enc_string8 (truncate_utf8_bytes (rm_function_name m) 255) @
     enc_string16 (string16_sent (rm_arguments_json m))"

lemma decodes_targets: "decodes (read_targets (length ts)) (concat (map enc_u16 ts)) ts"
proof (induction ts)
  case Nil
  show ?case by (simp add: decodes_return)
next
  case (Cons t ts)
  have "decodes (read_targets (length (t # ts))) (enc_u16 t @ concat (map enc_u16 ts)) (t # ts)"
    unfolding read_targets.simps list.size(4) add_Suc_right add_0_right
    by (intro decodes_bind [OF decodes_u16] decodes_bind_return Cons.IH)
  then show ?case by simp
qed

lemma decodes_targets_counted:
  "length ts \<le> 255 \<Longrightarrow> decodes (read_targets (unat (word_of_nat (length ts) :: u8))) (concat (map enc_u16 ts)) ts"
  using decodes_targets [of ts] by (simp add: unat_word_of_nat)

lemma stable_read_targets [stable_intros]: "stable (read_targets n)"
  by (induction n) (auto intro!: stable_intros)

interpretation rpc: message_codec serialize_rpc MSG_RPC False rpc_body_reader enc_rpc received_rpc "\<lambda>_. True"
proof
  fix m
  have w: "foreach ts write_u16 = write_bytes (concat (map enc_u16 ts))" for ts
    using foreach_write_bytes [of ts enc_u16] by (simp flip: write_u16_bytes)
  have t: "take (min (length ts) 255) ts = take 255 ts" for ts :: "u16 list" by (simp add: min_def)
  show "serialize_rpc m = MSG_RPC # (if False then [kProtocolVersion] else []) @ enc_rpc m"
    by (simp add: serialize_rpc_def enc_rpc_def wire_defs w t Let_def)
  have "length (take 255 (rm_target_client_nos m)) \<le> 255" by simp
  note targets = decodes_bind [OF decodes_targets_counted [OF this]]
  show "decodes rpc_body_reader (enc_rpc m) (Some (received_rpc m))"
    unfolding rpc_body_reader_def enc_rpc_def received_rpc_def by (intro wire_rules targets)
  show "checked rpc_body_reader"
    unfolding rpc_body_reader_def by (intro checked_intros stable_intros)
qed

definition received_global_var_set :: "GlobalVarSetMessage \<Rightarrow> GlobalVarSetMessage" where
  "received_global_var_set m = \<lparr>gs_sender_client_no = gs_sender_client_no m,
     gs_device_id = truncate_utf8_bytes (gs_device_id m) 255,
     gs_variable_name = received_name (gs_variable_name m),
     gs_variable_value = received_value (gs_variable_value m)\<rparr>"

definition enc_global_var_set :: "GlobalVarSetMessage \<Rightarrow> bytes" where
  "enc_global_var_set m = enc_u16 (gs_sender_client_no m) @ enc_string8 (truncate_utf8_bytes (gs_device_id m) 255) @
     enc_string8 (received_name (gs_variable_name m)) @ enc_string16 (received_value (gs_variable_value m))"

interpretation global_var_set: message_codec serialize_global_var_set MSG_GLOBAL_VAR_SET False
  global_var_set_body enc_global_var_set received_global_var_set "\<lambda>_. True"
proof
  fix m
  show "serialize_global_var_set m =
      MSG_GLOBAL_VAR_SET # (if False then [kProtocolVersion] else []) @ enc_global_var_set m"
    by (simp add: serialize_global_var_set_def enc_global_var_set_def wire_defs received_name_def received_value_def)
  show "decodes global_var_set_body (enc_global_var_set m) (Some (received_global_var_set m))"
    unfolding global_var_set_body_def enc_global_var_set_def received_global_var_set_def by (intro wire_rules)
  show "checked global_var_set_body"
    unfolding global_var_set_body_def by (intro checked_intros stable_intros)
qed

definition received_client_var_set :: "ClientVarSetMessage \<Rightarrow> ClientVarSetMessage" where
  "received_client_var_set m = \<lparr>cs_sender_client_no = cs_sender_client_no m,
     cs_device_id = truncate_utf8_bytes (cs_device_id m) 255,
     cs_target_client_no = cs_target_client_no m,
     cs_variable_name = received_name (cs_variable_name m),
     cs_variable_value = received_value (cs_variable_value m)\<rparr>"

definition enc_client_var_set :: "ClientVarSetMessage \<Rightarrow> bytes" where
  "enc_client_var_set m = enc_u16 (cs_sender_client_no m) @ enc_string8 (truncate_utf8_bytes (cs_device_id m) 255) @
     enc_u16 (cs_target_client_no m) @
     enc_string8 (received_name (cs_variable_name m)) @ enc_string16 (received_value (cs_variable_value m))"

interpretation client_var_set: message_codec serialize_client_var_set MSG_CLIENT_VAR_SET False
  client_var_set_body enc_client_var_set received_client_var_set "\<lambda>_. True"
proof
  fix m
  show "serialize_client_var_set m =
      MSG_CLIENT_VAR_SET # (if False then [kProtocolVersion] else []) @ enc_client_var_set m"
    by (simp add: serialize_client_var_set_def enc_client_var_set_def wire_defs received_name_def received_value_def)
  show "decodes client_var_set_body (enc_client_var_set m) (Some (received_client_var_set m))"
    unfolding client_var_set_body_def enc_client_var_set_def received_client_var_set_def by (intro wire_rules)
  show "checked client_var_set_body"
    unfolding client_var_set_body_def by (intro checked_intros stable_intros)
qed

definition received_client_var_clear :: "ClientVarClearMessage \<Rightarrow> ClientVarClearMessage" where
  "received_client_var_clear m = \<lparr>cc_sender_client_no = cc_sender_client_no m,
     cc_device_id = truncate_utf8_bytes (cc_device_id m) 255\<rparr>"

interpretation client_var_clear: message_codec serialize_client_var_clear MSG_CLIENT_VAR_CLEAR False
  client_var_clear_body
  "\<lambda>m. enc_u16 (cc_sender_client_no m) @ enc_string8 (truncate_utf8_bytes (cc_device_id m) 255)"
  received_client_var_clear "\<lambda>_. True"
proof
  fix m
  show "serialize_client_var_clear m = MSG_CLIENT_VAR_CLEAR # (if False then [kProtocolVersion] else []) @
      enc_u16 (cc_sender_client_no m) @ enc_string8 (truncate_utf8_bytes (cc_device_id m) 255)"
    by (simp add: serialize_client_var_clear_def wire_defs)
  show "decodes client_var_clear_body
      (enc_u16 (cc_sender_client_no m) @ enc_string8 (truncate_utf8_bytes (cc_device_id m) 255))
      (Some (received_client_var_clear m))"
    unfolding client_var_clear_body_def received_client_var_clear_def by (intro wire_rules)
  show "checked client_var_clear_body"
    unfolding client_var_clear_body_def by (intro checked_intros stable_intros)
qed

definition received_object_pose :: "ObjectPoseMessage \<Rightarrow> ObjectPoseMessage" where
  "received_object_pose m = \<lparr>op_device_id = truncate_utf8_bytes (op_device_id m) 255,
     op_object_id = op_object_id m, op_pose_seq = op_pose_seq m,
     op_position = grid24_vec (op_position m), op_rotation = grid_quat (op_rotation m)\<rparr>"

definition enc_object_pose :: "ObjectPoseMessage \<Rightarrow> bytes" where
  "enc_object_pose m = enc_string8 (truncate_utf8_bytes (op_device_id m) 255) @ enc_u32 (op_object_id m) @
     enc_u16 (op_pose_seq m) @ enc_pose24 (op_position m) (op_rotation m)"

interpretation object_pose: message_codec serialize_object_pose MSG_OBJECT_POSE True
  object_pose_body enc_object_pose received_object_pose "\<lambda>_. True"
proof
  fix m
  show "serialize_object_pose m = MSG_OBJECT_POSE # (if True then [kProtocolVersion] else []) @ enc_object_pose m"
    by (simp add: serialize_object_pose_def enc_object_pose_def enc_pose24_def wire_defs)
  have g: "grid24_vec v = dequantize_position (quantize_signed_int24 (x_of v) kAbsPosScale)
      (quantize_signed_int24 (y_of v) kAbsPosScale) (quantize_signed_int24 (z_of v) kAbsPosScale)" for v
    by (simp add: grid24_vec_def grid24_def dequantize_position_def)
  show "decodes object_pose_body (enc_object_pose m) (Some (received_object_pose m))"
    unfolding object_pose_body_def enc_object_pose_def enc_pose24_def received_object_pose_def g grid_quat_def
    by (intro wire_rules)
  show "checked object_pose_body"
    unfolding object_pose_body_def by (intro checked_intros stable_intros)
qed

definition received_ownership_request :: "ObjectOwnershipRequestMessage \<Rightarrow> ObjectOwnershipRequestMessage" where
  "received_ownership_request m = \<lparr>or_device_id = truncate_utf8_bytes (or_device_id m) 255,
     or_operation_type = or_operation_type m, or_object_id = or_object_id m\<rparr>"

interpretation ownership_request: message_codec serialize_object_ownership_request
  MSG_OBJECT_OWNERSHIP_REQUEST True object_ownership_request_body
  "\<lambda>m. enc_string8 (truncate_utf8_bytes (or_device_id m) 255) @ or_operation_type m # enc_u32 (or_object_id m)"
  received_ownership_request "\<lambda>_. True"
proof
  fix m
  show "serialize_object_ownership_request m =
      MSG_OBJECT_OWNERSHIP_REQUEST # (if True then [kProtocolVersion] else []) @
      enc_string8 (truncate_utf8_bytes (or_device_id m) 255) @ or_operation_type m # enc_u32 (or_object_id m)"
    by (simp add: serialize_object_ownership_request_def wire_defs)
  show "decodes object_ownership_request_body
      (enc_string8 (truncate_utf8_bytes (or_device_id m) 255) @ or_operation_type m # enc_u32 (or_object_id m))
      (Some (received_ownership_request m))"
    unfolding object_ownership_request_body_def received_ownership_request_def by (intro wire_rules)
  show "checked object_ownership_request_body"
    unfolding object_ownership_request_body_def by (intro checked_intros stable_intros)
qed

definition received_device_id_mapping :: "DeviceIdMappingMessage \<Rightarrow> DeviceIdMappingMessage" where
  "received_device_id_mapping m = \<lparr>dm_server_version_major = dm_server_version_major m,
     dm_server_version_minor = dm_server_version_minor m, dm_server_version_patch = dm_server_version_patch m,
     dm_mappings = map received_mapping_entry (dm_mappings m)\<rparr>"

definition enc_device_id_mapping :: "DeviceIdMappingMessage \<Rightarrow> bytes" where
  "enc_device_id_mapping m = dm_server_version_major m # dm_server_version_minor m # dm_server_version_patch m #
     enc_u16 (word_of_nat (length (dm_mappings m))) @ concat (map enc_mapping_entry (dm_mappings m))"

interpretation device_id_mapping: message_codec serialize_device_id_mapping MSG_DEVICE_ID_MAPPING False
  device_id_mapping_body enc_device_id_mapping received_device_id_mapping "\<lambda>m. length (dm_mappings m) < 2 ^ 16"
proof
  fix m
  show "serialize_device_id_mapping m =
      MSG_DEVICE_ID_MAPPING # (if False then [kProtocolVersion] else []) @ enc_device_id_mapping m"
    by (simp add: serialize_device_id_mapping_def enc_device_id_mapping_def wire_defs mapping_entry.writes_all)
  assume f: "length (dm_mappings m) < 2 ^ 16"
  show "decodes device_id_mapping_body (enc_device_id_mapping m) (Some (received_device_id_mapping m))"
    unfolding device_id_mapping_body_def enc_device_id_mapping_def received_device_id_mapping_def
    by (intro wire_rules decodes_bind_nil [OF mapping_entry.reads_counted [OF _ f]]) simp
next
  show "checked device_id_mapping_body"
    unfolding device_id_mapping_body_def by (intro checked_intros stable_intros mapping_entry.reader_checked)
qed

interpretation global_var_sync: message_codec serialize_global_var_sync MSG_GLOBAL_VAR_SYNC False
  global_var_sync_body "\<lambda>m. enc_u16 (word_of_nat (length m)) @ concat (map enc_variable m)"
  "map received_variable" "\<lambda>m. length m < 2 ^ 16"
proof
  fix m :: GlobalVarSyncMessage
  show "serialize_global_var_sync m = MSG_GLOBAL_VAR_SYNC # (if False then [kProtocolVersion] else []) @
      enc_u16 (word_of_nat (length m)) @ concat (map enc_variable m)"
    by (simp add: serialize_global_var_sync_def wire_defs variable_entry.writes_all)
  assume f: "length m < 2 ^ 16"
  show "decodes global_var_sync_body (enc_u16 (word_of_nat (length m)) @ concat (map enc_variable m))
      (Some (map received_variable m))"
    unfolding global_var_sync_body_def
    by (intro wire_rules decodes_bind_nil [OF variable_entry.reads_counted [OF _ f]]) simp
next
  show "checked global_var_sync_body"
    unfolding global_var_sync_body_def by (intro checked_intros stable_intros variable_entry.reader_checked)
qed

interpretation client_var_sync: message_codec serialize_client_var_sync MSG_CLIENT_VAR_SYNC False
  client_var_sync_body "\<lambda>m. enc_u16 (word_of_nat (length m)) @ concat (map enc_client_variables m)"
  "map received_client_variables" "\<lambda>m. length m < 2 ^ 16 \<and> (\<forall>c\<in>set m. length (snd c) < 2 ^ 16)"
proof
  fix m :: ClientVarSyncMessage
  show "serialize_client_var_sync m = MSG_CLIENT_VAR_SYNC # (if False then [kProtocolVersion] else []) @
      enc_u16 (word_of_nat (length m)) @ concat (map enc_client_variables m)"
    by (simp add: serialize_client_var_sync_def wire_defs client_variables.writes_all)
  assume f: "length m < 2 ^ 16 \<and> (\<forall>c\<in>set m. length (snd c) < 2 ^ 16)"
  then show "decodes client_var_sync_body (enc_u16 (word_of_nat (length m)) @ concat (map enc_client_variables m))
      (Some (map received_client_variables m))"
    unfolding client_var_sync_body_def
    by (intro wire_rules decodes_bind_nil [OF client_variables.reads_counted]) simp_all
next
  show "checked client_var_sync_body"
    unfolding client_var_sync_body_def by (intro checked_intros stable_intros client_variables.reader_checked)
qed

definition received_room_objects :: "RoomObjectsMessage \<Rightarrow> RoomObjectsMessage" where
  "received_room_objects m = \<lparr>rom_broadcast_time = rom_broadcast_time m, rom_objects = map received_object (rom_objects m)\<rparr>"

interpretation room_objects: message_codec serialize_room_objects MSG_ROOM_OBJECTS True room_objects_body
  "\<lambda>m. enc_f64 (rom_broadcast_time m) @ enc_u16 (word_of_nat (length (rom_objects m))) @
     concat (map enc_object (rom_objects m))"
  received_room_objects "\<lambda>m. length (rom_objects m) < 2 ^ 16"
proof
  fix m
  show "serialize_room_objects m = MSG_ROOM_OBJECTS # (if True then [kProtocolVersion] else []) @
      enc_f64 (rom_broadcast_time m) @ enc_u16 (word_of_nat (length (rom_objects m))) @
      concat (map enc_object (rom_objects m))"
    by (simp add: serialize_room_objects_def wire_defs object_state.writes_all)
  assume f: "length (rom_objects m) < 2 ^ 16"
  show "decodes room_objects_body (enc_f64 (rom_broadcast_time m) @ enc_u16 (word_of_nat (length (rom_objects m))) @
      concat (map enc_object (rom_objects m))) (Some (received_room_objects m))"
    unfolding room_objects_body_def received_room_objects_def
    by (intro wire_rules decodes_bind_nil [OF object_state.reads_counted [OF _ f]]) simp
next
  show "checked room_objects_body"
    unfolding room_objects_body_def by (intro checked_intros stable_intros object_state.reader_checked)
qed

interpretation ownership_changed: message_codec serialize_object_ownership_changed
  MSG_OBJECT_OWNERSHIP_CHANGED False object_ownership_changed_body
  "\<lambda>m. enc_u32 (oc_object_id m) @ enc_u16 (oc_new_owner_client_no m) @ enc_u16 (oc_previous_owner_client_no m)"
  "\<lambda>m. m" "\<lambda>_. True"
proof
  fix m :: ObjectOwnershipChangedMessage
  show "serialize_object_ownership_changed m =
      MSG_OBJECT_OWNERSHIP_CHANGED # (if False then [kProtocolVersion] else []) @
      enc_u32 (oc_object_id m) @ enc_u16 (oc_new_owner_client_no m) @ enc_u16 (oc_previous_owner_client_no m)"
    by (simp add: serialize_object_ownership_changed_def wire_defs)
  have "m = \<lparr>oc_object_id = oc_object_id m, oc_new_owner_client_no = oc_new_owner_client_no m,
      oc_previous_owner_client_no = oc_previous_owner_client_no m\<rparr>" by simp
  then show "decodes object_ownership_changed_body
      (enc_u32 (oc_object_id m) @ enc_u16 (oc_new_owner_client_no m) @ enc_u16 (oc_previous_owner_client_no m)) (Some m)"
    unfolding object_ownership_changed_body_def by (elim ssubst) (simp, intro wire_rules)
  show "checked object_ownership_changed_body"
    unfolding object_ownership_changed_body_def by (intro checked_intros stable_intros)
qed

interpretation ownership_rejected: message_codec serialize_object_ownership_rejected
  MSG_OBJECT_OWNERSHIP_REJECTED False object_ownership_rejected_body
  "\<lambda>m. enc_u32 (oj_object_id m) @ enc_u16 (oj_current_owner_client_no m) @ [oj_reason_code m]"
  "\<lambda>m. m" "\<lambda>_. True"
proof
  fix m :: ObjectOwnershipRejectedMessage
  show "serialize_object_ownership_rejected m =
      MSG_OBJECT_OWNERSHIP_REJECTED # (if False then [kProtocolVersion] else []) @
      enc_u32 (oj_object_id m) @ enc_u16 (oj_current_owner_client_no m) @ [oj_reason_code m]"
    by (simp add: serialize_object_ownership_rejected_def wire_defs)
  have "m = \<lparr>oj_object_id = oj_object_id m, oj_current_owner_client_no = oj_current_owner_client_no m,
      oj_reason_code = oj_reason_code m\<rparr>" by simp
  then show "decodes object_ownership_rejected_body
      (enc_u32 (oj_object_id m) @ enc_u16 (oj_current_owner_client_no m) @ [oj_reason_code m]) (Some m)"
    unfolding object_ownership_rejected_body_def by (elim ssubst) (simp, intro wire_rules)
  show "checked object_ownership_rejected_body"
    unfolding object_ownership_rejected_body_def by (intro checked_intros stable_intros)
qed

end
