(* ===== verification/Protocol_Properties.thy ===== *)
theory Protocol_Properties
  imports Protocol_Codec
begin

text \<open>
  The properties of the wire protocol: round trips in the presence of trailing bytes, rejection of
  truncated payloads, exclusive message types, stealth and size of the client pose.
\<close>

section \<open>Sizes\<close>

lemma length_enc_relative: "length (enc_relative h t) = 10"
  by (simp add: enc_relative_def Let_def)

lemma length_concat_const: "(\<And>x. x \<in> set xs \<Longrightarrow> length (f x) = n) \<Longrightarrow> length (concat (map f xs)) = length xs * n"
  by (induction xs) simp_all

lemma length_enc_pose_body: "length (enc_pose_body lm body) \<le> 546"
proof -
  let ?vs = "\<lambda>f. sent_virtuals f body"
  have v: "length (concat (map (enc_relative (pb_head body)) (?vs f))) \<le> 500" for f
    using sent_virtuals_bound [of f body] by (subst length_concat_const [of _ _ 10]) (simp_all add: length_enc_relative)
  have q: "length (enc_quad v y) = 8" "length (enc_head h) = 13" for v y h by (simp_all add: enc_quad_def enc_head_def)
  show ?thesis
    using v [of "sanitize_pose_flags (pb_flags body)"]
    by (simp add: enc_pose_body_def Let_def q length_enc_relative)
qed

lemma length_serialize_client_pose: "length (serialize_client_pose lm m) \<le> 804"
  using length_enc_pose_body [of lm "cp_body m"] length_truncate_utf8_bytes [of "cp_device_id m" 255]
  by (simp add: client_pose.layout)

section \<open>Properties\<close>

text \<open>C7. A client pose message, whatever bytes follow it in the buffer, is received as the sender's
  pose with its flags sanitised, its identity cut to 255 bytes, its coordinates on the quantisation
  grid, its head-relative transforms rebuilt from the received head, and its virtual transforms cut
  to 50.\<close>

theorem client_pose_roundtrip:
  assumes "length (serialize_client_pose lm m @ t) < 2 ^ 64"
  shows "deserialize_client_pose lm (serialize_client_pose lm m @ t) = Some (received_client_pose lm m)"
  unfolding deserialize_client_pose_def using assms by (intro client_pose.roundtrip) simp_all

definition lm0 :: libm where
  "lm0 = \<lparr>lm_sin = (\<lambda>_. dlit 0), lm_cos = (\<lambda>_. dlit 1), lm_atan2 = (\<lambda>_ _. dlit 0)\<rparr>"

definition body0 :: ClientPoseBody where
  "body0 = \<lparr>pb_pose_seq = 7, pb_flags = 4, pb_encoding_flags = 0, pb_xr_origin_delta_position = Vec3_default,
     pb_xr_origin_delta_yaw = dlit 0, pb_physical = PoseTransform_default, pb_head = PoseTransform_default,
     pb_right_hand = PoseTransform_default, pb_left_hand = PoseTransform_default, pb_virtuals = []\<rparr>"

theorem client_pose_roundtrip_witness:
  "deserialize_client_pose lm0 (serialize_client_pose lm0 \<lparr>cp_device_id = ''dev'', cp_body = body0\<rparr> @ [1, 2]) =
     Some (received_client_pose lm0 \<lparr>cp_device_id = ''dev'', cp_body = body0\<rparr>)"
  using length_serialize_client_pose [of lm0 "\<lparr>cp_device_id = ''dev'', cp_body = body0\<rparr>"]
  by (intro client_pose_roundtrip) simp

text \<open>A room pose snapshot of fewer than 65536 clients is received client by client, in order.\<close>

lemma room_pose_roundtrip:
  assumes "length (rp_clients m) < 2 ^ 16" "length (serialize_room_pose lm m @ t) < 2 ^ 64"
  shows "deserialize_room_pose lm (serialize_room_pose lm m @ t) = Some (received_room_pose lm m)"
  unfolding deserialize_room_pose_def using assms by (intro room_pose.roundtrip) simp_all

text \<open>An RPC message is received with its sender, at most 255 targets in order, its function name
  and its argument text, each cut at its limit on a character boundary.\<close>

lemma rpc_roundtrip:
  assumes "length (serialize_rpc m @ t) < 2 ^ 64"
  shows "deserialize_rpc (serialize_rpc m @ t) = Some (received_rpc m)"
  unfolding deserialize_rpc_def using assms by (intro rpc.roundtrip) simp_all

lemma rpc_roundtrip_example:
  "deserialize_rpc (serialize_rpc \<lparr>rm_sender_client_no = 1, rm_device_id = ''d'', rm_target_client_nos = [2, 65535],
     rm_function_name = ''Jump'', rm_arguments_json = ''[]''\<rparr> @ [9]) =
   Some \<lparr>rm_sender_client_no = 1, rm_device_id = ''d'', rm_target_client_nos = [2, 65535],
     rm_function_name = ''Jump'', rm_arguments_json = ''[]''\<rparr>"
proof -
  let ?m = "\<lparr>rm_sender_client_no = 1, rm_device_id = ''d'', rm_target_client_nos = [2, 65535],
     rm_function_name = ''Jump'', rm_arguments_json = ''[]''\<rparr>"
  have "length (serialize_rpc ?m @ [9]) < 2 ^ 64" by (simp add: rpc.layout enc_rpc_def)
  from rpc_roundtrip [OF this] show ?thesis by (simp add: received_rpc_def)
qed

text \<open>C10. The variable messages of the client (set global, set client, clear) are received with names
  cut to 64 code points and values to 1024 code points, the rest unchanged.\<close>

theorem variable_messages_roundtrip:
  assumes "length (serialize_global_var_set g @ t) < 2 ^ 64" "length (serialize_client_var_set c @ t) < 2 ^ 64"
    "length (serialize_client_var_clear k @ t) < 2 ^ 64"
  shows "deserialize_global_var_set (serialize_global_var_set g @ t) = Some (received_global_var_set g) \<and>
    deserialize_client_var_set (serialize_client_var_set c @ t) = Some (received_client_var_set c) \<and>
    deserialize_client_var_clear (serialize_client_var_clear k @ t) = Some (received_client_var_clear k)"
  using assms global_var_set.roundtrip [of g t] client_var_set.roundtrip [of c t] client_var_clear.roundtrip [of k t]
  by (simp add: deserialize_global_var_set_def deserialize_client_var_set_def deserialize_client_var_clear_def)

lemma received_short [simp]:
  "length s \<le> 64 \<Longrightarrow> received_name s = s" "length s \<le> 1024 \<Longrightarrow> received_value s = s"
  by (simp_all add: received_name_def received_value_def clamp_variable_name_def clamp_variable_value_def
      kMaxVariableNameChars_def kMaxVariableValueChars_def)

theorem variable_messages_roundtrip_witness:
  "let g = \<lparr>gs_sender_client_no = 1, gs_device_id = ''d'', gs_variable_name = ''hp'', gs_variable_value = ''10''\<rparr>;
       c = \<lparr>cs_sender_client_no = 1, cs_device_id = ''d'', cs_target_client_no = 2, cs_variable_name = ''hp'',
            cs_variable_value = ''10''\<rparr>;
       k = \<lparr>cc_sender_client_no = 1, cc_device_id = ''d''\<rparr> in
   deserialize_global_var_set (serialize_global_var_set g @ [5]) = Some g \<and>
   deserialize_client_var_set (serialize_client_var_set c @ [5]) = Some c \<and>
   deserialize_client_var_clear (serialize_client_var_clear k @ [5]) = Some k"
proof -
  let ?g = "\<lparr>gs_sender_client_no = 1, gs_device_id = ''d'', gs_variable_name = ''hp'', gs_variable_value = ''10''\<rparr>"
  let ?c = "\<lparr>cs_sender_client_no = 1, cs_device_id = ''d'', cs_target_client_no = 2, cs_variable_name = ''hp'',
            cs_variable_value = ''10''\<rparr>"
  let ?k = "\<lparr>cc_sender_client_no = 1, cc_device_id = ''d''\<rparr>"
  have "length (serialize_global_var_set ?g @ [5]) < 2 ^ 64" "length (serialize_client_var_set ?c @ [5]) < 2 ^ 64"
    "length (serialize_client_var_clear ?k @ [5]) < 2 ^ 64"
    by (simp_all add: global_var_set.layout client_var_set.layout client_var_clear.layout enc_global_var_set_def
        enc_client_var_set_def)
  from variable_messages_roundtrip [OF this] show ?thesis
    by (simp add: received_global_var_set_def received_client_var_set_def received_client_var_clear_def)
qed

text \<open>C11. A global variable snapshot is received entry by entry, in order. The count on the wire is
  the number of entries modulo 65536 while every entry is written: of a larger snapshot only the
  first \<open>length mod 65536\<close> entries are received.\<close>

theorem global_var_sync_received:
  assumes "length (serialize_global_var_sync m @ t) < 2 ^ 64"
  shows "deserialize_global_var_sync (serialize_global_var_sync m @ t) =
    Some (map received_variable (take (length m mod 2 ^ 16) m))"
proof -
  let ?k = "length m mod 2 ^ 16" and ?enc = "\<lambda>xs. concat (map enc_variable xs)"
  have k: "length (take ?k m) = ?k" "?k < 2 ^ 16" by (simp_all add: min_absorb2)
  have "(word_of_nat ?k :: u16) = word_of_nat (length m)" by (simp add: word_unat_eq_iff unat_of_nat)
  moreover have "?enc m = ?enc (take ?k m) @ ?enc (drop ?k m)"
    by (simp flip: concat_append map_append)
  ultimately have s: "serialize_global_var_sync m = serialize_global_var_sync (take ?k m) @ ?enc (drop ?k m)"
    unfolding global_var_sync.layout k(1) by simp
  show ?thesis
    unfolding deserialize_global_var_sync_def s append_assoc
    by (rule global_var_sync.roundtrip) (use assms s k in auto)
qed

theorem global_var_sync_received_witness:
  "deserialize_global_var_sync (serialize_global_var_sync
     [\<lparr>nv_name = ''a'', nv_value = ''1'', nv_last_writer_client_no = 4\<rparr>] @ []) =
   Some [\<lparr>nv_name = ''a'', nv_value = ''1'', nv_last_writer_client_no = 4\<rparr>]"
proof -
  let ?m = "[\<lparr>nv_name = ''a'', nv_value = ''1'', nv_last_writer_client_no = 4\<rparr>]"
  have "length (serialize_global_var_sync ?m @ []) < 2 ^ 64" by (simp add: global_var_sync.layout enc_variable_def)
  from global_var_sync_received [OF this] show ?thesis by (simp add: received_variable_def)
qed

text \<open>A client variable snapshot is received with its clients in order, each with its entries in
  order, when every count fits 16 bits.\<close>

lemma client_var_sync_roundtrip:
  assumes "length m < 2 ^ 16" "\<forall>c\<in>set m. length (snd c) < 2 ^ 16"
    "length (serialize_client_var_sync m @ t) < 2 ^ 64"
  shows "deserialize_client_var_sync (serialize_client_var_sync m @ t) =
    Some (map (\<lambda>c. (fst c, map received_variable (snd c))) m)"
  using client_var_sync.roundtrip [of m t] assms
  by (simp add: deserialize_client_var_sync_def received_client_variables_def [abs_def])

text \<open>A device id mapping of fewer than 65536 entries is received with the server version and
  every entry, in order, the stealth flag included.\<close>

lemma device_id_mapping_roundtrip:
  assumes "length (dm_mappings m) < 2 ^ 16" "length (serialize_device_id_mapping m @ t) < 2 ^ 64"
  shows "deserialize_device_id_mapping (serialize_device_id_mapping m @ t) = Some (received_device_id_mapping m)"
  unfolding deserialize_device_id_mapping_def using assms by (intro device_id_mapping.roundtrip) simp_all

text \<open>C12. What the server sends about the room is received as it was written: room pose snapshots, device id
  mappings and client variable snapshots, each of fewer than 65536 entries, come out entry by entry in
  order, with any bytes after the message ignored.\<close>

theorem server_snapshots_roundtrip:
  assumes "length (rp_clients r) < 2 ^ 16" "length (serialize_room_pose lm r @ t) < 2 ^ 64"
    and "length (dm_mappings d) < 2 ^ 16" "length (serialize_device_id_mapping d @ t) < 2 ^ 64"
    and "length v < 2 ^ 16" "\<forall>c\<in>set v. length (snd c) < 2 ^ 16" "length (serialize_client_var_sync v @ t) < 2 ^ 64"
  shows "deserialize_room_pose lm (serialize_room_pose lm r @ t) = Some (received_room_pose lm r) \<and>
    deserialize_device_id_mapping (serialize_device_id_mapping d @ t) = Some (received_device_id_mapping d) \<and>
    deserialize_client_var_sync (serialize_client_var_sync v @ t) = Some (map (\<lambda>c. (fst c, map received_variable (snd c))) v)"
  using room_pose_roundtrip [OF assms(1,2)] device_id_mapping_roundtrip [OF assms(3,4)] client_var_sync_roundtrip [OF assms(5-7)]
  by blast

theorem server_snapshots_roundtrip_witness:
  "let r = \<lparr>rp_room_id = ''room'', rp_broadcast_time = dlit 1,
         rp_clients = [\<lparr>rpc_client_no = 3, rpc_pose_time = dlit 2, rpc_body = body0\<rparr>]\<rparr>;
       d = \<lparr>dm_server_version_major = 0, dm_server_version_minor = 13, dm_server_version_patch = 1,
         dm_mappings = [\<lparr>me_client_no = 5, me_device_id = ''x'', me_is_stealth = True\<rparr>]\<rparr>;
       v = [(7, [\<lparr>nv_name = ''a'', nv_value = ''1'', nv_last_writer_client_no = 4\<rparr>]), (9, [])]
   in deserialize_room_pose lm0 (serialize_room_pose lm0 r @ [0]) = Some (received_room_pose lm0 r) \<and>
      deserialize_device_id_mapping (serialize_device_id_mapping d @ [0]) = Some d \<and>
      deserialize_client_var_sync (serialize_client_var_sync v @ [0]) = Some v"
proof -
  let ?r = "\<lparr>rp_room_id = ''room'', rp_broadcast_time = dlit 1,
         rp_clients = [\<lparr>rpc_client_no = 3, rpc_pose_time = dlit 2, rpc_body = body0\<rparr>]\<rparr>"
  let ?d = "\<lparr>dm_server_version_major = 0, dm_server_version_minor = 13, dm_server_version_patch = 1,
         dm_mappings = [\<lparr>me_client_no = 5, me_device_id = ''x'', me_is_stealth = True\<rparr>]\<rparr>"
  let ?v = "[(7, [\<lparr>nv_name = ''a'', nv_value = ''1'', nv_last_writer_client_no = 4\<rparr>]), (9, [])]"
  have "length (serialize_room_pose lm0 ?r @ [0]) < 2 ^ 64"
    using length_enc_pose_body [of lm0 body0] by (simp add: room_pose.layout enc_room_pose_def enc_room_pose_client_def)
  moreover have "length (serialize_device_id_mapping ?d @ [0]) < 2 ^ 64"
    by (simp add: device_id_mapping.layout enc_device_id_mapping_def enc_mapping_entry_def)
  moreover have "length (serialize_client_var_sync ?v @ [0]) < 2 ^ 64"
    by (simp add: client_var_sync.layout enc_variable_def enc_client_variables_def)
  ultimately show ?thesis using server_snapshots_roundtrip [of ?r lm0 "[0]" ?d ?v]
    by (simp add: received_device_id_mapping_def received_mapping_entry_def received_variable_def)
qed

text \<open>C13. The object messages: an object pose and a room object snapshot are received on the
  quantisation grid, the three ownership messages unchanged.\<close>

theorem object_messages_roundtrip:
  assumes "length (rom_objects s) < 2 ^ 16" "length (serialize_room_objects s @ t) < 2 ^ 64"
    "length (serialize_object_pose p @ t) < 2 ^ 64" "length (serialize_object_ownership_request q @ t) < 2 ^ 64"
    "length t < 2 ^ 63"
  shows "deserialize_room_objects (serialize_room_objects s @ t) = Some (received_room_objects s) \<and>
    deserialize_object_pose (serialize_object_pose p @ t) = Some (received_object_pose p) \<and>
    deserialize_object_ownership_request (serialize_object_ownership_request q @ t) = Some (received_ownership_request q) \<and>
    deserialize_object_ownership_changed (serialize_object_ownership_changed c @ t) = Some c \<and>
    deserialize_object_ownership_rejected (serialize_object_ownership_rejected r @ t) = Some r"
proof -
  have "length (serialize_object_ownership_changed c @ t) < 2 ^ 64" "length (serialize_object_ownership_rejected r @ t) < 2 ^ 64"
    using assms(5) by (simp_all add: ownership_changed.layout ownership_rejected.layout)
  then show ?thesis
    using assms room_objects.roundtrip [of s t] object_pose.roundtrip [of p t] ownership_request.roundtrip [of q t]
      ownership_changed.roundtrip [of c t] ownership_rejected.roundtrip [of r t]
    by (simp add: deserialize_room_objects_def deserialize_object_pose_def deserialize_object_ownership_request_def
        deserialize_object_ownership_changed_def deserialize_object_ownership_rejected_def)
qed

theorem object_messages_roundtrip_witness:
  "let c = \<lparr>oc_object_id = 77, oc_new_owner_client_no = 2, oc_previous_owner_client_no = 0\<rparr>;
       q = \<lparr>or_device_id = ''d'', or_operation_type = OWNERSHIP_OP_REQUEST, or_object_id = 77\<rparr> in
   deserialize_object_ownership_changed (serialize_object_ownership_changed c @ [1]) = Some c \<and>
   deserialize_object_ownership_request (serialize_object_ownership_request q @ [1]) = Some q"
proof -
  let ?q = "\<lparr>or_device_id = ''d'', or_operation_type = OWNERSHIP_OP_REQUEST, or_object_id = 77\<rparr>"
  let ?s = "\<lparr>rom_broadcast_time = dlit 0, rom_objects = []\<rparr>"
  let ?p = "\<lparr>op_device_id = ''d'', op_object_id = 1, op_pose_seq = 0, op_position = Vec3_default, op_rotation = Quat_default\<rparr>"
  have l: "length (rom_objects ?s) < 2 ^ 16" "length (serialize_room_objects ?s @ [1]) < 2 ^ 64"
    "length (serialize_object_pose ?p @ [1]) < 2 ^ 64" "length (serialize_object_ownership_request ?q @ [1]) < 2 ^ 64"
    "length [1 :: u8] < 2 ^ 63"
    by (simp_all add: room_objects.layout object_pose.layout ownership_request.layout enc_object_pose_def enc_pose24_def)
  show ?thesis
    using object_messages_roundtrip [OF l, of "\<lparr>oc_object_id = 77, oc_new_owner_client_no = 2, oc_previous_owner_client_no = 0\<rparr>"]
    by (simp add: received_ownership_request_def)
qed



lemma accepted_type:
  assumes "message_codec ser t v body enc recv fits" "message_body t v body data = Some m" "length data < 2 ^ 64"
  shows "peek_message_type data = t"
proof (cases data)
  case Nil
  let ?bad = "(mk_reader [])\<lparr>r_ok := False\<rparr>"
  have "run_state read_u8 (mk_reader []) = (0, ?bad)" "run_state read_u8 ?bad = (0, ?bad)"
    by (simp_all add: read_u8_def require_def mk_reader_def)
  then have "message_body t v body [] = None"
    by (simp add: message_body_def message_program_def run_reader_def begin_message_def kProtocolVersion_def)
  then show ?thesis using assms(2) Nil by simp
next
  case (Cons b bs)
  then show ?thesis
    using message_codec.other_type_rejected [OF assms(1), of b bs] assms(2,3)
    by (auto simp: peek_message_type_def)
qed

lemmas message_codec_facts = hello.message_codec_axioms client_pose.message_codec_axioms
  room_pose.message_codec_axioms rpc.message_codec_axioms device_id_mapping.message_codec_axioms
  global_var_set.message_codec_axioms global_var_sync.message_codec_axioms
  client_var_set.message_codec_axioms client_var_sync.message_codec_axioms
  client_var_clear.message_codec_axioms object_pose.message_codec_axioms
  room_objects.message_codec_axioms ownership_request.message_codec_axioms
  ownership_changed.message_codec_axioms ownership_rejected.message_codec_axioms

text \<open>C9. A deserialiser accepts only payloads that begin with its own message type byte, so the
  dispatch on the first byte hands every accepted payload to the one deserialiser that reads it.\<close>

theorem accepted_payloads_carry_their_type:
  assumes "length data < 2 ^ 64"
  shows "(deserialize_client_hello data \<noteq> None \<longrightarrow> peek_message_type data = MSG_CLIENT_HELLO) \<and>
    (deserialize_client_pose lm data \<noteq> None \<longrightarrow> peek_message_type data = MSG_CLIENT_POSE) \<and>
    (deserialize_room_pose lm data \<noteq> None \<longrightarrow> peek_message_type data = MSG_ROOM_POSE) \<and>
    (deserialize_rpc data \<noteq> None \<longrightarrow> peek_message_type data = MSG_RPC) \<and>
    (deserialize_device_id_mapping data \<noteq> None \<longrightarrow> peek_message_type data = MSG_DEVICE_ID_MAPPING) \<and>
    (deserialize_global_var_set data \<noteq> None \<longrightarrow> peek_message_type data = MSG_GLOBAL_VAR_SET) \<and>
    (deserialize_global_var_sync data \<noteq> None \<longrightarrow> peek_message_type data = MSG_GLOBAL_VAR_SYNC) \<and>
    (deserialize_client_var_set data \<noteq> None \<longrightarrow> peek_message_type data = MSG_CLIENT_VAR_SET) \<and>
    (deserialize_client_var_sync data \<noteq> None \<longrightarrow> peek_message_type data = MSG_CLIENT_VAR_SYNC) \<and>
    (deserialize_client_var_clear data \<noteq> None \<longrightarrow> peek_message_type data = MSG_CLIENT_VAR_CLEAR) \<and>
    (deserialize_object_pose data \<noteq> None \<longrightarrow> peek_message_type data = MSG_OBJECT_POSE) \<and>
    (deserialize_room_objects data \<noteq> None \<longrightarrow> peek_message_type data = MSG_ROOM_OBJECTS) \<and>
    (deserialize_object_ownership_request data \<noteq> None \<longrightarrow> peek_message_type data = MSG_OBJECT_OWNERSHIP_REQUEST) \<and>
    (deserialize_object_ownership_changed data \<noteq> None \<longrightarrow> peek_message_type data = MSG_OBJECT_OWNERSHIP_CHANGED) \<and>
    (deserialize_object_ownership_rejected data \<noteq> None \<longrightarrow> peek_message_type data = MSG_OBJECT_OWNERSHIP_REJECTED)"
proof -
  note a = accepted_type [OF _ _ assms]
  show ?thesis
    unfolding deserialize_client_hello_def deserialize_client_pose_def deserialize_room_pose_def deserialize_rpc_def
      deserialize_device_id_mapping_def deserialize_global_var_set_def deserialize_global_var_sync_def
      deserialize_client_var_set_def deserialize_client_var_sync_def deserialize_client_var_clear_def
      deserialize_object_pose_def deserialize_room_objects_def deserialize_object_ownership_request_def
      deserialize_object_ownership_changed_def deserialize_object_ownership_rejected_def not_None_eq
    by (intro conjI impI; elim exE)
      (rule a, rule message_codec_facts, assumption)+
qed

theorem accepted_payloads_carry_their_type_witness:
  "peek_message_type [16, 77, 0, 0, 0, 2, 0, 0, 0] = MSG_OBJECT_OWNERSHIP_CHANGED"
proof -
  let ?d = "[16, 77, 0, 0, 0, 2, 0, 0, 0 :: u8]"
  have l: "length ?d < 2 ^ 64" by simp
  let ?m = "\<lparr>oc_object_id = 77, oc_new_owner_client_no = 2, oc_previous_owner_client_no = 0\<rparr>"
  have s: "serialize_object_ownership_changed ?m = ?d" by code_simp
  have "deserialize_object_ownership_changed ?d \<noteq> None"
    unfolding deserialize_object_ownership_changed_def using ownership_changed.roundtrip [of ?m "[]"]
    by (simp add: s)
  moreover have "deserialize_object_ownership_changed ?d \<noteq> None \<longrightarrow>
      peek_message_type ?d = MSG_OBJECT_OWNERSHIP_CHANGED"
    using accepted_payloads_carry_their_type [OF l, of lm0] by (elim conjE)
  ultimately show ?thesis by (rule rev_mp)
qed

text \<open>C14. A stealth client's pose message carries no pose: whatever the body holds, the receiver gets
  the sequence number, the stealth flag alone and no transform, and with sequence number 0 the bytes
  are those of the stealth handshake.\<close>

theorem stealth_pose_reveals_nothing:
  assumes "pb_flags (cp_body m) AND POSE_FLAG_STEALTH \<noteq> 0"
  shows "serialize_client_pose lm m =
      [MSG_CLIENT_POSE, kProtocolVersion] @ enc_string8 (truncate_utf8_bytes (cp_device_id m) 255) @
      enc_u16 (pb_pose_seq (cp_body m)) @ [POSE_FLAG_STEALTH, ENCODING_FLAGS_DEFAULT, 0] \<and>
    (pb_pose_seq (cp_body m) = 0 \<longrightarrow>
      serialize_client_pose lm m = serialize_stealth_handshake_pose (cp_device_id m))"
proof -
  have f: "sanitize_pose_flags (pb_flags (cp_body m)) = POSE_FLAG_STEALTH"
    using assms by (simp add: sanitize_pose_flags_def)
  have "enc_pose_body lm (cp_body m) =
      enc_u16 (pb_pose_seq (cp_body m)) @ [POSE_FLAG_STEALTH, ENCODING_FLAGS_DEFAULT, 0]"
    unfolding enc_pose_body_def f Let_def by (simp add: sent_virtuals_def pose_flag_defs compute_encoding_flags_def)
  then have s: "serialize_client_pose lm m =
      [MSG_CLIENT_POSE, kProtocolVersion] @ enc_string8 (truncate_utf8_bytes (cp_device_id m) 255) @
      enc_u16 (pb_pose_seq (cp_body m)) @ [POSE_FLAG_STEALTH, ENCODING_FLAGS_DEFAULT, 0]"
    by (simp add: client_pose.layout)
  then show ?thesis by (simp add: serialize_stealth_handshake_pose_def wire_defs)
qed

theorem stealth_pose_reveals_nothing_witness:
  "serialize_client_pose lm0 \<lparr>cp_device_id = ''dev'', cp_body = body0\<lparr>pb_flags := 0x7F, pb_pose_seq := 0\<rparr>\<rparr> =
     serialize_stealth_handshake_pose ''dev''"
proof -
  let ?m = "\<lparr>cp_device_id = ''dev'', cp_body = body0\<lparr>pb_flags := 0x7F, pb_pose_seq := 0\<rparr>\<rparr>"
  have "pb_flags (cp_body ?m) AND POSE_FLAG_STEALTH \<noteq> 0" by (simp add: pose_flag_defs)
  from conjunct2 [OF stealth_pose_reveals_nothing [OF this, of lm0]] show ?thesis by simp
qed

text \<open>No client pose message exceeds 804 bytes: five bytes of header and flags, eight for the
  physical pose, thirteen for the head, ten per hand and per virtual transform, at most fifty of
  those, one count byte, and an identity of at most 256 bytes with its length.\<close>

lemma client_pose_size:
  "8 \<le> length (serialize_client_pose lm m) \<and> length (serialize_client_pose lm m) \<le> 804"
  using length_serialize_client_pose [of lm m]
  by (simp add: client_pose.layout enc_pose_body_def Let_def)

end
