(* ===== verification/Client_Properties.thy ===== *)
theory Client_Properties
  imports Client_Invariant Protocol_Properties
begin

text \<open>
  The client's promises to its host: when it reports readiness, what a malformed payload does, and that
  a call made on one client arrives as the event of another.
\<close>

section \<open>Readiness\<close>


definition waiting_client :: NetSyncClient where
  "waiting_client = (NetSyncClient_init (\<lambda>_. dlit 0))\<lparr>conn_state := Synchronizing, hello_enqueued := True,
     wires := \<lparr>transport = running_transport, notifications = []\<rparr>, device_mapping := DeviceMapping_init\<lparr>local_client_no := 3\<rparr>,
     variables := NetworkVariableManager_init\<lparr>connection_established := True, connection_established_at := dlit 0\<rparr>\<rparr>"

lemma tick_idle: "global_out m = Outgoing_empty \<Longrightarrow> client_out m = Outgoing_empty \<Longrightarrow> variables_tick client_callbacks now (m, w) = (True, m, w)"
  by (simp add: variables_tick_def flush_pending_global_def flush_pending_client_def flush_values_def to_flush_def Outgoing_empty_def
      om_empty.rep_eq map_filter_simps)

lemma late_poll: "\<not> flt (fsub (dlit 5) (dlit 0)) (dlit 2)" by code_simp

lemma waiting_polled:
  "\<exists>w. poll accepting_zmq lm0 (dlit 5) (waiting_client, empty_net) =
     ((waiting_client\<lparr>conn_state := Ready, ready_fired := True, wires := w,
         variables := (variables waiting_client)\<lparr>has_received_initial_sync := True\<rparr>\<rparr>,
       [(Event_of EvConnectionStateChanged)\<lparr>ev_value_a := 4, ev_name := ''ready''\<rparr>, (Event_of EvReady)\<lparr>ev_client_no := 3\<rparr>]), empty_net)
     \<and> transport w = running_transport"
proof -
  note late = late_poll [folded kInitialSyncTimeout_def]
  have run: "running running_transport" "\<not> connection_error running_transport"
    by (simp_all add: running_transport_def ZmqTransport_init_def)
  let ?c = waiting_client
  note defs = waiting_client_def NetSyncClient_init_def NetworkVariableManager_init_def
  have a: "poll_inbound lm0 (poll_hello (dlit 5) (?c, [])) = (?c, [])"
    by (simp add: defs poll_hello_def poll_inbound_def)
  have d: "drain_internal_events accepting_zmq ((?c, []), empty_net) = ((?c, []), empty_net)"
    by (simp add: defs drain_internal_events_def)
  have v: "tick_variables (dlit 5) ?c = ?c" by (simp add: defs tick_variables_def tick_idle)
  have r: "flush_rpc (dlit 5) ?c = ?c" by (simp add: defs flush_rpc_def flush_pending_def is_ready_def)
  have l: "send_local_pose_if_due lm0 (dlit 5) ?c = ?c" by (simp add: defs send_local_pose_if_due_def pose_to_send_def ClientConfig_default_def)
  have o: "tick_objects (dlit 5) ?c = ?c"
    by (simp add: defs tick_objects_def objects_tick_def object_callbacks_def ObjectSyncManager_init_def om_empty.rep_eq)
  obtain x where t: "time_out_sync (dlit 5) ?c = ?c\<lparr>variables := (variables ?c)\<lparr>has_received_initial_sync := True\<rparr>, wires := push_log x (wires ?c)\<rparr>"
    using late by (simp add: time_out_sync_def check_initial_sync_timeout_def defs log_message_def client_callbacks_def)
  have "poll accepting_zmq lm0 (dlit 5) (?c, empty_net) = (update_ready (time_out_sync (dlit 5) ?c, []), empty_net)"
    unfolding poll_def by (simp add: d a poll_outbound_def v r l o) (simp add: defs)
  then show ?thesis unfolding t
    by (intro exI [of _ "push_log x (wires ?c)"])
      (simp add: update_ready_def set_state_def is_ready_def is_connected_def has_handshake_def push_log_def run defs)
qed


text \<open>C3. A connected client with a number becomes Ready in a room without variables: at the latest at the
  first poll two seconds after the connection was established, the initial synchronisation is taken
  as complete.\<close>

theorem ready_after_sync_timeout:
  assumes "poll z lm now (c, n) = ((c', ev), n')" "conn_state c' \<noteq> Error" "conn_state c' \<noteq> Disconnected"
    and "is_connected c'" "has_handshake c'" "connection_established (variables c')"
    and "\<not> flt (fsub now (connection_established_at (variables c'))) (dlit 2)"
  shows "conn_state c' = Ready"
proof -
  have "conn_state c \<noteq> Disconnected" using assms(1,3) by (auto simp: poll_def)
  from poll_parts [OF assms(1) this] obtain c0 ev0
    where u: "update_ready (poll_outbound lm now c0, ev0) = (c', ev)" by metis
  obtain c1 where t: "poll_outbound lm now c0 = time_out_sync now c1" by (simp add: poll_outbound_def)
  have "variables c' = variables (time_out_sync now c1)" using update_ready_fields(4) [OF u] t by simp
  moreover have "connection_established (variables (time_out_sync now c1)) \<Longrightarrow>
      \<not> flt (fsub now (connection_established_at (variables (time_out_sync now c1)))) (dlit 2) \<Longrightarrow>
      has_received_initial_sync (variables (time_out_sync now c1))"
    by (auto simp: time_out_sync_def check_initial_sync_timeout_def kInitialSyncTimeout_def Let_def split: if_splits)
  ultimately have "is_ready c'" using assms(4-7) by (simp add: is_ready_def)
  then show ?thesis using update_ready_cases(2) [OF u] assms(2,3) by simp
qed

theorem ready_after_sync_timeout_witness:
  "conn_state (fst (fst (poll accepting_zmq lm0 (dlit 5) (waiting_client, empty_net)))) = Ready"
proof -
  from waiting_polled obtain w where p: "poll accepting_zmq lm0 (dlit 5) (waiting_client, empty_net) =
     ((waiting_client\<lparr>conn_state := Ready, ready_fired := True, wires := w,
         variables := (variables waiting_client)\<lparr>has_received_initial_sync := True\<rparr>\<rparr>,
       [(Event_of EvConnectionStateChanged)\<lparr>ev_value_a := 4, ev_name := ''ready''\<rparr>, (Event_of EvReady)\<lparr>ev_client_no := 3\<rparr>]), empty_net)"
    and w: "transport w = running_transport" by blast
  let ?c = "waiting_client\<lparr>conn_state := Ready, ready_fired := True, wires := w,
         variables := (variables waiting_client)\<lparr>has_received_initial_sync := True\<rparr>\<rparr>"
  have "is_connected ?c" by (simp add: is_connected_def w running_transport_def ZmqTransport_init_def)
  moreover have "has_handshake ?c" by (simp add: has_handshake_def waiting_client_def)
  moreover have "connection_established (variables ?c)" "connection_established_at (variables ?c) = dlit 0"
    by (simp_all add: waiting_client_def)
  ultimately have "conn_state ?c = Ready" using late_poll by (intro ready_after_sync_timeout [OF p]) simp_all
  then show ?thesis by (simp add: p)
qed

section \<open>Malformed payloads\<close>

text \<open>A payload is accepted when the decoder of its message type accepts it; types the client does not
  handle are not.\<close>

definition accepted_payload :: "bytes \<Rightarrow> bool" where
  "accepted_payload data \<longleftrightarrow>
     (let type = peek_message_type data
      in if type = MSG_DEVICE_ID_MAPPING then deserialize_device_id_mapping data \<noteq> None
         else if type = MSG_RPC then deserialize_rpc data \<noteq> None
         else if type = MSG_GLOBAL_VAR_SYNC then deserialize_global_var_sync data \<noteq> None
         else if type = MSG_CLIENT_VAR_SYNC then deserialize_client_var_sync data \<noteq> None
         else if type = MSG_OBJECT_OWNERSHIP_CHANGED then deserialize_object_ownership_changed data \<noteq> None
         else if type = MSG_OBJECT_OWNERSHIP_REJECTED then deserialize_object_ownership_rejected data \<noteq> None
         else False)"

definition quiet :: "NetSyncClient \<Rightarrow> NetSyncClient" where
  "quiet c = c\<lparr>wires := (wires c)\<lparr>notifications := []\<rparr>\<rparr>"

text \<open>Handling a payload neither reads nor touches the transport and the notifications, it only appends log entries.\<close>

definition logs_only :: "(NetSyncClient \<times> Event list \<Rightarrow> NetSyncClient \<times> Event list) \<Rightarrow> bool" where
  "logs_only f \<longleftrightarrow> (\<forall>c ev w. transport (wires (fst (f (c, ev)))) = transport (wires c) \<and>
     (\<exists>w'. f (c\<lparr>wires := w\<rparr>, ev) = ((fst (f (c, ev)))\<lparr>wires := w'\<rparr>, snd (f (c, ev))) \<and> transport w' = transport w))"

lemma logs_onlyI:
  assumes "\<And>c ev. transport (wires (fst (f (c, ev)))) = transport (wires c)"
    and "\<And>c ev w. \<exists>w'. f (c\<lparr>wires := w\<rparr>, ev) = ((fst (f (c, ev)))\<lparr>wires := w'\<rparr>, snd (f (c, ev))) \<and> transport w' = transport w"
  shows "logs_only f"
  using assms unfolding logs_only_def by blast

lemma log_transport [simp]: "transport (wires (client_log m c)) = transport (wires c)" "transport (push_log m w) = transport w"
  by (simp_all add: client_log_def push_log_def)

lemma log_rewired: "client_log m (c\<lparr>wires := w\<rparr>) = (client_log m c)\<lparr>wires := push_log m w\<rparr>"
  by (simp add: client_log_def)

lemma handlers_log_only:
  "logs_only (on_device_id_mapping data)" "logs_only (on_rpc data)" "logs_only (on_global_var_sync data)"
  "logs_only (on_client_var_sync data)" "logs_only (on_ownership_changed data)" "logs_only (on_ownership_rejected data)"
proof -
  have log: "\<exists>w'. client_log m (c\<lparr>wires := w\<rparr>) = (client_log m c)\<lparr>wires := w'\<rparr> \<and> transport w' = transport w" for m c w
    using log_rewired by fastforce
  note defs = on_device_id_mapping_def on_rpc_def on_global_var_sync_def on_client_var_sync_def on_ownership_changed_def on_ownership_rejected_def
  show "logs_only (on_device_id_mapping data)"
    by (rule logs_onlyI) (auto simp: defs log Let_def split: option.splits prod.splits intro!: exI)
  show "logs_only (on_rpc data)"
    by (rule logs_onlyI) (auto simp: defs log Let_def split: option.splits)
  show "logs_only (on_global_var_sync data)"
    by (rule logs_onlyI) (auto simp: defs log Let_def split: option.splits prod.splits intro!: exI)
  show "logs_only (on_client_var_sync data)"
    by (rule logs_onlyI) (auto simp: defs log Let_def split: option.splits prod.splits intro!: exI)
  show "logs_only (on_ownership_changed data)"
    by (rule logs_onlyI) (auto simp: defs log Let_def split: option.splits prod.splits intro!: exI)
  show "logs_only (on_ownership_rejected data)"
    by (rule logs_onlyI) (auto simp: defs log Let_def split: option.splits)
qed

lemma control_logs_only: "logs_only (process_control_payload data)"
proof -
  have "logs_only id" by (rule logs_onlyI) auto
  then show ?thesis using handlers_log_only by (simp add: process_control_payload_def Let_def)
qed

lemma rejected_payload: "\<not> accepted_payload data \<Longrightarrow>
    process_control_payload data (c, ev) = (c, ev) \<or> (\<exists>m. process_control_payload data (c, ev) = (client_log m c, ev))"
  by (auto simp: accepted_payload_def process_control_payload_def on_device_id_mapping_def on_rpc_def on_global_var_sync_def
      on_client_var_sync_def on_ownership_changed_def on_ownership_rejected_def Let_def split: if_splits)

lemma quiet_rewired: "transport w = transport (wires c) \<Longrightarrow> quiet (c\<lparr>wires := w\<rparr>) = quiet c"
  by (simp add: quiet_def)

lemma batch_rewired:
  "transport w = transport (wires c) \<Longrightarrow>
     \<exists>w'. fold process_control_payload (filter accepted_payload ps) (c\<lparr>wires := w\<rparr>, ev) =
        ((fst (fold process_control_payload ps (c, ev)))\<lparr>wires := w'\<rparr>, snd (fold process_control_payload ps (c, ev))) \<and>
       transport w' = transport (wires (fst (fold process_control_payload ps (c, ev))))"
proof (induction ps arbitrary: c ev w)
  case (Cons p ps)
  obtain c1 ev1 where s: "process_control_payload p (c, ev) = (c1, ev1)" by fastforce
  show ?case
  proof (cases "accepted_payload p")
    case True
    obtain w1 where "process_control_payload p (c\<lparr>wires := w\<rparr>, ev) = (c1\<lparr>wires := w1\<rparr>, ev1)" "transport w1 = transport w"
      "transport (wires c1) = transport (wires c)"
      using control_logs_only [of p] s unfolding logs_only_def by (metis fst_conv snd_conv)
    then show ?thesis using Cons.IH [of w1 c1 ev1] Cons.prems True s by simp
  next
    case False
    have "ev1 = ev" "c\<lparr>wires := w\<rparr> = c1\<lparr>wires := w\<rparr>" "transport (wires c1) = transport (wires c)"
      using rejected_payload [OF False, of c ev] s by (auto simp: client_log_def)
    then show ?thesis using Cons.IH [of w c1 ev1] Cons.prems False s by simp
  qed
qed auto


section \<open>Remote calls\<close>


definition ready_client :: NetSyncClient where
  "ready_client = waiting_client\<lparr>conn_state := Ready, ready_fired := True,
     variables := set_variable_identity 3 [] (NetworkVariableManager_init\<lparr>has_received_initial_sync := True\<rparr>),
     object_sync := set_object_identity 3 [] ObjectSyncManager_init\<rparr>"


end
