(* ===== verification/Coordinates.thy ===== *)
theory Coordinates
  imports Protocol_V8
begin

text \<open>
  \<open>src/godot/coordinate_converter.*\<close>: the reflection between Godot's and the wire's axes, on vectors,
  matrices and quaternions. The lemmas compare doubles by value: the two zeros count as one, and the
  NaNs as one.
\<close>

section \<open>Matrices and conversions\<close>

text \<open>A row-major matrix, its entries by row and column, and the loop over both that fills it.\<close>

datatype Mat3 = Mat3 (rows: "double list list")

definition entry :: "Mat3 \<Rightarrow> nat \<Rightarrow> nat \<Rightarrow> double" where
  "entry m r c = rows m ! r ! c"

definition mat3 :: "(nat \<Rightarrow> nat \<Rightarrow> double) \<Rightarrow> Mat3" where
  "mat3 f = Mat3 (map (\<lambda>r. map (f r) [0..<3]) [0..<3])"

definition kReflectionDiagonal :: "nat \<Rightarrow> double" where
  "kReflectionDiagonal r = (if r = 2 then dlit (- 1) else dlit 1)"

definition reflection_matrix :: Mat3 where
  "reflection_matrix = mat3 (\<lambda>r c. if r = c then kReflectionDiagonal r else dlit 0)"

definition matrix_multiply :: "Mat3 \<Rightarrow> Mat3 \<Rightarrow> Mat3" where
  "matrix_multiply a b = mat3 (\<lambda>r c. fold (\<lambda>k sum. fadd sum (fmul (entry a r k) (entry b k c))) [0..<3] (dlit 0))"

definition matrix_transform :: "Mat3 \<Rightarrow> Vec3 \<Rightarrow> Vec3" where
  "matrix_transform m v =
     (let dot = (\<lambda>r. fadd (fadd (fmul (entry m r 0) (x_of v)) (fmul (entry m r 1) (y_of v))) (fmul (entry m r 2) (z_of v)))
      in Vec3 (dot 0) (dot 1) (dot 2))"

definition conjugate_with_reflection :: "Mat3 \<Rightarrow> Mat3" where
  "conjugate_with_reflection basis = matrix_multiply (matrix_multiply reflection_matrix basis) reflection_matrix"

definition basis_from_quaternion :: "Quat \<Rightarrow> Mat3" where
  "basis_from_quaternion q =
     (let n = normalize_quaternion q;
          xx = fmul (qx n) (qx n); yy = fmul (qy n) (qy n); zz = fmul (qz n) (qz n);
          xy = fmul (qx n) (qy n); xz = fmul (qx n) (qz n); yz = fmul (qy n) (qz n);
          wx = fmul (qw n) (qx n); wy = fmul (qw n) (qy n); wz = fmul (qw n) (qz n);
          one = dlit 1; two = dlit 2
      in Mat3 [[fsub one (fmul two (fadd yy zz)), fmul two (fsub xy wz), fmul two (fadd xz wy)],
               [fmul two (fadd xy wz), fsub one (fmul two (fadd xx zz)), fmul two (fsub yz wx)],
               [fmul two (fsub xz wy), fmul two (fadd yz wx), fsub one (fmul two (fadd xx yy))]])"

definition quaternion_from_basis :: "Mat3 \<Rightarrow> Quat" where
  "quaternion_from_basis basis =
     (let b = entry basis;
          trace = fadd (fadd (b 0 0) (b 1 1)) (b 2 2);
          quarter = dlit (1 / 4); one = dlit 1; two = dlit 2;
          out =
            (if flt (dlit 0) trace then
               let s = fmul (fsqrt (fadd trace one)) two
               in Quat (fdiv (fsub (b 2 1) (b 1 2)) s) (fdiv (fsub (b 0 2) (b 2 0)) s) (fdiv (fsub (b 1 0) (b 0 1)) s)
                    (fmul quarter s)
             else if flt (b 1 1) (b 0 0) \<and> flt (b 2 2) (b 0 0) then
               let s = fmul (fsqrt (fsub (fsub (fadd one (b 0 0)) (b 1 1)) (b 2 2))) two
               in Quat (fmul quarter s) (fdiv (fadd (b 0 1) (b 1 0)) s) (fdiv (fadd (b 0 2) (b 2 0)) s)
                    (fdiv (fsub (b 2 1) (b 1 2)) s)
             else if flt (b 2 2) (b 1 1) then
               let s = fmul (fsqrt (fsub (fsub (fadd one (b 1 1)) (b 0 0)) (b 2 2))) two
               in Quat (fdiv (fadd (b 0 1) (b 1 0)) s) (fmul quarter s) (fdiv (fadd (b 1 2) (b 2 1)) s)
                    (fdiv (fsub (b 0 2) (b 2 0)) s)
             else
               let s = fmul (fsqrt (fsub (fsub (fadd one (b 2 2)) (b 0 0)) (b 1 1))) two
               in Quat (fdiv (fadd (b 0 2) (b 2 0)) s) (fdiv (fadd (b 1 2) (b 2 1)) s) (fmul quarter s)
                    (fdiv (fsub (b 1 0) (b 0 1)) s));
          out = (if flt (qw out) (dlit 0)
                 then Quat (fneg (qx out)) (fneg (qy out)) (fneg (qz out)) (fneg (qw out)) else out)
      in normalize_quaternion out)"

definition position_godot_to_netsync :: "Vec3 \<Rightarrow> Vec3" where
  "position_godot_to_netsync position = matrix_transform reflection_matrix position"

definition position_netsync_to_godot :: "Vec3 \<Rightarrow> Vec3" where
  "position_netsync_to_godot position = matrix_transform reflection_matrix position"

definition basis_godot_to_netsync :: "Mat3 \<Rightarrow> Mat3" where
  "basis_godot_to_netsync basis = conjugate_with_reflection basis"

definition basis_netsync_to_godot :: "Mat3 \<Rightarrow> Mat3" where
  "basis_netsync_to_godot basis = conjugate_with_reflection basis"

definition rotation_godot_to_netsync :: "Quat \<Rightarrow> Quat" where
  "rotation_godot_to_netsync rotation = Quat (fneg (qx rotation)) (fneg (qy rotation)) (qz rotation) (qw rotation)"

definition rotation_netsync_to_godot :: "Quat \<Rightarrow> Quat" where
  "rotation_netsync_to_godot rotation = Quat (fneg (qx rotation)) (fneg (qy rotation)) (qz rotation) (qw rotation)"

definition yaw_degrees_godot_to_netsync :: "double \<Rightarrow> double" where
  "yaw_degrees_godot_to_netsync yaw_degrees = fneg yaw_degrees"

definition yaw_degrees_netsync_to_godot :: "double \<Rightarrow> double" where
  "yaw_degrees_netsync_to_godot yaw_degrees = fneg yaw_degrees"

definition transform_godot_to_netsync :: "PoseTransform \<Rightarrow> PoseTransform" where
  "transform_godot_to_netsync pose = \<lparr>pt_position = position_godot_to_netsync (pt_position pose),
     pt_rotation = rotation_godot_to_netsync (pt_rotation pose)\<rparr>"

definition transform_netsync_to_godot :: "PoseTransform \<Rightarrow> PoseTransform" where
  "transform_netsync_to_godot pose = \<lparr>pt_position = position_netsync_to_godot (pt_position pose),
     pt_rotation = rotation_netsync_to_godot (pt_rotation pose)\<rparr>"

section \<open>Doubles by value\<close>

text \<open>The key of a double (none for a NaN) and the arithmetic of keys.\<close>

definition vkey :: "double \<Rightarrow> int option" where
  "vkey a = (if isnan a then None else Some (okey a))"

definition same_value :: "double \<Rightarrow> double \<Rightarrow> bool" where
  "same_value a b \<longleftrightarrow> vkey a = vkey b"

definition kneg :: "int option \<Rightarrow> int option" where
  "kneg = map_option uminus"

fun kadd :: "int option \<Rightarrow> int option \<Rightarrow> int option" where
  "kadd (Some k) (Some l) =
     (if \<bar>k\<bar> = inf_mag then (if \<bar>l\<bar> = inf_mag \<and> (k < 0) \<noteq> (l < 0) then None else Some k)
      else if \<bar>l\<bar> = inf_mag then Some l else Some (rkey (sval k + sval l)))"
| "kadd _ _ = None"

fun kmul :: "int option \<Rightarrow> int option \<Rightarrow> int option" where
  "kmul (Some k) (Some l) =
     (if \<bar>k\<bar> = inf_mag \<and> l = 0 \<or> k = 0 \<and> \<bar>l\<bar> = inf_mag then None
      else if \<bar>k\<bar> = inf_mag \<or> \<bar>l\<bar> = inf_mag then Some (if (k < 0) \<noteq> (l < 0) then - inf_mag else inf_mag)
      else Some (rkey (sval k * sval l)))"
| "kmul _ _ = None"

definition kfinite :: "int option \<Rightarrow> bool" where
  "kfinite a \<longleftrightarrow> (\<exists>k. a = Some k \<and> \<bar>k\<bar> < inf_mag)"

lemma okey_facts: "\<not> isnan a \<Longrightarrow> isinf a \<longleftrightarrow> \<bar>okey a\<bar> = inf_mag" "mag a = \<bar>okey a\<bar>" "okey a \<noteq> 0 \<Longrightarrow> neg a \<longleftrightarrow> okey a < 0"
  using mag_range(1) [of a] by (auto simp: okey_def isinf_def)

lemma inf_mag_pos [simp]: "0 < inf_mag" "inf_mag \<noteq> 0" by (simp_all add: inf_mag_def)

lemma vkey_fl [simp]: "vkey (fl s x) = Some (rkey x)" by (simp add: vkey_def)

lemma vkey_finf [simp]: "vkey (finf s) = Some (if s then - inf_mag else inf_mag)"
  by (simp add: vkey_def isnan_def okey_def)

lemma vkey_qnan [simp]: "vkey qnan = None"
  by (simp add: vkey_def qnan_def isnan_def inf_mag_def)

lemma vkey_fneg [simp]: "vkey (fneg a) = kneg (vkey a)"
  by (simp add: vkey_def kneg_def)

lemma vkey_fadd [simp]: "vkey (fadd a b) = kadd (vkey a) (vkey b)"
proof (cases "isnan a \<or> isnan b")
  case True
  then have "fadd a b = qnan" "vkey a = None \<or> vkey b = None" by (auto simp: fadd_def vkey_def)
  then show ?thesis by (cases "vkey a"; cases "vkey b") auto
next
  case False
  note fa = okey_facts [of a] and fb = okey_facts [of b]
  have "\<bar>okey a\<bar> = inf_mag \<Longrightarrow> neg a \<longleftrightarrow> okey a < 0" "\<bar>okey b\<bar> = inf_mag \<Longrightarrow> neg b \<longleftrightarrow> okey b < 0"
    using okey_facts(3) [of a] okey_facts(3) [of b] inf_mag_pos(1) by (metis abs_0 less_irrefl)+
  then show ?thesis using False fa(1) fb(1)
    by (auto simp: fadd_def vkey_def [of a] vkey_def [of b] fval_okey)
qed

lemma vkey_fmul [simp]: "vkey (fmul a b) = kmul (vkey a) (vkey b)"
proof (cases "isnan a \<or> isnan b")
  case True
  then have "fmul a b = qnan" "vkey a = None \<or> vkey b = None" by (auto simp: fmul_def vkey_def)
  then show ?thesis by (cases "vkey a"; cases "vkey b") auto
next
  case False
  then have n: "vkey a = Some (okey a)" "vkey b = Some (okey b)"
    and i: "isinf a \<longleftrightarrow> \<bar>okey a\<bar> = inf_mag" "isinf b \<longleftrightarrow> \<bar>okey b\<bar> = inf_mag"
    and z: "mag a = 0 \<longleftrightarrow> okey a = 0" "mag b = 0 \<longleftrightarrow> okey b = 0"
    using okey_facts(1,2) [of a] okey_facts(1,2) [of b] by (simp_all add: vkey_def)
  define P where "P \<longleftrightarrow> \<bar>okey a\<bar> = inf_mag \<and> okey b = 0 \<or> okey a = 0 \<and> \<bar>okey b\<bar> = inf_mag"
  define Q where "Q \<longleftrightarrow> \<bar>okey a\<bar> = inf_mag \<or> \<bar>okey b\<bar> = inf_mag"
  have "fmul a b = (if P then qnan else if Q then finf (neg a \<noteq> neg b) else fl (neg a \<noteq> neg b) (sval (okey a) * sval (okey b)))"
    using False by (simp only: fmul_def i z P_def Q_def fval_okey simp_thms if_False)
  moreover have "\<not> P \<Longrightarrow> Q \<Longrightarrow> okey a \<noteq> 0 \<and> okey b \<noteq> 0" using inf_mag_pos(2) unfolding P_def Q_def by (metis abs_zero)
  moreover have "kmul (vkey a) (vkey b) = (if P then None else if Q then Some (if (okey a < 0) \<noteq> (okey b < 0) then - inf_mag else inf_mag)
      else Some (rkey (sval (okey a) * sval (okey b))))"
    by (simp only: n kmul.simps P_def Q_def)
  ultimately show ?thesis using okey_facts(3) [of a] okey_facts(3) [of b] by (cases P; cases Q) simp_all
qed

lemma sval_minus [simp]: "sval (- k) = - sval k"
  by (auto simp: sval_def)

lemma kneg_kneg [simp]: "kneg (kneg a) = a" by (cases a) (simp_all add: kneg_def)

lemma kneg_kadd: "kneg (kadd a b) = kadd (kneg a) (kneg b)"
  by (cases "(a, b)" rule: kadd.cases) (auto simp: kneg_def rkey_minus [symmetric])

lemma kmul_kneg: "kmul (kneg a) b = kmul a (kneg b)" and kneg_kmul: "kneg (kmul a b) = kmul a (kneg b)"
  by (cases "(a, b)" rule: kmul.cases; auto simp: kneg_def rkey_minus [symmetric])+

lemma kneg_zero [simp]: "kneg (Some 0) = Some 0" by (simp add: kneg_def)

lemma rkey_sval: "\<bar>k\<bar> \<le> inf_mag \<Longrightarrow> rkey (sval k) = k"
proof -
  assume k: "\<bar>k\<bar> \<le> inf_mag"
  define d where "d = mk (k < 0) \<bar>k\<bar>"
  have "\<bar>k\<bar> < 2 ^ 63" using k by (simp add: inf_mag_def)
  then have "okey d = k" "\<not> isnan d" using k by (auto simp: d_def okey_def isnan_def)
  then show ?thesis using rkey_fval [of d] by (simp add: fval_okey)
qed

text \<open>The constants of the reflection, on finite values.\<close>

lemma vkey_constants [simp]: "vkey (dlit 0) = Some 0" "vkey (dlit (- 1)) = kneg (vkey (dlit 1))"
  by (simp_all add: dlit_def kneg_def rkey_minus) (simp add: rkey_def rnd_mag_def)

lemma kfinite_iff: "kfinite (vkey a) \<longleftrightarrow> isfinite a"
proof (cases "isnan a")
  case False
  have "\<bar>okey a\<bar> < inf_mag \<longleftrightarrow> \<not> isinf a" using okey_facts(1) [OF False] okey_bounds [OF False] by linarith
  then show ?thesis using False by (simp add: kfinite_def vkey_def isfinite_iff)
qed (simp add: kfinite_def vkey_def isfinite_iff)

lemma one_key: "\<exists>k. vkey (dlit 1) = Some k \<and> sval k = 1 \<and> \<bar>k\<bar> < inf_mag"
proof -
  have f: "isfinite (dlit 1)" by simp
  have v: "fval (dlit 1) = 1" by simp
  have n: "\<not> isnan (dlit 1)" using f unfolding isfinite_iff by blast
  obtain k where k: "vkey (dlit 1) = Some k" "\<bar>k\<bar> < inf_mag" using f kfinite_iff [of "dlit 1"] unfolding kfinite_def by blast
  then have "k = okey (dlit 1)" using n unfolding vkey_def by (metis option.inject)
  then show ?thesis using k v unfolding fval_okey by blast
qed

lemma kmul_unit:
  assumes "sval k = 1" "\<bar>k\<bar> < inf_mag" "\<bar>l\<bar> < inf_mag"
  shows "kmul (Some k) (Some l) = Some l" "kmul (Some l) (Some k) = Some l"
proof -
  have "\<bar>k\<bar> \<noteq> inf_mag" "\<bar>l\<bar> \<noteq> inf_mag" "rkey (sval l) = l"
    using less_imp_neq [OF assms(2)] less_imp_neq [OF assms(3)] rkey_sval [OF less_imp_le [OF assms(3)]] by blast+
  then show "kmul (Some k) (Some l) = Some l" "kmul (Some l) (Some k) = Some l"
    by (simp_all only: kmul.simps assms(1) simp_thms if_False mult_1_left mult_1_right)
qed

lemma kmul_one: "kfinite a \<Longrightarrow> kmul (vkey (dlit 1)) a = a" "kfinite a \<Longrightarrow> kmul a (vkey (dlit 1)) = a"
proof -
  assume a: "kfinite a"
  obtain k l where kl: "vkey (dlit 1) = Some k" "sval k = 1" "\<bar>k\<bar> < inf_mag" "a = Some l" "\<bar>l\<bar> < inf_mag"
    using one_key a unfolding kfinite_def by blast
  then show "kmul (vkey (dlit 1)) a = a" "kmul a (vkey (dlit 1)) = a"
    unfolding kl(1,4) by (simp_all only: kmul_unit)
qed

lemma sval_0 [simp]: "sval 0 = 0" by (simp add: sval_def)

lemma rkey_0 [simp]: "rkey 0 = 0" by (simp add: rkey_def rnd_mag_def)

lemma kmul_zero: "kfinite a \<Longrightarrow> kmul (Some 0) a = Some 0" "kfinite a \<Longrightarrow> kmul a (Some 0) = Some 0"
  by (auto simp: kfinite_def)

lemma kadd_zero: "kfinite a \<Longrightarrow> kadd (Some 0) a = a" "kfinite a \<Longrightarrow> kadd a (Some 0) = a"
  by (auto simp: kfinite_def rkey_sval)

lemma kfinite_kneg [simp]: "kfinite (kneg a) = kfinite a"
  by (cases a) (auto simp: kfinite_def kneg_def)

lemma kmul_minus_one: "kfinite a \<Longrightarrow> kmul a (kneg (vkey (dlit 1))) = kneg a"
  using kmul_one(2) [of a] kneg_kmul [of a "vkey (dlit 1)"] by simp

lemmas key_arith = kmul_one kmul_zero kadd_zero kmul_kneg

section \<open>The closed forms\<close>

lemma fmul_fneg_fneg: "fmul (fneg a) (fneg b) = fmul a b"
  by (simp add: fmul_def)

lemma normalize_reflected:
  fixes q
  defines "n \<equiv> normalize_quaternion q" and "n' \<equiv> normalize_quaternion (rotation_godot_to_netsync q)"
  shows "vkey (qx n') = kneg (vkey (qx n))" "vkey (qy n') = kneg (vkey (qy n))"
    "vkey (qz n') = vkey (qz n)" "vkey (qw n') = vkey (qw n)"
  by (simp_all add: n_def n'_def normalize_quaternion_def rotation_godot_to_netsync_def fmul_fneg_fneg Let_def
      kneg_kmul kmul_kneg [symmetric])

lemma entry_basis [simp]:
  "entry (Mat3 [[a, b, c], [d, e, f], [g, h, i]]) 0 0 = a" "entry (Mat3 [[a, b, c], [d, e, f], [g, h, i]]) 0 (Suc 0) = b"
  "entry (Mat3 [[a, b, c], [d, e, f], [g, h, i]]) 0 2 = c" "entry (Mat3 [[a, b, c], [d, e, f], [g, h, i]]) (Suc 0) 0 = d"
  "entry (Mat3 [[a, b, c], [d, e, f], [g, h, i]]) (Suc 0) (Suc 0) = e" "entry (Mat3 [[a, b, c], [d, e, f], [g, h, i]]) (Suc 0) 2 = f"
  "entry (Mat3 [[a, b, c], [d, e, f], [g, h, i]]) 2 0 = g" "entry (Mat3 [[a, b, c], [d, e, f], [g, h, i]]) 2 (Suc 0) = h"
  "entry (Mat3 [[a, b, c], [d, e, f], [g, h, i]]) 2 2 = i"
  by (simp_all add: entry_def numeral_2_eq_2)

lemma entry_mat3 [simp]: "r < 3 \<Longrightarrow> c < 3 \<Longrightarrow> entry (mat3 f) r c = f r c"
  by (simp add: entry_def mat3_def)

lemma less_3_iff: "(r :: nat) < 3 \<longleftrightarrow> r = 0 \<or> r = 1 \<or> r = 2" by auto

lemma upt_3: "[0..<3] = [0, 1, 2]" by (simp add: upt_rec)

text \<open>Conjugation changes the sign of the entries that mix the third axis with another.\<close>

lemma conjugate_entry:
  assumes "\<forall>r < 3. \<forall>c < 3. isfinite (entry m r c)" "r < 3" "c < 3"
  shows "vkey (entry (conjugate_with_reflection m) r c) =
    (if (r = 2) = (c = 2) then vkey (entry m r c) else kneg (vkey (entry m r c)))"
proof -
  have f: "kfinite (vkey (entry m i j))" if "i < 3" "j < 3" for i j using assms(1) that by (simp add: kfinite_iff)
  have r: "vkey (entry (matrix_multiply reflection_matrix m) i j) = (if i = 2 then kneg (vkey (entry m i j)) else vkey (entry m i j))"
    if "i < 3" "j < 3" for i j
    using that f [of 0 j] f [of 1 j] f [of 2 j]
    by (auto simp: less_3_iff matrix_multiply_def upt_3 reflection_matrix_def kReflectionDiagonal_def key_arith)
  then have f': "kfinite (vkey (entry (matrix_multiply reflection_matrix m) i j))" if "i < 3" "j < 3" for i j
    using that f by simp
  show ?thesis using assms(2,3) f' [of r 0] f' [of r 1] f' [of r 2] r [of r c]
    by (auto simp: less_3_iff conjugate_with_reflection_def matrix_multiply_def [of "matrix_multiply a b" for a b] upt_3
        reflection_matrix_def kReflectionDiagonal_def key_arith kmul_minus_one)
qed

lemma basis_reflected:
  assumes "r < 3" "c < 3"
  shows "vkey (entry (basis_from_quaternion (rotation_godot_to_netsync q)) r c) =
    (if (r = 2) = (c = 2) then vkey (entry (basis_from_quaternion q) r c) else kneg (vkey (entry (basis_from_quaternion q) r c)))"
  using assms
  by (auto simp: less_3_iff basis_from_quaternion_def Let_def fsub_def normalize_reflected kmul_kneg kneg_kmul kneg_kadd)

lemma position_reflected:
  assumes "isfinite (x_of p)" "isfinite (y_of p)" "isfinite (z_of p)"
  shows "vkey (x_of (position_godot_to_netsync p)) = vkey (x_of p)" "vkey (y_of (position_godot_to_netsync p)) = vkey (y_of p)"
    "vkey (z_of (position_godot_to_netsync p)) = kneg (vkey (z_of p))"
  using assms
  by (simp_all add: position_godot_to_netsync_def matrix_transform_def reflection_matrix_def kReflectionDiagonal_def Let_def
      kfinite_iff [symmetric] key_arith)

lemma conversions_same:
  "position_netsync_to_godot = position_godot_to_netsync" "rotation_netsync_to_godot = rotation_godot_to_netsync"
  by (simp_all add: fun_eq_iff position_netsync_to_godot_def position_godot_to_netsync_def
      rotation_netsync_to_godot_def rotation_godot_to_netsync_def)

text \<open>The quaternion of a basis has no negative real part.\<close>

definition knonneg :: "int option \<Rightarrow> bool" where
  "knonneg a \<longleftrightarrow> (\<forall>k. a = Some k \<longrightarrow> 0 \<le> k)"

lemma knonneg_iff: "knonneg (vkey a) \<longleftrightarrow> \<not> flt a (dlit 0)"
  using vkey_constants(1) by (auto simp: knonneg_def vkey_def flt_def split: if_splits)

lemma rkey_nonneg: "0 \<le> x \<Longrightarrow> 0 \<le> rkey x"
  using rkey_mono [of 0 x] by simp

lemma sval_nonneg: "0 \<le> k \<Longrightarrow> 0 \<le> sval k"
  using sval_le_iff [of 0 k] by simp

lemma knonneg_kmul:
  assumes "knonneg a" "knonneg b"
  shows "knonneg (kmul a b)"
proof (cases "(a, b)" rule: kmul.cases)
  case (1 k l)
  then have kl: "0 \<le> k" "0 \<le> l" using assms by (simp_all add: knonneg_def)
  then have "0 \<le> rkey (sval k * sval l)" by (intro rkey_nonneg mult_nonneg_nonneg sval_nonneg)
  moreover have "a = Some k" "b = Some l" using 1 by simp_all
  moreover have "\<not> k < 0" "\<not> l < 0" "0 \<le> inf_mag" using kl inf_mag_pos(1) by linarith+
  ultimately show ?thesis by (simp only: knonneg_def kmul.simps) (simp split: if_splits)
qed (auto simp: knonneg_def)

lemma isqrt_nonneg: "0 \<le> isqrt n"
proof (induction n rule: isqrt.induct)
  case (1 n)
  then show ?case by (subst isqrt.simps) (auto simp: Let_def)
qed

lemma sqrt_rat_nonneg: "0 \<le> sqrt_rat v"
  by (auto simp: sqrt_rat_def Let_def isqrt_nonneg less_imp_le [OF pow2_pos] intro!: divide_nonneg_nonneg)

lemma fval_nonneg: "\<not> neg a \<Longrightarrow> 0 \<le> fval a"
  using mag_val_nonneg mag_range(1) by (simp add: fval_def)

lemma inverse_length_nonneg:
  assumes "isfinite m" "\<not> fle m kQuatNormalizeEpsilon"
  shows "knonneg (vkey (fdiv (dlit 1) (fsqrt m)))"
proof -
  have e: "\<not> isnan kQuatNormalizeEpsilon" "0 \<le> okey kQuatNormalizeEpsilon"
    by (simp_all add: kQuatNormalizeEpsilon_def dlit_def rkey_nonneg)
  then have "0 < okey m" using assms by (simp add: fle_def isfinite_iff)
  then have m: "mag m \<noteq> 0" "\<not> neg m" "\<not> isnan m" "\<not> isinf m"
    using okey_facts(2,3) [of m] assms(1) by (auto simp: isfinite_iff)
  define s where "s = fsqrt m"
  have s: "\<not> isnan s" "\<not> neg s" using m sqrt_rat_nonneg [of "fval m"] by (auto simp: s_def fsqrt_def neg_fl)
  have one: "\<not> isnan (dlit 1)" "\<not> isinf (dlit 1)" "\<not> neg (dlit 1)" "fval (dlit 1) = 1" "mag (dlit 1) \<noteq> 0"
  proof -
    show "\<not> isnan (dlit 1)" "\<not> isinf (dlit 1)" using isfinite_iff [of "dlit 1"] by simp_all
    show "\<not> neg (dlit 1)" by (simp add: dlit_def neg_fl)
    show v: "fval (dlit 1) = 1" by simp
    then show "mag (dlit 1) \<noteq> 0" using fval_mag0 [of "dlit 1"] by auto
  qed
  have "fdiv (dlit 1) s = (if mag s = 0 then finf False else if isinf s then mk False 0 else fl False (1 / fval s))"
    using s one by (simp only: fdiv_def) simp
  moreover have "vkey (mk False 0) = Some 0" using less_imp_le [OF inf_mag_pos(1)] by (simp add: vkey_def isnan_def okey_def not_less)
  moreover have "0 \<le> rkey (1 / fval s)" using fval_nonneg [OF s(2)] by (intro rkey_nonneg) simp
  ultimately show ?thesis unfolding s_def [symmetric] using less_imp_le [OF inf_mag_pos(1)] by (simp add: knonneg_def)
qed

lemma normalize_real_nonneg: "knonneg (vkey (qw q)) \<Longrightarrow> knonneg (vkey (qw (normalize_quaternion q)))"
proof -
  assume w: "knonneg (vkey (qw q))"
  have "knonneg (vkey (dlit 1))" by (simp add: dlit_def knonneg_def rkey_nonneg)
  then show ?thesis
    using knonneg_kmul [OF w inverse_length_nonneg] by (simp only: normalize_quaternion_def Let_def) simp
qed

section \<open>Properties\<close>

text \<open>C37. The closed form of the rotation conversion agrees with the reflection: whenever the basis of a
  quaternion is finite, the basis of the converted quaternion has, entry by entry, the values of the
  basis conjugated with the reflection matrix; and the quaternion taken from any basis has a real
  part that is not negative.\<close>

theorem rotation_conversion_is_conjugation:
  assumes "\<forall>r < 3. \<forall>c < 3. isfinite (entry (basis_from_quaternion q) r c)"
  shows "(\<forall>r < 3. \<forall>c < 3. same_value (entry (basis_from_quaternion (rotation_godot_to_netsync q)) r c)
      (entry (basis_godot_to_netsync (basis_from_quaternion q)) r c)) \<and>
    \<not> flt (qw (quaternion_from_basis m)) (dlit 0)"
proof -
  have "knonneg (vkey (qw (if flt (qw out) (dlit 0) then Quat (fneg (qx out)) (fneg (qy out)) (fneg (qz out)) (fneg (qw out)) else out)))" for out
    using vkey_constants(1) by (auto simp: knonneg_def vkey_def flt_def kneg_def split: if_splits)
  from normalize_real_nonneg [OF this] have "\<not> flt (qw (quaternion_from_basis m)) (dlit 0)"
    unfolding quaternion_from_basis_def Let_def knonneg_iff by blast
  then show ?thesis
    using assms by (simp add: same_value_def basis_godot_to_netsync_def conjugate_entry basis_reflected)
qed

lemma fle_cong: "vkey a = vkey b \<Longrightarrow> fle b c \<Longrightarrow> fle a c"
  by (auto simp: vkey_def fle_def split: if_splits)

theorem rotation_conversion_is_conjugation_witness:
  "let q = Quat (dlit 0) (dlit 0) (dlit 0) (dlit 0)
   in same_value (entry (basis_from_quaternion (rotation_godot_to_netsync q)) 0 2)
     (entry (basis_godot_to_netsync (basis_from_quaternion q)) 0 2)"
proof -
  let ?q = "Quat (dlit 0) (dlit 0) (dlit 0) (dlit 0)"
  have fin: "kfinite (Some 0)" "kfinite (vkey (dlit 1))" "kfinite (vkey (dlit 2))" by (simp_all add: kfinite_iff) (simp add: kfinite_def)
  let ?m = "fadd (fadd (fadd (fmul (dlit 0) (dlit 0)) (fmul (dlit 0) (dlit 0))) (fmul (dlit 0) (dlit 0))) (fmul (dlit 0) (dlit 0))"
  have "vkey ?m = vkey (dlit 0)" using fin(1) by (simp add: key_arith)
  moreover have "fle (dlit 0) kQuatNormalizeEpsilon" by code_simp
  ultimately have "fle ?m kQuatNormalizeEpsilon" by (rule fle_cong)
  then have "normalize_quaternion ?q = Quat (dlit 0) (dlit 0) (dlit 0) (dlit 1)"
    by (simp only: normalize_quaternion_def Quat.sel Let_def) simp
  then have "\<forall>r < 3. \<forall>c < 3. isfinite (entry (basis_from_quaternion ?q) r c)"
    using fin by (auto simp: less_3_iff basis_from_quaternion_def Let_def kfinite_iff [symmetric] fsub_def key_arith)
  from rotation_conversion_is_conjugation [OF this] show ?thesis by simp
qed

text \<open>C38. Converting a pose to the wire's axes and back gives the pose: the rotation and a yaw bit by
  bit, and a finite position value by value. On the wire the position has its third coordinate
  negated.\<close>

theorem pose_conversion_roundtrip:
  assumes "isfinite (x_of (pt_position pose))" "isfinite (y_of (pt_position pose))" "isfinite (z_of (pt_position pose))"
  shows "pt_rotation (transform_netsync_to_godot (transform_godot_to_netsync pose)) = pt_rotation pose \<and>
    yaw_degrees_netsync_to_godot (yaw_degrees_godot_to_netsync yaw) = yaw \<and>
    same_value (x_of (pt_position (transform_netsync_to_godot (transform_godot_to_netsync pose)))) (x_of (pt_position pose)) \<and>
    same_value (y_of (pt_position (transform_netsync_to_godot (transform_godot_to_netsync pose)))) (y_of (pt_position pose)) \<and>
    same_value (z_of (pt_position (transform_netsync_to_godot (transform_godot_to_netsync pose)))) (z_of (pt_position pose)) \<and>
    same_value (z_of (pt_position (transform_godot_to_netsync pose))) (fneg (z_of (pt_position pose)))"
proof -
  let ?p = "pt_position pose"
  note one = position_reflected [OF assms]
  have "isfinite (x_of (position_godot_to_netsync ?p))" "isfinite (y_of (position_godot_to_netsync ?p))"
    "isfinite (z_of (position_godot_to_netsync ?p))"
    using assms unfolding kfinite_iff [symmetric] one by simp_all
  note two = position_reflected [OF this]
  show ?thesis
    by (simp add: transform_netsync_to_godot_def transform_godot_to_netsync_def conversions_same same_value_def one two
        rotation_godot_to_netsync_def yaw_degrees_netsync_to_godot_def yaw_degrees_godot_to_netsync_def)
qed

theorem pose_conversion_roundtrip_witness:
  "same_value (z_of (pt_position (transform_netsync_to_godot (transform_godot_to_netsync PoseTransform_default)))) (dlit 0)"
  using pose_conversion_roundtrip [of PoseTransform_default] by (simp add: PoseTransform_default_def Vec3_default_def)

end
