(* ===== verification/Device_Id.thy ===== *)
theory Device_Id
  imports Prelude
begin

text \<open>
  \<open>src/core/device_id.*\<close>: the device id of this installation, generated once and kept in a file. The
  random bytes are an argument; the files are what \<open>fopen\<close>, \<open>fread\<close> and \<open>fwrite\<close> see of them.
\<close>

section \<open>Files\<close>

text \<open>A file that cannot be opened for reading has no contents; \<open>space\<close> is how many bytes a write takes.\<close>

record Files =
  contents :: "string \<Rightarrow> string option"
  writable :: "string \<Rightarrow> bool"
  space :: "string \<Rightarrow> nat"

definition c_str :: "string \<Rightarrow> string" where
  "c_str s = takeWhile (\<lambda>c. c \<noteq> CHR 0x00) s"

section \<open>The id\<close>

definition is_space :: "char \<Rightarrow> bool" where
  "is_space c \<longleftrightarrow> c = CHR '' '' \<or> c = CHR 0x09 \<or> c = CHR 0x0D \<or> c = CHR 0x0A \<or> c = CHR 0x00"

text \<open>The two loops of \<open>trim\<close>, over the remaining text.\<close>

fun skip_leading :: "string \<Rightarrow> string" where
  "skip_leading [] = []"
| "skip_leading (c # s) = (if is_space c then skip_leading s else c # s)"

function drop_trailing :: "string \<Rightarrow> string" where
  "drop_trailing s = (if s \<noteq> [] \<and> is_space (last s) then drop_trailing (butlast s) else s)"
  by pat_completeness auto
termination
  by (relation "measure length") auto

definition trim :: "string \<Rightarrow> string" where
  "trim value = drop_trailing (skip_leading value)"

definition digits :: string where
  "digits = ''0123456789abcdef''"

definition uuid_bytes :: "u8 list \<Rightarrow> u8 list" where
  "uuid_bytes random =
     (let bytes = random;
          bytes = bytes[6 := (bytes ! 6 AND 0x0F) OR 0x40]
      in bytes[8 := (bytes ! 8 AND 0x3F) OR 0x80])"

definition uuid_digits :: "u8 list \<Rightarrow> nat \<Rightarrow> string" where
  "uuid_digits bytes i =
     (if i = 4 \<or> i = 6 \<or> i = 8 \<or> i = 10 then ''-'' else []) @
     [digits ! unat (drop_bit 4 (bytes ! i)), digits ! unat (bytes ! i AND 0x0F)]"

definition generate_uuid_v4 :: "u8 list \<Rightarrow> string" where
  "generate_uuid_v4 random = concat (map (uuid_digits (uuid_bytes random)) [0..<16])"

definition read_device_id :: "string \<Rightarrow> Files \<Rightarrow> string" where
  "read_device_id path files = (case contents files (c_str path) of None \<Rightarrow> [] | Some s \<Rightarrow> trim (take 511 s))"

definition write_device_id :: "string \<Rightarrow> string \<Rightarrow> Files \<Rightarrow> bool \<times> Files" where
  "write_device_id path device_id files =
     (if \<not> writable files (c_str path) then (False, files)
      else
        let written = min (length device_id) (space files (c_str path))
        in (written = length device_id,
            files\<lparr>contents := (contents files)(c_str path := Some (take written device_id))\<rparr>))"

definition load_or_create_device_id :: "u8 list \<Rightarrow> string \<Rightarrow> Files \<Rightarrow> string \<times> Files" where
  "load_or_create_device_id random path files =
     (let existing = read_device_id path files
      in if existing \<noteq> [] then (existing, files)
         else
           let generated = generate_uuid_v4 random;
               (ok, files) = write_device_id path generated files
           in (generated, files))"

section \<open>Trimming\<close>

lemma skip_leading_drop: "skip_leading s = dropWhile is_space s"
  by (induction s) auto

lemma drop_trailing_rev: "drop_trailing s = rev (dropWhile is_space (rev s))"
proof (induction s rule: rev_induct)
  case (snoc c s)
  then show ?case by (subst drop_trailing.simps) (simp del: drop_trailing.simps)
qed (simp add: drop_trailing.simps)

lemma trim_clean: "\<forall>c \<in> set s. \<not> is_space c \<Longrightarrow> trim s = s"
  by (simp add: trim_def skip_leading_drop drop_trailing_rev del: drop_trailing.simps)
    (metis dropWhile_eq_self_iff list.set_sel(1) rev_rev_ident set_rev)

section \<open>The form of a generated id\<close>

definition uuid_v4_shape :: "string \<Rightarrow> bool" where
  "uuid_v4_shape s \<longleftrightarrow> length s = 36 \<and>
     (\<forall>k < 36. if k \<in> {8, 13, 18, 23} then s ! k = CHR ''-'' else s ! k \<in> set digits) \<and>
     s ! 14 = CHR ''4'' \<and> s ! 19 \<in> {CHR ''8'', CHR ''9'', CHR ''a'', CHR ''b''}"

lemma nibbles: "unat (drop_bit 4 (b :: u8)) < 16" "unat (b AND 0x0F) < 16"
proof -
  have "unat b < 2 ^ 8" using unsigned_less [of b] by simp
  moreover have "unat (drop_bit 4 b) = unat b div 2 ^ 4" unfolding unat_drop_bit_eq by (rule drop_bit_eq_div)
  ultimately show "unat (drop_bit 4 b) < 16" by simp
  have "b AND 0x0F \<le> 0x0F" by (rule word_and_le1)
  then show "unat (b AND 0x0F) < 16" by (simp add: word_le_nat_alt)
qed

lemma length_digits: "length digits = 16" by (simp add: digits_def)

lemma digit_in [simp]: "digits ! unat (drop_bit 4 (b :: u8)) \<in> set digits" "digits ! unat (b AND 0x0F) \<in> set digits"
  using nibbles [of b] length_digits by (metis nth_mem)+

lemma version_digit: "digits ! unat (drop_bit 4 (((b :: u8) AND 0x0F) OR 0x40)) = CHR ''4''"
proof -
  have "drop_bit 4 ((b AND 0x0F) OR 0x40) = (4 :: u8)"
    by (rule bit_word_eqI) (auto simp: bit_simps)
  then show ?thesis by (simp add: digits_def)
qed

lemma variant_digit:
  "digits ! unat (drop_bit 4 (((b :: u8) AND 0x3F) OR 0x80)) \<in> {CHR ''8'', CHR ''9'', CHR ''a'', CHR ''b''}"
proof -
  have "drop_bit 4 ((b AND 0x3F) OR 0x80) = (drop_bit 4 b AND 3) OR (8 :: u8)"
    by (rule bit_word_eqI) (auto simp: bit_simps)
  moreover have "(drop_bit 4 b AND 3) \<in> {0, 1, 2, 3 :: u8}"
  proof -
    have "drop_bit 4 b AND 3 \<le> (3 :: u8)" by (rule word_and_le1)
    then have "unat (drop_bit 4 b AND 3) \<in> {0, 1, 2, 3}" by (auto simp: word_le_nat_alt)
    then show ?thesis by (auto dest: arg_cong [of _ _ "word_of_nat :: nat \<Rightarrow> u8"])
  qed
  ultimately show ?thesis by (auto simp: digits_def)
qed

lemma generated_digits:
  "generate_uuid_v4 r = (let b = uuid_bytes r; h = (\<lambda>i. digits ! unat (drop_bit 4 (b ! i))); l = (\<lambda>i. digits ! unat (b ! i AND 0x0F))
     in [h 0, l 0, h 1, l 1, h 2, l 2, h 3, l 3, CHR ''-'', h 4, l 4, h 5, l 5, CHR ''-'', h 6, l 6, h 7, l 7, CHR ''-'', h 8, l 8, h 9, l 9,
         CHR ''-'', h 10, l 10, h 11, l 11, h 12, l 12, h 13, l 13, h 14, l 14, h 15, l 15])"
  by (simp add: generate_uuid_v4_def uuid_digits_def upt_rec numeral_eq_Suc Let_def)

lemma generated_shape:
  assumes "length random = 16"
  shows "uuid_v4_shape (generate_uuid_v4 random)"
proof -
  have b: "uuid_bytes random ! 6 = (random ! 6 AND 0x0F) OR 0x40" "uuid_bytes random ! 8 = (random ! 8 AND 0x3F) OR 0x80"
    using assms by (simp_all add: uuid_bytes_def Let_def)
  define h l where "h i = digits ! unat (drop_bit 4 (uuid_bytes random ! i))" and "l i = digits ! unat (uuid_bytes random ! i AND 0x0F)" for i
  have d: "h i \<in> set digits" "l i \<in> set digits" for i by (simp_all only: h_def l_def digit_in)
  have v: "h 6 = CHR ''4''" "h 8 \<in> {CHR ''8'', CHR ''9'', CHR ''a'', CHR ''b''}"
    unfolding h_def b by (rule version_digit variant_digit)+
  have all: "(\<forall>k < 36. P k) \<longleftrightarrow> list_all P [0..<36]" for P by (auto simp: list_all_iff)
  show ?thesis
    unfolding uuid_v4_shape_def generated_digits Let_def h_def [symmetric] l_def [symmetric] all
    using v d(1) [of 6] by (simp add: d upt_rec)
qed

lemma shape_clean: "uuid_v4_shape s \<Longrightarrow> length s = 36 \<and> trim s = s"
proof -
  assume a: "uuid_v4_shape s"
  have "\<not> is_space c" if c: "c \<in> set s" for c
  proof -
    obtain k where "k < 36" "c = s ! k" using a c by (auto simp: in_set_conv_nth uuid_v4_shape_def)
    then have "c \<in> insert (CHR ''-'') (set digits)" using a unfolding uuid_v4_shape_def by (metis insertI1 insertI2)
    then show ?thesis by (auto simp: digits_def is_space_def)
  qed
  then show ?thesis using a by (simp add: trim_clean uuid_v4_shape_def)
qed

section \<open>Properties\<close>

text \<open>C40. The device id of an installation is stable: an id that is loaded, or generated and stored with room
  for it, is what every later call returns, whatever the generator would give then. A generated id has
  the form of a random UUID of version 4, and it is returned even when it could not be stored.\<close>

theorem device_id_persists:
  assumes "length random = 16"
    and "load_or_create_device_id random path files = (device_id, files')"
  shows "device_id \<noteq> [] \<and>
    (read_device_id path files = [] \<longrightarrow> device_id = generate_uuid_v4 random \<and> uuid_v4_shape device_id) \<and>
    (read_device_id path files \<noteq> [] \<longrightarrow> device_id = read_device_id path files) \<and>
    (read_device_id path files \<noteq> [] \<or> writable files (c_str path) \<and> 36 \<le> space files (c_str path) \<longrightarrow>
       (\<forall>later. load_or_create_device_id later path files' = (device_id, files')))"
proof (cases "read_device_id path files = []")
  case True
  let ?g = "generate_uuid_v4 random"
  have g: "uuid_v4_shape ?g" "length ?g = 36" "trim ?g = ?g"
    using generated_shape [OF assms(1)] shape_clean by blast+
  have e: "device_id = ?g" "files' = snd (write_device_id path ?g files)"
    using assms(2) True by (auto simp: load_or_create_device_id_def Let_def split: prod.splits)
  have "read_device_id path files' = ?g" if "writable files (c_str path)" "36 \<le> space files (c_str path)"
    using that g(2,3) by (simp add: e(2) write_device_id_def read_device_id_def Let_def)
  then show ?thesis using True g(1,2) e(1) by (auto simp: load_or_create_device_id_def Let_def)
next
  case False
  then show ?thesis using assms(2) by (auto simp: load_or_create_device_id_def Let_def)
qed

theorem device_id_persists_witness:
  "let files = \<lparr>contents = Map.empty, writable = \<lambda>_. True, space = \<lambda>_. 100\<rparr>;
       (device_id, files') = load_or_create_device_id (replicate 16 0xFF) ''id'' files
   in uuid_v4_shape device_id \<and> load_or_create_device_id (replicate 16 0) ''id'' files' = (device_id, files')"
proof -
  let ?f = "\<lparr>contents = Map.empty, writable = \<lambda>_. True, space = \<lambda>_. 100\<rparr>"
  obtain d f where l: "load_or_create_device_id (replicate 16 0xFF) ''id'' ?f = (d, f)" by fastforce
  have "read_device_id ''id'' ?f = []" by (simp add: read_device_id_def)
  then show ?thesis using device_id_persists [OF _ l] by (auto simp: l)
qed

end
