(* ===== verification/Bridge.thy ===== *)
theory Bridge
  imports Client_Properties Coordinates Device_Id
begin

text \<open>
  \<open>src/godot/netsync_bridge.*\<close>: the class the engine sees. The engine's own types (strings, variants,
  transforms, vectors) and their conversions are not part of the sources; they are the parameter
  \<open>Godot\<close>. A dictionary passed in is the map of its keys, a dictionary returned the list of its entries
  in the order they are set, a signal the value of \<open>Signal\<close> that is emitted.
\<close>

section \<open>The engine\<close>

datatype VariantType = TRANSFORM3D | ARRAY | OTHER_TYPE

text \<open>
  \<open>string_utf8\<close> is \<open>String::utf8().get_data()\<close> and \<open>string_from_utf8\<close> is \<open>String::utf8\<close>; the fields \<open>as_\<close> are
  the conversions of a variant; \<open>origin_of\<close> and \<open>rotation_of\<close> give the origin and the quaternion of the
  orthonormalised basis, widened to doubles; \<open>make_transform\<close> and \<open>make_vector\<close> narrow to \<open>real_t\<close>, and the
  former normalises the quaternion.
\<close>

record ('s, 't, 'p, 'v) Godot =
  string_utf8 :: "'s \<Rightarrow> string"
  string_from_utf8 :: "string \<Rightarrow> 's"
  get_type :: "'v \<Rightarrow> VariantType"
  as_string :: "'v \<Rightarrow> 's"
  as_int :: "'v \<Rightarrow> int"
  as_bool :: "'v \<Rightarrow> bool"
  as_double :: "'v \<Rightarrow> double"
  as_transform :: "'v \<Rightarrow> 't"
  as_vector :: "'v \<Rightarrow> 'p"
  as_array :: "'v \<Rightarrow> 'v list"
  origin_of :: "'t \<Rightarrow> Vec3"
  rotation_of :: "'t \<Rightarrow> Quat"
  make_transform :: "Quat \<Rightarrow> Vec3 \<Rightarrow> 't"
  components_of :: "'p \<Rightarrow> Vec3"
  make_vector :: "Vec3 \<Rightarrow> 'p"

type_synonym 'v Dictionary = "string \<rightharpoonup> 'v"

datatype ('s, 't, 'p) GValue =
  GInt int | GFloat double | GBool bool | GTransform 't | GVector 'p | GTransforms "'t list"

type_synonym ('s, 't, 'p) Entries = "(string \<times> ('s, 't, 'p) GValue) list"

definition to_std :: "('s, 't, 'p, 'v) Godot \<Rightarrow> 's \<Rightarrow> string" where
  "to_std g value = c_str (string_utf8 g value)"

definition to_godot :: "('s, 't, 'p, 'v) Godot \<Rightarrow> string \<Rightarrow> 's" where
  "to_godot g value = string_from_utf8 g (c_str value)"

definition to_std_vector :: "('s, 't, 'p, 'v) Godot \<Rightarrow> 's list \<Rightarrow> string list" where
  "to_std_vector g vals = map (to_std g) vals"

definition transform_to_wire :: "('s, 't, 'p, 'v) Godot \<Rightarrow> 't \<Rightarrow> PoseTransform" where
  "transform_to_wire g transform =
     transform_godot_to_netsync \<lparr>pt_position = origin_of g transform, pt_rotation = rotation_of g transform\<rparr>"

definition transform_from_wire :: "('s, 't, 'p, 'v) Godot \<Rightarrow> PoseTransform \<Rightarrow> 't" where
  "transform_from_wire g pose =
     (let godot_space = transform_netsync_to_godot pose
      in make_transform g (pt_rotation godot_space) (pt_position godot_space))"

definition vector_to_wire :: "('s, 't, 'p, 'v) Godot \<Rightarrow> 'p \<Rightarrow> Vec3" where
  "vector_to_wire g vector = position_godot_to_netsync (components_of g vector)"

definition vector_from_wire :: "('s, 't, 'p, 'v) Godot \<Rightarrow> Vec3 \<Rightarrow> 'p" where
  "vector_from_wire g vector = make_vector g (position_netsync_to_godot vector)"

definition dictionary_has_transform :: "('s, 't, 'p, 'v) Godot \<Rightarrow> 'v Dictionary \<Rightarrow> string \<Rightarrow> bool" where
  "dictionary_has_transform g dictionary key =
     (case dictionary key of None \<Rightarrow> False | Some v \<Rightarrow> get_type g v = TRANSFORM3D)"

section \<open>Lifecycle\<close>

text \<open>One key of the configuration: the field keeps its default when the key is absent.\<close>

definition config_key :: "'v Dictionary \<Rightarrow> string \<Rightarrow> ('v \<Rightarrow> ClientConfig \<Rightarrow> ClientConfig) \<Rightarrow> ClientConfig \<Rightarrow> ClientConfig" where
  "config_key dict key assign c = (case dict key of None \<Rightarrow> c | Some v \<Rightarrow> assign v c)"

definition config_of :: "('s, 't, 'p, 'v) Godot \<Rightarrow> 'v Dictionary \<Rightarrow> ClientConfig" where
  "config_of g dict =
     (let c = ClientConfig_default;
          c = config_key dict ''server_address'' (\<lambda>v. cfg_server_address_update (\<lambda>_. to_std g (as_string g v))) c;
          c = config_key dict ''control_port'' (\<lambda>v. cfg_control_port_update (\<lambda>_. as_int g v)) c;
          c = config_key dict ''transform_port'' (\<lambda>v. cfg_transform_port_update (\<lambda>_. as_int g v)) c;
          c = config_key dict ''sub_port'' (\<lambda>v. cfg_sub_port_update (\<lambda>_. as_int g v)) c;
          c = config_key dict ''discovery_port'' (\<lambda>v. cfg_discovery_port_update (\<lambda>_. as_int g v)) c;
          c = config_key dict ''room_id'' (\<lambda>v. cfg_room_id_update (\<lambda>_. to_std g (as_string g v))) c;
          c = config_key dict ''device_id'' (\<lambda>v. cfg_device_id_update (\<lambda>_. to_std g (as_string g v))) c;
          c = config_key dict ''stealth_mode'' (\<lambda>v. cfg_stealth_mode_update (\<lambda>_. as_bool g v)) c;
          c = config_key dict ''transform_send_rate'' (\<lambda>v. cfg_transform_send_rate_update (\<lambda>_. as_double g v)) c
      in config_key dict ''enable_discovery'' (\<lambda>v. cfg_enable_discovery_update (\<lambda>_. as_bool g v)) c)"

definition connect_to_server ::
  "('s, 't, 'p, 'v) Godot \<Rightarrow> 'n Zmq \<Rightarrow> 'v Dictionary \<Rightarrow> NetSyncClient \<times> 'n \<Rightarrow> bool \<times> NetSyncClient \<times> 'n" where
  "connect_to_server g z dict s =
     (if cfg_device_id (config_of g dict) = [] then (False, s) else client_connect z (config_of g dict) s)"

definition disconnect_from_server :: "NetSyncClient \<Rightarrow> NetSyncClient" where
  "disconnect_from_server c = client_disconnect c"

datatype 's Signal =
    SigConnectionStateChanged int 's | SigReady | SigConnectionError 's | SigServerDiscovered 's 's int int int
  | SigClientNoAssigned int | SigAvatarConnected int 's | SigAvatarDisconnected int | SigRpcReceived int 's "'s list"
  | SigGlobalVariableChanged 's 's 's | SigClientVariableChanged int 's 's 's | SigObjectOwnershipChanged int int int
  | SigObjectOwnershipRejected int int int | SigServerVersionReceived int int int | SigLogMessage 's

definition emit_event :: "('s, 't, 'p, 'v) Godot \<Rightarrow> Event \<Rightarrow> 's Signal" where
  "emit_event g event =
     (case ev_type event of
        EvConnectionStateChanged \<Rightarrow> SigConnectionStateChanged (ev_value_a event) (to_godot g (ev_name event))
      | EvReady \<Rightarrow> SigReady
      | EvConnectionError \<Rightarrow> SigConnectionError (to_godot g (ev_name event))
      | EvServerDiscovered \<Rightarrow> SigServerDiscovered (to_godot g (ev_name event)) (to_godot g (ev_new_value event))
          (ev_value_a event) (ev_value_b event) (ev_value_c event)
      | EvClientNoAssigned \<Rightarrow> SigClientNoAssigned (ev_client_no event)
      | EvAvatarConnected \<Rightarrow> SigAvatarConnected (ev_client_no event) (to_godot g (ev_name event))
      | EvAvatarDisconnected \<Rightarrow> SigAvatarDisconnected (ev_client_no event)
      | EvRpcReceived \<Rightarrow> SigRpcReceived (ev_client_no event) (to_godot g (ev_name event)) (map (to_godot g) (ev_args event))
      | EvGlobalVariableChanged \<Rightarrow> SigGlobalVariableChanged (to_godot g (ev_name event)) (to_godot g (ev_old_value event))
          (to_godot g (ev_new_value event))
      | EvClientVariableChanged \<Rightarrow> SigClientVariableChanged (ev_client_no event) (to_godot g (ev_name event))
          (to_godot g (ev_old_value event)) (to_godot g (ev_new_value event))
      | EvObjectOwnershipChanged \<Rightarrow> SigObjectOwnershipChanged (uint (ev_object_id event)) (ev_value_a event) (ev_value_b event)
      | EvObjectOwnershipRejected \<Rightarrow> SigObjectOwnershipRejected (uint (ev_object_id event)) (ev_value_a event) (ev_value_b event)
      | EvServerVersion \<Rightarrow> SigServerVersionReceived (ev_value_a event) (ev_value_b event) (ev_value_c event)
      | EvLog \<Rightarrow> SigLogMessage (to_godot g (ev_name event)))"

text \<open>\<open>monotonic_seconds\<close> reads the clock the transport uses.\<close>

definition bridge_poll ::
  "('s, 't, 'p, 'v) Godot \<Rightarrow> 'n Zmq \<Rightarrow> libm \<Rightarrow> NetSyncClient \<times> 'n \<Rightarrow> (NetSyncClient \<times> 's Signal list) \<times> 'n" where
  "bridge_poll g z lm = (\<lambda>(c, n).
     let (now, t) = monotonic_seconds (transport (wires c));
         ((c, events), n) = poll z lm now (set_transport t c, n)
     in ((c, map (emit_event g) events), n))"

text \<open>The operations that hand on to the client.\<close>

definition is_connected_to_server :: "NetSyncClient \<Rightarrow> bool" where
  "is_connected_to_server c = is_connected c"

definition bridge_is_ready :: "NetSyncClient \<Rightarrow> bool" where
  "bridge_is_ready c = is_ready c"

definition bridge_has_handshake :: "NetSyncClient \<Rightarrow> bool" where
  "bridge_has_handshake c = has_handshake c"

definition has_network_variable_sync :: "NetSyncClient \<Rightarrow> bool" where
  "has_network_variable_sync c = has_received_initial_sync (variables c)"

definition get_client_no :: "NetSyncClient \<Rightarrow> int" where
  "get_client_no c = local_client_no (device_mapping c)"

definition get_device_id :: "('s, 't, 'p, 'v) Godot \<Rightarrow> NetSyncClient \<Rightarrow> 's" where
  "get_device_id g c = to_godot g (cfg_device_id (config c))"

definition get_room_id :: "('s, 't, 'p, 'v) Godot \<Rightarrow> NetSyncClient \<Rightarrow> 's" where
  "get_room_id g c = to_godot g (cfg_room_id (config c))"

definition get_server_address :: "('s, 't, 'p, 'v) Godot \<Rightarrow> NetSyncClient \<Rightarrow> 's" where
  "get_server_address g c = to_godot g (resolved_address c)"

definition get_discovered_rest_api_port :: "NetSyncClient \<Rightarrow> int" where
  "get_discovered_rest_api_port c = discovered_rest_api_port c"

definition bridge_set_transform_send_rate :: "double \<Rightarrow> NetSyncClient \<Rightarrow> NetSyncClient" where
  "bridge_set_transform_send_rate rate = set_transform_send_rate rate"

definition get_transform_send_rate :: "NetSyncClient \<Rightarrow> double" where
  "get_transform_send_rate c = cfg_transform_send_rate (config c)"

definition get_connection_state :: "NetSyncClient \<Rightarrow> int" where
  "get_connection_state c = state_code (conn_state c)"

definition get_connection_state_name :: "('s, 't, 'p, 'v) Godot \<Rightarrow> NetSyncClient \<Rightarrow> 's" where
  "get_connection_state_name g c = string_from_utf8 g (connection_state_name (conn_state c))"

definition get_transport_stats :: "NetSyncClient \<Rightarrow> ('s, 't, 'p) Entries" where
  "get_transport_stats c =
     (let stats = transport_stats (transport (wires c))
      in [(''messages_sent'', GInt (sint (ts_messages_sent stats))), (''messages_received'', GInt (sint (ts_messages_received stats))),
          (''dropped_transform_frames'', GInt (sint (ts_dropped_transform_frames stats))),
          (''would_block_count'', GInt (sint (ts_would_block_count stats))),
          (''control_dropped_full'', GInt (sint (ts_control_dropped_full stats))),
          (''control_dropped_expired'', GInt (sint (ts_control_dropped_expired stats))),
          (''control_queue_length'', GInt (ts_control_queue_length stats))])"

section \<open>Poses\<close>

definition flag_if :: "bool \<Rightarrow> u8 \<Rightarrow> u8 \<Rightarrow> u8" where
  "flag_if b flag flags = (if b then flags OR flag else flags)"

definition body_part ::
  "('s, 't, 'p, 'v) Godot \<Rightarrow> 'v Dictionary \<Rightarrow> string \<Rightarrow> PoseTransform" where
  "body_part g pose key =
     (if dictionary_has_transform g pose key then transform_to_wire g (as_transform g (the (pose key))) else PoseTransform_default)"

definition virtuals_of :: "('s, 't, 'p, 'v) Godot \<Rightarrow> 'v Dictionary \<Rightarrow> PoseTransform list" where
  "virtuals_of g pose =
     (case pose ''virtuals'' of
        None \<Rightarrow> []
      | Some v \<Rightarrow> if get_type g v = ARRAY
          then map (\<lambda>e. transform_to_wire g (as_transform g e)) (filter (\<lambda>e. get_type g e = TRANSFORM3D) (as_array g v))
          else [])"

definition pose_flags_of :: "('s, 't, 'p, 'v) Godot \<Rightarrow> 'v Dictionary \<Rightarrow> u8" where
  "pose_flags_of g pose =
     (let flags = 0;
          flags = flag_if (case pose ''moving_floor_local'' of None \<Rightarrow> False | Some v \<Rightarrow> as_bool g v) POSE_FLAG_MOVING_FLOOR_LOCAL flags;
          flags = flag_if (dictionary_has_transform g pose ''head'') POSE_FLAG_HEAD_VALID flags;
          flags = flag_if (dictionary_has_transform g pose ''right_hand'') POSE_FLAG_RIGHT_VALID flags;
          flags = flag_if (dictionary_has_transform g pose ''left_hand'') POSE_FLAG_LEFT_VALID flags;
          flags = flag_if (virtuals_of g pose \<noteq> []) POSE_FLAG_VIRTUALS_VALID flags
      in flag_if (case pose ''physical_valid'' of None \<Rightarrow> True | Some v \<Rightarrow> as_bool g v) POSE_FLAG_PHYSICAL_VALID flags)"

definition pose_body_of :: "('s, 't, 'p, 'v) Godot \<Rightarrow> 'v Dictionary \<Rightarrow> ClientPoseBody" where
  "pose_body_of g pose = ClientPoseBody_default\<lparr>pb_flags := pose_flags_of g pose, pb_head := body_part g pose ''head'',
     pb_right_hand := body_part g pose ''right_hand'', pb_left_hand := body_part g pose ''left_hand'',
     pb_physical := body_part g pose ''physical'', pb_virtuals := virtuals_of g pose,
     pb_xr_origin_delta_position := (case pose ''xr_origin_delta_position'' of None \<Rightarrow> Vec3_default
       | Some v \<Rightarrow> vector_to_wire g (as_vector g v)),
     pb_xr_origin_delta_yaw := (case pose ''xr_origin_delta_yaw'' of None \<Rightarrow> dlit 0
       | Some v \<Rightarrow> yaw_degrees_godot_to_netsync (as_double g v))\<rparr>"

definition bridge_set_local_pose :: "('s, 't, 'p, 'v) Godot \<Rightarrow> 'v Dictionary \<Rightarrow> NetSyncClient \<Rightarrow> NetSyncClient" where
  "bridge_set_local_pose g pose c = set_local_pose (pose_body_of g pose) c"

definition bridge_clear_local_pose :: "NetSyncClient \<Rightarrow> NetSyncClient" where
  "bridge_clear_local_pose c = clear_local_pose c"

definition remote_pose_entries :: "('s, 't, 'p, 'v) Godot \<Rightarrow> RemoteClientPose \<Rightarrow> ('s, 't, 'p) Entries" where
  "remote_pose_entries g pose =
     (let body = rc_body pose; flags = pb_flags body
      in [(''client_no'', GInt (rc_client_no pose)), (''pose_time'', GFloat (rc_pose_time pose)),
          (''broadcast_time'', GFloat (rc_broadcast_time pose)), (''pose_seq'', GInt (uint (pb_pose_seq body))),
          (''flags'', GInt (uint flags)), (''is_stealth'', GBool (flags AND POSE_FLAG_STEALTH \<noteq> 0)),
          (''has_head'', GBool (flags AND POSE_FLAG_HEAD_VALID \<noteq> 0)),
          (''has_right_hand'', GBool (flags AND POSE_FLAG_RIGHT_VALID \<noteq> 0)),
          (''has_left_hand'', GBool (flags AND POSE_FLAG_LEFT_VALID \<noteq> 0)),
          (''has_virtuals'', GBool (flags AND POSE_FLAG_VIRTUALS_VALID \<noteq> 0)),
          (''has_physical'', GBool (flags AND POSE_FLAG_PHYSICAL_VALID \<noteq> 0)),
          (''moving_floor_local'', GBool (flags AND POSE_FLAG_MOVING_FLOOR_LOCAL \<noteq> 0)),
          (''head'', GTransform (transform_from_wire g (pb_head body))),
          (''right_hand'', GTransform (transform_from_wire g (pb_right_hand body))),
          (''left_hand'', GTransform (transform_from_wire g (pb_left_hand body))),
          (''physical'', GTransform (transform_from_wire g (pb_physical body))),
          (''xr_origin_delta_position'', GVector (vector_from_wire g (pb_xr_origin_delta_position body))),
          (''xr_origin_delta_yaw'', GFloat (yaw_degrees_netsync_to_godot (pb_xr_origin_delta_yaw body))),
          (''virtuals'', GTransforms (map (transform_from_wire g) (pb_virtuals body)))])"

definition bridge_get_remote_pose :: "('s, 't, 'p, 'v) Godot \<Rightarrow> NetSyncClient \<Rightarrow> int \<Rightarrow> ('s, 't, 'p) Entries" where
  "bridge_get_remote_pose g c client_no =
     (case get_remote_pose c client_no of None \<Rightarrow> [] | Some pose \<Rightarrow> remote_pose_entries g pose)"

section \<open>Clients, calls and variables\<close>

definition get_device_id_for :: "('s, 't, 'p, 'v) Godot \<Rightarrow> NetSyncClient \<Rightarrow> int \<Rightarrow> 's" where
  "get_device_id_for g c client_no = to_godot g (device_id_for (device_mapping c) client_no)"

definition get_client_no_for :: "('s, 't, 'p, 'v) Godot \<Rightarrow> NetSyncClient \<Rightarrow> 's \<Rightarrow> int" where
  "get_client_no_for g c device_id = client_no_for (device_mapping c) (to_std g device_id)"

definition is_client_stealth :: "NetSyncClient \<Rightarrow> int \<Rightarrow> bool" where
  "is_client_stealth c client_no = is_stealth_client (device_mapping c) client_no"

definition get_known_client_numbers :: "NetSyncClient \<Rightarrow> int list" where
  "get_known_client_numbers c = known_client_numbers (device_mapping c)"

definition get_remote_client_numbers :: "NetSyncClient \<Rightarrow> int list" where
  "get_remote_client_numbers c = remote_client_numbers c"

definition get_last_room_broadcast_time :: "NetSyncClient \<Rightarrow> double" where
  "get_last_room_broadcast_time c = last_room_broadcast_time c"

definition bridge_configure_rpc_rate_limit :: "int \<Rightarrow> double \<Rightarrow> double \<Rightarrow> NetSyncClient \<Rightarrow> NetSyncClient" where
  "bridge_configure_rpc_rate_limit limit window cooldown = configure_rpc_rate_limit limit window cooldown"

definition send_rpc :: "('s, 't, 'p, 'v) Godot \<Rightarrow> 's \<Rightarrow> 's list \<Rightarrow> NetSyncClient \<Rightarrow> NetSyncClient" where
  "send_rpc g function_name args = rpc (to_std g function_name) (to_std_vector g args)"

definition send_rpc_to :: "('s, 't, 'p, 'v) Godot \<Rightarrow> int \<Rightarrow> 's \<Rightarrow> 's list \<Rightarrow> NetSyncClient \<Rightarrow> NetSyncClient" where
  "send_rpc_to g target_client_no function_name args =
     rpc_to target_client_no (to_std g function_name) (to_std_vector g args)"

definition send_rpc_to_many :: "('s, 't, 'p, 'v) Godot \<Rightarrow> int list \<Rightarrow> 's \<Rightarrow> 's list \<Rightarrow> NetSyncClient \<Rightarrow> NetSyncClient" where
  "send_rpc_to_many g target_client_nos function_name args =
     rpc_to_many target_client_nos (to_std g function_name) (to_std_vector g args)"

definition bridge_set_global_variable :: "('s, 't, 'p, 'v) Godot \<Rightarrow> 's \<Rightarrow> 's \<Rightarrow> NetSyncClient \<Rightarrow> bool \<times> NetSyncClient" where
  "bridge_set_global_variable g name val = set_global_variable (to_std g name) (to_std g val)"

definition bridge_get_global_variable :: "('s, 't, 'p, 'v) Godot \<Rightarrow> NetSyncClient \<Rightarrow> 's \<Rightarrow> 's \<Rightarrow> 's" where
  "bridge_get_global_variable g c name fallback = to_godot g (get_global_variable c (to_std g name) (to_std g fallback))"

text \<open>Two names that the engine reads as the same string share an entry; the later value wins.\<close>

definition variable_dictionary :: "('s, 't, 'p, 'v) Godot \<Rightarrow> (string, string) omap \<Rightarrow> 's \<rightharpoonup> 's" where
  "variable_dictionary g vars = map_of (rev (map (\<lambda>(name, val). (to_godot g name, to_godot g val)) (om_entries vars)))"

definition bridge_get_all_global_variables :: "('s, 't, 'p, 'v) Godot \<Rightarrow> NetSyncClient \<Rightarrow> 's \<rightharpoonup> 's" where
  "bridge_get_all_global_variables g c = variable_dictionary g (get_all_global_variables c)"

definition bridge_set_client_variable :: "('s, 't, 'p, 'v) Godot \<Rightarrow> 's \<Rightarrow> 's \<Rightarrow> NetSyncClient \<Rightarrow> bool \<times> NetSyncClient" where
  "bridge_set_client_variable g name val = set_client_variable (to_std g name) (to_std g val)"

definition bridge_set_client_variable_for ::
  "('s, 't, 'p, 'v) Godot \<Rightarrow> int \<Rightarrow> 's \<Rightarrow> 's \<Rightarrow> NetSyncClient \<Rightarrow> bool \<times> NetSyncClient" where
  "bridge_set_client_variable_for g target_client_no name val =
     set_client_variable_for target_client_no (to_std g name) (to_std g val)"

definition bridge_get_client_variable :: "('s, 't, 'p, 'v) Godot \<Rightarrow> NetSyncClient \<Rightarrow> int \<Rightarrow> 's \<Rightarrow> 's \<Rightarrow> 's" where
  "bridge_get_client_variable g c client_no name fallback =
     to_godot g (get_client_variable c client_no (to_std g name) (to_std g fallback))"

definition bridge_get_all_client_variables :: "('s, 't, 'p, 'v) Godot \<Rightarrow> NetSyncClient \<Rightarrow> int \<Rightarrow> 's \<rightharpoonup> 's" where
  "bridge_get_all_client_variables g c client_no = variable_dictionary g (get_all_client_variables c client_no)"

definition bridge_clear_my_client_variables :: "NetSyncClient \<Rightarrow> bool \<times> NetSyncClient" where
  "bridge_clear_my_client_variables = client_clear_my_client_variables"

section \<open>Objects\<close>

type_synonym i64 = "64 word"

definition to_object_id :: "i64 \<Rightarrow> u32" where
  "to_object_id value = ucast (value AND 0xFFFFFFFF)"

definition bridge_register_object :: "i64 \<Rightarrow> NetSyncClient \<Rightarrow> bool \<times> NetSyncClient" where
  "bridge_register_object object_id = client_register_object (to_object_id object_id)"

definition bridge_unregister_object :: "i64 \<Rightarrow> NetSyncClient \<Rightarrow> NetSyncClient" where
  "bridge_unregister_object object_id = client_unregister_object (to_object_id object_id)"

definition bridge_submit_object_pose :: "('s, 't, 'p, 'v) Godot \<Rightarrow> i64 \<Rightarrow> 't \<Rightarrow> NetSyncClient \<Rightarrow> NetSyncClient" where
  "bridge_submit_object_pose g object_id transform = submit_object_pose (to_object_id object_id) (transform_to_wire g transform)"

definition bridge_get_object_state :: "('s, 't, 'p, 'v) Godot \<Rightarrow> NetSyncClient \<Rightarrow> i64 \<Rightarrow> ('s, 't, 'p) Entries" where
  "bridge_get_object_state g c object_id =
     (case get_object_state c (to_object_id object_id) of
        None \<Rightarrow> [(''found'', GBool False)]
      | Some state \<Rightarrow>
          [(''found'', GBool True), (''object_id'', GInt (uint (os_object_id state))),
           (''owner_client_no'', GInt (os_owner_client_no state)), (''pose_seq'', GInt (uint (os_pose_seq state))),
           (''pose_time'', GFloat (os_pose_time state)), (''broadcast_time'', GFloat (os_broadcast_time state)),
           (''has_pose'', GBool (os_has_pose state)), (''transform'', GTransform (transform_from_wire g (os_pose state))),
           (''is_owned_by_me'', GBool (os_owner_client_no state \<noteq> 0 \<and>
              os_owner_client_no state = local_client_no (device_mapping c)))])"

definition bridge_request_object_ownership :: "i64 \<Rightarrow> NetSyncClient \<Rightarrow> bool \<times> NetSyncClient" where
  "bridge_request_object_ownership object_id = request_object_ownership (to_object_id object_id)"

definition bridge_release_object_ownership :: "i64 \<Rightarrow> NetSyncClient \<Rightarrow> bool \<times> NetSyncClient" where
  "bridge_release_object_ownership object_id = release_object_ownership (to_object_id object_id)"

section \<open>Utilities\<close>

definition generate_device_id :: "('s, 't, 'p, 'v) Godot \<Rightarrow> u8 list \<Rightarrow> 's" where
  "generate_device_id g random = to_godot g (generate_uuid_v4 random)"

definition bridge_load_or_create_device_id :: "('s, 't, 'p, 'v) Godot \<Rightarrow> u8 list \<Rightarrow> 's \<Rightarrow> Files \<Rightarrow> 's \<times> Files" where
  "bridge_load_or_create_device_id g random path files =
     (let (device_id, files) = load_or_create_device_id random (to_std g path) files in (to_godot g device_id, files))"

definition fnv1a :: "u32 \<Rightarrow> char \<Rightarrow> u32" where
  "fnv1a hash c = (hash XOR ucast (byte_of_char c)) * 16777619"

definition hash_object_id :: "('s, 't, 'p, 'v) Godot \<Rightarrow> 's \<Rightarrow> i64" where
  "hash_object_id g name =
     (let hash = foldl fnv1a 2166136261 (to_std g name);
          hash = (if hash = 0 then 1 else hash)
      in ucast hash)"

definition godot_to_netsync_transform :: "('s, 't, 'p, 'v) Godot \<Rightarrow> 't \<Rightarrow> 't" where
  "godot_to_netsync_transform g transform =
     (let on_wire = transform_to_wire g transform in make_transform g (pt_rotation on_wire) (pt_position on_wire))"

definition netsync_to_godot_transform :: "('s, 't, 'p, 'v) Godot \<Rightarrow> 't \<Rightarrow> 't" where
  "netsync_to_godot_transform g transform =
     transform_from_wire g \<lparr>pt_position = origin_of g transform, pt_rotation = rotation_of g transform\<rparr>"

section \<open>Object ids and pose flags bit by bit\<close>

lemma to_object_id_ucast: "to_object_id (ucast w) = w" "to_object_id (scast w) = w"
proof -
  have m: "(0xFFFFFFFF :: i64) = mask 32" by (simp add: mask_eq_exp_minus_1)
  show "to_object_id (ucast w) = w" "to_object_id (scast w) = w"
    unfolding to_object_id_def m by (rule bit_word_eqI, auto simp: bit_simps)+
qed

lemma hash_object_id_nonzero: "\<exists>w :: u32. w \<noteq> 0 \<and> hash_object_id g name = ucast w"
  unfolding hash_object_id_def Let_def by (rule exI [of _ "if foldl fnv1a 2166136261 (to_std g name) = 0 then 1 else foldl fnv1a 2166136261 (to_std g name)"]) auto

lemma flag_tests:
  "flags AND POSE_FLAG_STEALTH = 0 \<longleftrightarrow> \<not> bit flags 0" "flags AND POSE_FLAG_PHYSICAL_VALID = 0 \<longleftrightarrow> \<not> bit flags 1"
  "flags AND POSE_FLAG_HEAD_VALID = 0 \<longleftrightarrow> \<not> bit flags 2" "flags AND POSE_FLAG_RIGHT_VALID = 0 \<longleftrightarrow> \<not> bit flags 3"
  "flags AND POSE_FLAG_LEFT_VALID = 0 \<longleftrightarrow> \<not> bit flags 4" "flags AND POSE_FLAG_VIRTUALS_VALID = 0 \<longleftrightarrow> \<not> bit flags 5"
  "flags AND POSE_FLAG_MOVING_FLOOR_LOCAL = 0 \<longleftrightarrow> \<not> bit flags 6"
  unfolding pose_flag_defs push_bit_of_1 by (rule and_exp_eq_0_iff_not_bit)+

lemma bit_flags:
  "bit POSE_FLAG_STEALTH n \<longleftrightarrow> n = 0" "bit POSE_FLAG_PHYSICAL_VALID n \<longleftrightarrow> n = 1" "bit POSE_FLAG_HEAD_VALID n \<longleftrightarrow> n = 2"
  "bit POSE_FLAG_RIGHT_VALID n \<longleftrightarrow> n = 3" "bit POSE_FLAG_LEFT_VALID n \<longleftrightarrow> n = 4" "bit POSE_FLAG_VIRTUALS_VALID n \<longleftrightarrow> n = 5"
  "bit POSE_FLAG_MOVING_FLOOR_LOCAL n \<longleftrightarrow> n = 6"
  unfolding pose_flag_defs push_bit_of_1 bit_exp_iff possible_bit_word by auto

lemma bit_flag_if: "bit (flag_if b flag flags) n \<longleftrightarrow> bit flags n \<or> b \<and> bit flag n"
  by (simp add: flag_if_def bit_simps)

text \<open>Without a head the hands and the virtuals are not shown.\<close>

lemma bit_sanitized:
  assumes "\<not> bit flags 0"
  shows "bit (sanitize_pose_flags flags) n \<longleftrightarrow> bit flags n \<and> (bit flags 2 \<or> n \<notin> {3, 4, 5})"
proof -
  have "sanitize_pose_flags flags =
      (if bit flags 2 then flags else flags AND NOT (POSE_FLAG_RIGHT_VALID OR POSE_FLAG_LEFT_VALID OR POSE_FLAG_VIRTUALS_VALID))"
    using assms by (simp add: sanitize_pose_flags_def flag_tests)
  moreover have "bit flags n \<Longrightarrow> n < LENGTH(8)" by (rule bit_imp_le_length)
  ultimately show ?thesis by (auto simp only: bit_and_iff bit_or_iff bit_not_iff bit_flags possible_bit_word split: if_splits)
qed

lemma received_flags: "pb_flags (received_pose_body lm body) = sanitize_pose_flags (pb_flags body)"
  by (simp add: received_pose_body_def Let_def)

lemma shown_flags:
  assumes "flags = sanitize_pose_flags (sanitize_pose_flags (pose_flags_of g pose))"
  shows "bit flags 0 \<longleftrightarrow> False" "bit flags 2 \<longleftrightarrow> dictionary_has_transform g pose ''head''"
    "bit flags 3 \<longleftrightarrow> dictionary_has_transform g pose ''head'' \<and> dictionary_has_transform g pose ''right_hand''"
    "bit flags 4 \<longleftrightarrow> dictionary_has_transform g pose ''head'' \<and> dictionary_has_transform g pose ''left_hand''"
    "bit flags 5 \<longleftrightarrow> dictionary_has_transform g pose ''head'' \<and> virtuals_of g pose \<noteq> []"
    "bit flags 1 \<longleftrightarrow> (case pose ''physical_valid'' of None \<Rightarrow> True | Some v \<Rightarrow> as_bool g v)"
    "bit flags 6 \<longleftrightarrow> (case pose ''moving_floor_local'' of None \<Rightarrow> False | Some v \<Rightarrow> as_bool g v)"
proof -
  let ?f = "pose_flags_of g pose"
  have f: "bit ?f n \<longleftrightarrow> n = 6 \<and> (case pose ''moving_floor_local'' of None \<Rightarrow> False | Some v \<Rightarrow> as_bool g v) \<or>
      n = 2 \<and> dictionary_has_transform g pose ''head'' \<or> n = 3 \<and> dictionary_has_transform g pose ''right_hand'' \<or>
      n = 4 \<and> dictionary_has_transform g pose ''left_hand'' \<or> n = 5 \<and> virtuals_of g pose \<noteq> [] \<or>
      n = 1 \<and> (case pose ''physical_valid'' of None \<Rightarrow> True | Some v \<Rightarrow> as_bool g v)" for n
    unfolding pose_flags_of_def Let_def bit_flag_if bit_flags by auto
  have s: "\<not> bit ?f 0" unfolding f by simp
  have "\<not> bit (sanitize_pose_flags ?f) 0" using s by (simp add: bit_sanitized [OF s])
  then have b: "bit flags n \<longleftrightarrow> bit ?f n \<and> (bit ?f 2 \<or> n \<notin> {3, 4, 5})" for n
    using bit_sanitized [of "sanitize_pose_flags ?f"] bit_sanitized [OF s] by (auto simp: assms)
  show "bit flags 0 \<longleftrightarrow> False" "bit flags 2 \<longleftrightarrow> dictionary_has_transform g pose ''head''"
    "bit flags 3 \<longleftrightarrow> dictionary_has_transform g pose ''head'' \<and> dictionary_has_transform g pose ''right_hand''"
    "bit flags 4 \<longleftrightarrow> dictionary_has_transform g pose ''head'' \<and> dictionary_has_transform g pose ''left_hand''"
    "bit flags 5 \<longleftrightarrow> dictionary_has_transform g pose ''head'' \<and> virtuals_of g pose \<noteq> []"
    "bit flags 1 \<longleftrightarrow> (case pose ''physical_valid'' of None \<Rightarrow> True | Some v \<Rightarrow> as_bool g v)"
    "bit flags 6 \<longleftrightarrow> (case pose ''moving_floor_local'' of None \<Rightarrow> False | Some v \<Rightarrow> as_bool g v)"
    unfolding b f by auto
qed

section \<open>A room snapshot\<close>

lemma room_pose_fold:
  assumes "fold (room_pose_client l b) cs (al, ps) = (al', ps')" "distinct (map rpc_client_no cs)"
  shows "om_find ps' k = (case map_of (map (\<lambda>x. (uint (rpc_client_no x), x)) cs) k of
      None \<Rightarrow> om_find ps k
    | Some x \<Rightarrow> if k = l \<and> l \<noteq> 0 then om_find ps k
        else Some \<lparr>rc_client_no = k, rc_pose_time = rpc_pose_time x, rc_broadcast_time = b, rc_body = rpc_body x\<rparr>)"
  using assms
proof (induction cs arbitrary: al ps)
  case (Cons x cs)
  obtain al1 ps1 where s: "room_pose_client l b x (al, ps) = (al1, ps1)" by fastforce
  have n: "map_of (map (\<lambda>x. (uint (rpc_client_no x), x)) cs) (uint (rpc_client_no x)) = None"
    using Cons.prems(2) by (auto simp: map_of_eq_None_iff) (metis imageI word_uint_eq_iff)
  have "om_find ps1 k = (if uint (rpc_client_no x) = k \<and> \<not> (k = l \<and> l \<noteq> 0)
      then Some \<lparr>rc_client_no = k, rc_pose_time = rpc_pose_time x, rc_broadcast_time = b, rc_body = rpc_body x\<rparr> else om_find ps k)"
    using s by (auto simp: room_pose_client_def Let_def split: if_splits)
  then show ?case using Cons.IH [of al1 ps1] Cons.prems s n by (auto split: option.splits)
qed simp

lemma length_room_clients: "length (concat (map (enc_room_pose_client lm) cs)) \<le> 556 * length cs"
proof (induction cs)
  case (Cons x cs)
  then show ?case using length_enc_pose_body [of lm "rpc_body x"] by (simp add: enc_room_pose_client_def)
qed simp

lemma room_pose_received:
  assumes "length (rp_clients m) < 2 ^ 16"
  shows "deserialize_room_pose lm (serialize_room_pose lm m) = Some (received_room_pose lm m)"
proof -
  have "length (serialize_room_pose lm m) < 2 ^ 64"
    using assms length_room_clients [of lm "rp_clients m"] length_truncate_utf8_bytes [of "rp_room_id m" 255]
    by (simp add: room_pose.layout enc_room_pose_def)
  then show ?thesis using room_pose.roundtrip [of m lm "[]"] assms by (simp add: deserialize_room_pose_def)
qed

section \<open>Properties\<close>

text \<open>C39. An object id means the same on both sides of the boundary: the unsigned and the sign-extended 64 bit
  integer of a 32 bit id give that id back, and the id hashed from a name is never the reserved 0, so
  registering it succeeds and registers exactly that id.\<close>

theorem object_ids_cross_the_bridge:
  "to_object_id (ucast w) = w \<and> to_object_id (scast w) = w \<and>
   hash_object_id g name = ucast (to_object_id (hash_object_id g name)) \<and> to_object_id (hash_object_id g name) \<noteq> 0 \<and>
   (\<exists>c'. bridge_register_object (hash_object_id g name) c = (True, c') \<and>
     (\<forall>i. is_registered (object_sync c') i \<longleftrightarrow> i = to_object_id (hash_object_id g name) \<or> is_registered (object_sync c) i))"
proof -
  obtain h :: u32 where h: "h \<noteq> 0" "hash_object_id g name = ucast h" using hash_object_id_nonzero [of g name] by (elim exE conjE)
  have i: "to_object_id (hash_object_id g name) = h" unfolding h(2) by (rule to_object_id_ucast)
  let ?e = "case om_find (objects (object_sync c)) h of None \<Rightarrow> Entry_default | Some e \<Rightarrow> e"
  let ?c = "c\<lparr>object_sync := (object_sync c)\<lparr>objects := om_insert h (?e\<lparr>en_state := (en_state ?e)\<lparr>os_object_id := h\<rparr>\<rparr>) (objects (object_sync c))\<rparr>\<rparr>"
  have "bridge_register_object (hash_object_id g name) c = (True, ?c)"
    unfolding bridge_register_object_def i client_register_object_def register_object_def using h(1) by (simp only: Let_def prod.case if_False) simp
  moreover have "is_registered (object_sync ?c) j \<longleftrightarrow> j = h \<or> is_registered (object_sync c) j" for j by (simp add: is_registered_def)
  ultimately show ?thesis unfolding i using h to_object_id_ucast [of w] by (intro conjI exI [of _ ?c]) simp_all
qed


definition plain_engine :: "(string, PoseTransform, Vec3, PoseTransform) Godot" where
  "plain_engine = \<lparr>string_utf8 = id, string_from_utf8 = id, get_type = \<lambda>_. TRANSFORM3D, as_string = \<lambda>_. [], as_int = \<lambda>_. 0,
     as_bool = \<lambda>_. False, as_double = \<lambda>_. dlit 0, as_transform = id, as_vector = pt_position, as_array = \<lambda>v. [v],
     origin_of = pt_position, rotation_of = pt_rotation, make_transform = \<lambda>q p. \<lparr>pt_position = p, pt_rotation = q\<rparr>,
     components_of = id, make_vector = id\<rparr>"


end
