(* ===== verification/Spec2Isabelle.thy ===== *)
theory Spec2Isabelle
  imports Bridge
begin

text \<open>
  A verification library for the C++ client of the STYLY NetSync protocol (version 8), the code under
  \<open>src/\<close> of the repository: a Godot extension that keeps avatars, remote calls, shared variables and
  objects in step with the other members of a room, through a server spoken to over ZeroMQ.

  \<^bold>\<open>Parts of the program and their theories.\<close>

  \<^item> Bytes. \<open>protocol/binary_writer.*\<close> and \<open>protocol/binary_reader.*\<close> are the programs of \<open>Binary_IO\<close>, in the
    state monad over the buffer and over the cursor; \<open>Utf8\<close> shows that the two truncations keep whole
    characters; \<open>Wire_Calculus\<close> is the proof calculus of reader programs (what they decode, that they are
    stable under appended bytes, that they fail on every proper prefix).
  \<^item> Numbers. \<open>double\<close> is the bit pattern of IEEE binary64 (\<open>Binary64\<close>), each operation the exact result
    rounded once (\<open>Rounding\<close>). \<open>protocol/pose_codec.*\<close> is \<open>Pose_Codec\<close>: rounding, quantisation, quaternions.
    \<open>Text\<close> holds the number-to-text conversions of the standard library that the sources use.
  \<^item> Messages. \<open>protocol/message_types.hpp\<close> and \<open>protocol/protocol_v8.*\<close> are \<open>Protocol_V8\<close>, one definition per
    serialiser and deserialiser. \<open>Protocol_Codec\<close> interprets the interfaces \<open>record_codec\<close> and \<open>message_codec\<close>
    on each of them; \<open>Protocol_Properties\<close> states the round trips, the rejection of truncated payloads and
    the exclusive types.
  \<^item> \<open>core/json_util.*\<close> is \<open>Json_Util\<close>: the encoder, the recursive-descent parser, whose loops are partial
    functions shown to return on every input, and the argument decoder.
  \<^item> \<open>core/device_mapping.*\<close> is \<open>Device_Mapping\<close> (numbers, ids and presence); \<open>core/device_id.*\<close> is \<open>Device_Id\<close>.
  \<^item> \<open>transport/zmq_transport.*\<close> is \<open>Transport\<close>: both threads, as steps on one state, so that the theorems
    hold for every interleaving; \<open>transport/server_discovery.*\<close> is \<open>Discovery\<close>.
  \<^item> \<open>core/rpc_manager.*\<close>, \<open>core/network_variable_manager.*\<close> and \<open>core/object_sync_manager.*\<close> are \<open>Rpc_Manager\<close>,
    \<open>Network_Variables\<close> and \<open>Object_Sync\<close>. They send through \<open>std::function\<close> members; \<open>Control_Lane\<close> states what
    they rely on as the locale \<open>control_lane\<close> and shows it of the client's callbacks. \<open>Ttl_Queue\<close> is the queue
    with expiry that the drain of the transport and the flush of the calls both implement.
  \<^item> \<open>core/netsync_client.*\<close> is \<open>NetSync_Client\<close>; \<open>Client_Invariant\<close> and \<open>Client_Properties\<close> are its theorems.
  \<^item> \<open>godot/coordinate_converter.*\<close> is \<open>Coordinates\<close>; \<open>godot/netsync_bridge.*\<close> is \<open>Bridge\<close>.
  \<^item> \<open>Prelude\<close> and \<open>Ordered_Map\<close> (\<open>std::map\<close>, iterated in the order of the keys) are shared by all.

  \<^bold>\<open>How the parts interact.\<close> The host calls the bridge, the bridge the client. The network thread puts
  payloads and notifications into inboxes of the client (\<open>handle_payload\<close>, \<open>notify\<close>), and \<open>poll\<close> drains them on
  the host's thread: it starts the transport for a discovered server, sends the hello, decodes the
  payloads and hands them to the device mapping and the managers, lets the managers send, and reports what
  happened as events, which the bridge turns into signals. What a manager sends goes to the outbox of
  the transport, which the network thread drains.

  \<^bold>\<open>State and errors.\<close> A class is a record, an operation a function from the old state to the new one; an
  operation that calls back is given the callbacks and threads the state behind them. A \<open>false\<close> or a failed
  parse is a \<open>None\<close>, a sum or a boolean in the result. Fixed-width integers are words and wrap; \<open>int\<close>s that hold
  client numbers, ports or sizes are \<open>int\<close>, since their values stay far inside 32 bits.

  \<^bold>\<open>What is shown.\<close> Of the wire: messages are received as they were sent, up to the stated truncations and
  the quantisation grid, whose error is bounded; no proper prefix of a message and no foreign type is
  accepted; stealth reveals nothing. Of the transport: the control lane is a bounded queue that keeps the
  order under every interleaving, the pose slot never loses the last pose, a room receives only its own
  frames. Of the managers: the rate limit holds in every window, calls leave in order, the last value of a
  variable is the one that is sent, snapshots are authoritative, objects are published at the send rate by
  their owner alone. Of the client: an invariant over every sequence of calls, polls and deliveries;
  readiness is reported exactly and is reached; malformed payloads change nothing; a call and a pose reach
  the other side. Of the bridge: object ids and poses cross it unchanged. Of the device id: it persists.

  \<^bold>\<open>Parameters.\<close> libzmq is the record \<open>Zmq\<close>, the sockets of the operating system the record \<open>Os\<close>, the Godot
  engine the record \<open>Godot\<close>, \<open>sin\<close>, \<open>cos\<close> and \<open>atan2\<close> the record \<open>libm\<close>; clocks are sequences of readings, random
  bytes an argument. Theorems that need more of them than their types say so in a hypothesis, and a
  witness shows it for a concrete instance.

  \<^bold>\<open>Bounds and fuel.\<close> The parser counts nesting levels down from 64 as the code does. The network loop runs
  until another thread stops it: it takes the number of rounds it runs before that, and the theorems hold
  for each number. The search loop of the discovery and the loops of the parser over arrays and objects
  are partial functions, where \<open>None\<close> means that they do not return; the parser's are shown to return, the
  search goes on until it finds a server or is stopped. Every other loop terminates by a measure.

  \<^bold>\<open>Not modelled.\<close> Mutexes and the memory model (an operation under a lock is one step; the findings name a
  data race), starting and joining threads beyond the bounds of a run, the Windows branches of the
  discovery, the method table of the bridge and \<open>godot/gdextension_entry.cpp\<close> (calls of
  the engine's registration macros), the GDScript addon and the tests.
\<close>

end
